(* ===== verification/Capture_Prelude.thy ===== *)
theory Capture_Prelude
  imports Main "HOL-Library.Word" "HOL-Library.Sublist"
begin

text \<open>
  Shared vocabulary of the development: the representation of JavaScript
  strings and bytes, the errors a handler of \<^verbatim>\<open>page.tsx\<close> can raise, and the
  generic facts on words, lists and sums that the component theories use.

  \<^item> A JavaScript string is a sequence of UTF-16 code units, so it is a list of
    16-bit words (\<open>jsstring\<close>); the elements of a \<^verbatim>\<open>Uint8Array\<close> are 8-bit words
    (\<open>byte\<close>). The store \<^verbatim>\<open>ia[i] = s.charCodeAt(i)\<close> is then the truncation
    \<open>ucast\<close> from 16 to 8 bits, and whether it loses information is a theorem
    about the string that is stored, not an assumption of the model.
  \<^item> String literals of the source are written \<open>js ''...''\<close>; a literal is kept
    folded in symbolic proofs and unfolded by \<open>js_simps\<close> when it is evaluated.
  \<^item> A raised exception is a value \<open>Inl e\<close> of the sum \<open>js_error + 'a\<close>.
  \<^item> \<open>capture_defs\<close> collects the definitions that are unfolded when a closed
    term is evaluated; \<open>capture_inv\<close> collects preservation lemmas of the
    component invariants.
\<close>

section \<open>Collections\<close>

named_theorems capture_defs "definitions unfolded to evaluate closed terms of the model"
named_theorems capture_inv "preservation lemmas of the component invariants"

section \<open>Strings, bytes and errors\<close>

type_synonym code_unit = "16 word"
type_synonym jsstring = "code_unit list"
type_synonym byte = "8 word"

definition js :: "string \<Rightarrow> jsstring" where
  "js s = map (\<lambda>c. of_nat (of_char c)) s"

datatype js_error =
    InvalidCharacterError
  | NullPropertyTypeError
  | FetchTypeError jsstring
  | JsonSyntaxError

type_synonym 'a result = "js_error + 'a"

definition is_ok :: "'a result \<Rightarrow> bool" where
  "is_ok r = (case r of Inl _ \<Rightarrow> False | Inr _ \<Rightarrow> True)"

fun index_of :: "'a \<Rightarrow> 'a list \<Rightarrow> nat option" where
  "index_of x [] = None"
| "index_of x (y # ys) = (if x = y then Some 0 else map_option Suc (index_of x ys))"

abbreviation "chr_tab \<equiv> (0x09 :: code_unit)"
abbreviation "chr_lf \<equiv> (0x0A :: code_unit)"
abbreviation "chr_ff \<equiv> (0x0C :: code_unit)"
abbreviation "chr_cr \<equiv> (0x0D :: code_unit)"
abbreviation "chr_space \<equiv> (0x20 :: code_unit)"
abbreviation "chr_plus \<equiv> (0x2B :: code_unit)"
abbreviation "chr_comma \<equiv> (0x2C :: code_unit)"
abbreviation "chr_slash \<equiv> (0x2F :: code_unit)"
abbreviation "chr_colon \<equiv> (0x3A :: code_unit)"
abbreviation "chr_semicolon \<equiv> (0x3B :: code_unit)"
abbreviation "chr_equals \<equiv> (0x3D :: code_unit)"

section \<open>Literals\<close>

lemma js_Nil: "js [] = []"
  by (simp add: js_def)

lemma js_Cons: "js (c # cs) = of_nat (of_char c) # js cs"
  by (simp add: js_def)

lemmas js_simps = js_Nil js_Cons

declare js_simps [capture_defs]

lemma js_append [simp]: "js (a @ b) = js a @ js b"
  by (simp add: js_def)

lemma length_js [simp]: "length (js s) = length s"
  by (simp add: js_def)

section \<open>Results\<close>

lemma is_ok_simps [simp]: "is_ok (Inr x)" "\<not> is_ok (Inl e)"
  by (simp_all add: is_ok_def)

lemma is_ok_iff: "is_ok r \<longleftrightarrow> (\<exists>x. r = Inr x)"
  by (cases r) simp_all

section \<open>Words\<close>

text \<open>
  A byte widened to a code unit and truncated again is the byte, and a widened
  byte is below 256: the two facts behind every statement that a binary string
  survives the copy into a \<^verbatim>\<open>Uint8Array\<close>.
\<close>

lemma ucast_byte_code_unit [simp]: "(ucast (ucast (b :: byte) :: code_unit) :: byte) = b"
  by (simp add: ucast_up_ucast_id is_up)

lemma map_ucast_byte_code_unit [simp]:
  "map (ucast :: code_unit \<Rightarrow> byte) (map (ucast :: byte \<Rightarrow> code_unit) bs) = bs"
  by (induction bs) simp_all

lemma map_ucast_comp_byte [simp]:
  "map ((ucast :: code_unit \<Rightarrow> byte) \<circ> (ucast :: byte \<Rightarrow> code_unit)) bs = bs"
  by (induction bs) simp_all

lemma unat_ucast_byte: "unat (ucast (b :: byte) :: code_unit) = unat b"
  by (simp add: unsigned_ucast_eq take_bit_nat_eq_self_iff)
    (use unsigned_less [of b, where 'a = nat] in simp)

lemma unat_ucast_byte_less: "unat (ucast (b :: byte) :: code_unit) < 256"
  using unsigned_less [of b, where 'a = nat] by (simp add: unat_ucast_byte)

lemma unat_byte_less [simp]: "unat (b :: byte) < 256"
  using unsigned_less [of b, where 'a = nat] by simp

lemma byte_of_nat_unat: "n < 256 \<Longrightarrow> unat (of_nat n :: byte) = n"
  by (simp add: unat_of_nat take_bit_nat_eq_self)

lemma code_unit_of_nat_unat: "n < 65536 \<Longrightarrow> unat (of_nat n :: code_unit) = n"
  by (simp add: unat_of_nat take_bit_nat_eq_self)

section \<open>Lists\<close>

lemma takeWhile_neq_hit:
  "x \<in> set xs \<Longrightarrow> xs = takeWhile (\<lambda>c. c \<noteq> x) xs @ x # tl (dropWhile (\<lambda>c. c \<noteq> x) xs)"
  by (induction xs) auto

lemma takeWhile_neq_append:
  "x \<notin> set pre \<Longrightarrow> takeWhile (\<lambda>c. c \<noteq> x) (pre @ x # post) = pre"
  by (induction pre) auto

lemma dropWhile_neq_append:
  "x \<notin> set pre \<Longrightarrow> dropWhile (\<lambda>c. c \<noteq> x) (pre @ x # post) = x # post"
  by (induction pre) auto

text \<open>The last element of a list by its index, also after an update there.\<close>

lemma last_nth_Suc: "Suc k = length xs \<Longrightarrow> last xs = xs ! k"
  by (cases xs rule: rev_cases) (auto simp: nth_append)

lemma last_update_last: "Suc k = length xs \<Longrightarrow> last (xs[k := x]) = x"
proof -
  assume "Suc k = length xs"
  then have "xs \<noteq> []" "k = length xs - 1" by auto
  then show ?thesis by (simp add: last_list_update)
qed

text \<open>The position of the first occurrence of an element: a table lookup.\<close>

lemma index_of_Some: "index_of x xs = Some n \<longleftrightarrow> n < length xs \<and> xs ! n = x \<and> x \<notin> set (take n xs)"
proof (induction xs arbitrary: n)
  case Nil
  then show ?case by simp
next
  case (Cons y ys)
  then show ?case by (cases n) auto
qed

lemma index_of_None: "index_of x xs = None \<longleftrightarrow> x \<notin> set xs"
  by (induction xs) auto

lemma index_of_nth: "distinct xs \<Longrightarrow> n < length xs \<Longrightarrow> index_of (xs ! n) xs = Some n"
  by (auto simp: index_of_Some distinct_conv_nth in_set_conv_nth)

end
