(* ===== verification/JS_Strings.thy ===== *)
theory JS_Strings
  imports Capture_Prelude
begin

text \<open>
  The string operations that \<^verbatim>\<open>src/frontend/app/analyse/page.tsx\<close> applies:
  \<^verbatim>\<open>split(",")\<close>, array indexing with its \<^verbatim>\<open>undefined\<close>, \<^verbatim>\<open>startsWith\<close>, and the
  two regular expression literals of the file, each translated into the matcher
  it denotes: \<^verbatim>\<open>/:(.*?);/\<close> (line 15, the MIME type of a data URI) and
  \<^verbatim>\<open>/iPhone|iPad|iPod|Android/i\<close> (line 175, the device test).
  The lemmas characterise each matcher by the decomposition of the input it
  finds, so that the component theories never unfold the recursion.
\<close>

section \<open>Splitting at a separator and indexing\<close>

fun split_js :: "code_unit \<Rightarrow> jsstring \<Rightarrow> jsstring list" where
  "split_js sep [] = [[]]"
| "split_js sep (c # cs) =
     (if c = sep then [] # split_js sep cs
      else (case split_js sep cs of [] \<Rightarrow> [[c]] | p # ps \<Rightarrow> (c # p) # ps))"

definition index_js :: "'a list \<Rightarrow> nat \<Rightarrow> 'a option" where
  "index_js xs i = (if i < length xs then Some (xs ! i) else None)"

definition to_DOMString :: "jsstring option \<Rightarrow> jsstring" where
  "to_DOMString v = (case v of None \<Rightarrow> js ''undefined'' | Some s \<Rightarrow> s)"

definition startsWith :: "jsstring \<Rightarrow> jsstring \<Rightarrow> bool" where
  "startsWith s p = (take (length p) s = p)"

section \<open>The regular expression \<^verbatim>\<open>/:(.*?);/\<close>\<close>

text \<open>
  \<^verbatim>\<open>.\<close> matches any code unit but a line terminator; the lazy star takes the
  shortest run that lets \<^verbatim>\<open>;\<close> match; the match starts at the leftmost \<^verbatim>\<open>:\<close>
  from which this succeeds. \<open>match_mime\<close> returns capture group 1, or \<open>None\<close>
  where \<^verbatim>\<open>match\<close> returns \<^verbatim>\<open>null\<close>.
\<close>

definition is_line_terminator :: "code_unit \<Rightarrow> bool" where
  "is_line_terminator c \<longleftrightarrow> c = 0x0A \<or> c = 0x0D \<or> c = 0x2028 \<or> c = 0x2029"

fun lazy_until_semicolon :: "jsstring \<Rightarrow> jsstring option" where
  "lazy_until_semicolon [] = None"
| "lazy_until_semicolon (c # cs) =
     (if c = chr_semicolon then Some []
      else if is_line_terminator c then None
      else map_option ((#) c) (lazy_until_semicolon cs))"

fun match_mime :: "jsstring \<Rightarrow> jsstring option" where
  "match_mime [] = None"
| "match_mime (c # cs) =
     (if c = chr_colon
      then (case lazy_until_semicolon cs of Some m \<Rightarrow> Some m | None \<Rightarrow> match_mime cs)
      else match_mime cs)"

section \<open>The regular expression \<^verbatim>\<open>/iPhone|iPad|iPod|Android/i\<close>\<close>

text \<open>
  Under the \<^verbatim>\<open>i\<close> flag two code units match when their canonical forms agree.
  The canonical form is the upper case of the unit, except that a unit from 128
  on is never mapped below 128; for the ASCII letters of this pattern only the
  two ASCII cases of a letter therefore match it, which \<open>canonicalize\<close> states
  on the units that can matter.
\<close>

definition canonicalize :: "code_unit \<Rightarrow> code_unit" where
  "canonicalize c = (if 0x61 \<le> c \<and> c \<le> 0x7A then c - 0x20 else c)"

fun matches_here :: "jsstring \<Rightarrow> jsstring \<Rightarrow> bool" where
  "matches_here [] s = True"
| "matches_here (p # ps) [] = False"
| "matches_here (p # ps) (c # cs) = (canonicalize p = canonicalize c \<and> matches_here ps cs)"

fun search_ci :: "jsstring \<Rightarrow> jsstring \<Rightarrow> bool" where
  "search_ci p [] = matches_here p []"
| "search_ci p (c # cs) = (matches_here p (c # cs) \<or> search_ci p cs)"

definition mobile_regex_test :: "jsstring \<Rightarrow> bool" where
  "mobile_regex_test ua \<longleftrightarrow>
     search_ci (js ''iPhone'') ua \<or> search_ci (js ''iPad'') ua \<or>
     search_ci (js ''iPod'') ua \<or> search_ci (js ''Android'') ua"

section \<open>Facts about splitting\<close>

lemma split_js_not_Nil [simp]: "split_js sep s \<noteq> []"
  by (induction s) (auto split: list.splits)

lemma split_js_no_sep: "sep \<notin> set s \<Longrightarrow> split_js sep s = [s]"
  by (induction s) auto

lemma split_js_append:
  "sep \<notin> set pre \<Longrightarrow> split_js sep (pre @ sep # post) = pre # split_js sep post"
  by (induction pre) auto

lemma split_js_hd: "hd (split_js sep s) = takeWhile (\<lambda>c. c \<noteq> sep) s"
  by (induction s) (auto split: list.splits)

lemma length_split_js: "length (split_js sep s) = Suc (count_list s sep)"
  by (induction s) (auto split: list.splits)

lemma split_js_parts_free: "p \<in> set (split_js sep s) \<Longrightarrow> sep \<notin> set p"
proof (induction s arbitrary: p)
  case Nil
  then show ?case by simp
next
  case (Cons c s)
  obtain q qs where q: "split_js sep s = q # qs"
    by (cases "split_js sep s") simp_all
  from Cons.IH q have "sep \<notin> set q" and "\<And>r. r \<in> set qs \<Longrightarrow> sep \<notin> set r"
    by simp_all
  with Cons.prems q show ?case
    by (auto split: if_splits)
qed

lemma index_js_simps [simp]:
  "index_js [] i = None"
  "index_js (x # xs) 0 = Some x"
  "index_js (x # xs) (Suc i) = index_js xs i"
  by (simp_all add: index_js_def)

lemma index_js_first_split: "index_js (split_js sep s) 0 = Some (takeWhile (\<lambda>c. c \<noteq> sep) s)"
  using split_js_hd [of sep s] by (cases "split_js sep s") simp_all

lemma index_js_second_split_None:
  "sep \<notin> set s \<Longrightarrow> index_js (split_js sep s) (Suc 0) = None"
  by (simp add: split_js_no_sep)

lemma index_js_second_split:
  "sep \<notin> set pre \<Longrightarrow>
   index_js (split_js sep (pre @ sep # post)) (Suc 0) = Some (takeWhile (\<lambda>c. c \<noteq> sep) post)"
  by (simp add: split_js_append index_js_first_split)

lemma to_DOMString_simps [simp]:
  "to_DOMString (Some s) = s"
  "to_DOMString None = js ''undefined''"
  by (simp_all add: to_DOMString_def)

lemma startsWith_append [simp]: "startsWith (p @ s) p"
  by (simp add: startsWith_def)

lemma startsWith_iff_prefix: "startsWith s p \<longleftrightarrow> prefix p s"
  by (auto simp: startsWith_def prefix_def) (metis append_take_drop_id)

section \<open>Facts about \<^verbatim>\<open>/:(.*?);/\<close>\<close>

lemma lazy_until_semicolon_Some:
  "lazy_until_semicolon s = Some m \<longleftrightarrow>
     (\<exists>post. s = m @ chr_semicolon # post \<and> chr_semicolon \<notin> set m \<and>
        (\<forall>c \<in> set m. \<not> is_line_terminator c))"
proof (induction s arbitrary: m)
  case Nil
  then show ?case by simp
next
  case (Cons c s)
  show ?case
  proof (cases "c = chr_semicolon")
    case True
    then show ?thesis by (cases m) auto
  next
    case False
    then show ?thesis
      using Cons.IH by (cases m) (auto simp: Cons_eq_append_conv)
  qed
qed

lemma lazy_until_semicolon_append:
  "chr_semicolon \<notin> set m \<Longrightarrow> \<forall>c \<in> set m. \<not> is_line_terminator c \<Longrightarrow>
   lazy_until_semicolon (m @ chr_semicolon # post) = Some m"
  by (auto simp: lazy_until_semicolon_Some)

lemma match_mime_sound:
  "match_mime s = Some m \<Longrightarrow>
   \<exists>pre post. s = pre @ chr_colon # m @ chr_semicolon # post \<and> chr_semicolon \<notin> set m \<and>
     (\<forall>c \<in> set m. \<not> is_line_terminator c)"
proof (induction s)
  case Nil
  then show ?case by simp
next
  case (Cons c s)
  show ?case
  proof (cases "c = chr_colon \<and> lazy_until_semicolon s = Some m")
    case True
    then obtain post where "s = m @ chr_semicolon # post" "chr_semicolon \<notin> set m"
      "\<forall>c \<in> set m. \<not> is_line_terminator c"
      by (auto simp: lazy_until_semicolon_Some)
    with True show ?thesis by (intro exI [of _ "[]"] exI [of _ post]) simp
  next
    case False
    with Cons.prems have "match_mime s = Some m"
      by (auto split: if_splits option.splits)
    then obtain pre post where "s = pre @ chr_colon # m @ chr_semicolon # post"
      "chr_semicolon \<notin> set m" "\<forall>c \<in> set m. \<not> is_line_terminator c"
      using Cons.IH by blast
    then show ?thesis by (intro exI [of _ "c # pre"] exI [of _ post]) simp
  qed
qed

lemma match_mime_first_colon:
  "chr_colon \<notin> set pre \<Longrightarrow> chr_semicolon \<notin> set m \<Longrightarrow> \<forall>c \<in> set m. \<not> is_line_terminator c \<Longrightarrow>
   match_mime (pre @ chr_colon # m @ chr_semicolon # post) = Some m"
  by (induction pre) (simp_all add: lazy_until_semicolon_append)

lemma match_mime_no_colon: "chr_colon \<notin> set s \<Longrightarrow> match_mime s = None"
  by (induction s) auto

lemma lazy_until_semicolon_none: "chr_semicolon \<notin> set s \<Longrightarrow> lazy_until_semicolon s = None"
  by (induction s) auto

lemma match_mime_no_semicolon: "chr_semicolon \<notin> set s \<Longrightarrow> match_mime s = None"
  by (induction s) (auto simp: lazy_until_semicolon_none)

section \<open>Facts about the device pattern\<close>

lemma canonicalize_idem [simp]: "canonicalize (canonicalize c) = canonicalize c"
  unfolding canonicalize_def by (auto simp: word_le_nat_alt unat_sub_if')

lemma matches_here_iff:
  "matches_here p s \<longleftrightarrow>
     length p \<le> length s \<and> map canonicalize (take (length p) s) = map canonicalize p"
  by (induction p s rule: matches_here.induct) auto

lemma matches_here_decomp:
  "matches_here p s \<longleftrightarrow>
     (\<exists>w post. s = w @ post \<and> length w = length p \<and> map canonicalize w = map canonicalize p)"
proof (induction p s rule: matches_here.induct)
  case (1 s)
  then show ?case by simp
next
  case (2 p ps)
  then show ?case by simp
next
  case (3 p ps c cs)
  show ?case
  proof
    assume "matches_here (p # ps) (c # cs)"
    with 3 obtain w post where "cs = w @ post" "length w = length ps"
      "map canonicalize w = map canonicalize ps" "canonicalize p = canonicalize c"
      by auto
    then show "\<exists>w post. c # cs = w @ post \<and> length w = length (p # ps) \<and>
        map canonicalize w = map canonicalize (p # ps)"
      by (intro exI [of _ "c # w"] exI [of _ post]) simp
  next
    assume "\<exists>w post. c # cs = w @ post \<and> length w = length (p # ps) \<and>
        map canonicalize w = map canonicalize (p # ps)"
    then obtain w post where d: "c # cs = w @ post" "length w = length (p # ps)"
        "map canonicalize w = map canonicalize (p # ps)" by blast
    then obtain w' where w: "w = c # w'" by (cases w) auto
    with d 3 show "matches_here (p # ps) (c # cs)" by auto
  qed
qed

lemma search_ci_iff:
  "search_ci p s \<longleftrightarrow>
     (\<exists>pre w post. s = pre @ w @ post \<and> length w = length p \<and>
        map canonicalize w = map canonicalize p)"
proof (induction s)
  case Nil
  then show ?case by (auto simp: matches_here_decomp)
next
  case (Cons c s)
  show ?case
  proof
    assume "search_ci p (c # s)"
    then consider "matches_here p (c # s)" | "search_ci p s" by auto
    then show "\<exists>pre w post. c # s = pre @ w @ post \<and> length w = length p \<and>
        map canonicalize w = map canonicalize p"
    proof cases
      case 1
      then obtain w post where "c # s = w @ post" "length w = length p"
        "map canonicalize w = map canonicalize p"
        unfolding matches_here_decomp by blast
      then show ?thesis by (intro exI [of _ "[]"] exI [of _ w] exI [of _ post]) simp
    next
      case 2
      with Cons.IH obtain pre w post where "s = pre @ w @ post" "length w = length p"
        "map canonicalize w = map canonicalize p" by blast
      then show ?thesis by (intro exI [of _ "c # pre"] exI [of _ w] exI [of _ post]) simp
    qed
  next
    assume "\<exists>pre w post. c # s = pre @ w @ post \<and> length w = length p \<and>
        map canonicalize w = map canonicalize p"
    then obtain pre w post where d: "c # s = pre @ w @ post" "length w = length p"
      "map canonicalize w = map canonicalize p" by blast
    show "search_ci p (c # s)"
    proof (cases pre)
      case Nil
      with d have "matches_here p (c # s)"
        unfolding matches_here_decomp by auto
      then show ?thesis by simp
    next
      case (Cons a pre')
      with d have "s = pre' @ w @ post" by simp
      with d Cons.IH have "search_ci p s" by blast
      then show ?thesis by simp
    qed
  qed
qed

lemma search_ci_append: "search_ci p (pre @ p @ post)"
  unfolding search_ci_iff by blast

end
