(* ===== verification/Base64.thy ===== *)
theory Base64
  imports Capture_Prelude
begin

text \<open>
  Base64 as the browser applies it on the two sides of a data URI. The encoder
  is the one \<^verbatim>\<open>canvas.toDataURL\<close> uses for the payload after \<^verbatim>\<open>;base64,\<close>
  (RFC 4648 with padding); the decoder is \<^verbatim>\<open>atob\<close>, the forgiving-base64 decode of
  the WHATWG Infra standard: ASCII whitespace is removed, up to two trailing
  \<^verbatim>\<open>=\<close> are removed when the length is a multiple of four, a length of one
  modulo four or a code unit outside the alphabet is an \<^verbatim>\<open>InvalidCharacterError\<close>,
  and the remaining sextets are regrouped into bytes. \<^verbatim>\<open>atob\<close> returns a binary
  string: one code unit per byte.

  Neither function is code of the repository; both are modelled from the
  standards because \<^verbatim>\<open>base64ToBlob\<close> (line 14) calls the one on the output of
  the other. The lemmas give the round trip \<open>atob (base64_encode bs)\<close>, the range
  of the code units \<^verbatim>\<open>atob\<close> returns, and its failures.
\<close>

section \<open>The alphabet\<close>

definition b64_alphabet :: jsstring where
  "b64_alphabet = js ''ABCDEFGHIJKLMNOPQRSTUVWXYZabcdefghijklmnopqrstuvwxyz0123456789+/''"

definition b64_char :: "nat \<Rightarrow> code_unit" where
  "b64_char n = b64_alphabet ! n"

definition b64_value :: "code_unit \<Rightarrow> nat option" where
  "b64_value c = index_of c b64_alphabet"

section \<open>Encoding and decoding\<close>

fun encode_groups :: "byte list \<Rightarrow> nat list" where
  "encode_groups (a # b # c # bs) =
     [unat a div 4, unat a mod 4 * 16 + unat b div 16,
      unat b mod 16 * 4 + unat c div 64, unat c mod 64] @ encode_groups bs"
| "encode_groups [a, b] = [unat a div 4, unat a mod 4 * 16 + unat b div 16, unat b mod 16 * 4]"
| "encode_groups [a] = [unat a div 4, unat a mod 4 * 16]"
| "encode_groups [] = []"

fun encode_padding :: "byte list \<Rightarrow> jsstring" where
  "encode_padding (a # b # c # bs) = encode_padding bs"
| "encode_padding [a, b] = [chr_equals]"
| "encode_padding [a] = [chr_equals, chr_equals]"
| "encode_padding [] = []"

definition base64_encode :: "byte list \<Rightarrow> jsstring" where
  "base64_encode bs = map b64_char (encode_groups bs) @ encode_padding bs"

definition is_ascii_whitespace :: "code_unit \<Rightarrow> bool" where
  "is_ascii_whitespace c \<longleftrightarrow> c = chr_tab \<or> c = chr_lf \<or> c = chr_ff \<or> c = chr_cr \<or> c = chr_space"

definition drop_equals :: "jsstring \<Rightarrow> jsstring" where
  "drop_equals s = (if s \<noteq> [] \<and> last s = chr_equals then butlast s else s)"

definition strip_padding :: "jsstring \<Rightarrow> jsstring" where
  "strip_padding s = (if length s mod 4 = 0 then drop_equals (drop_equals s) else s)"

fun decode_groups :: "nat list \<Rightarrow> byte list" where
  "decode_groups (a # b # c # d # r) =
     [of_nat (a * 4 + b div 16), of_nat (b mod 16 * 16 + c div 4), of_nat (c mod 4 * 64 + d)]
       @ decode_groups r"
| "decode_groups [a, b, c] = [of_nat (a * 4 + b div 16), of_nat (b mod 16 * 16 + c div 4)]"
| "decode_groups [a, b] = [of_nat (a * 4 + b div 16)]"
| "decode_groups [a] = []"
| "decode_groups [] = []"

fun sextets :: "jsstring \<Rightarrow> nat list option" where
  "sextets [] = Some []"
| "sextets (c # cs) =
     (case b64_value c of None \<Rightarrow> None
      | Some v \<Rightarrow> map_option ((#) v) (sextets cs))"

definition forgiving_base64_decode :: "jsstring \<Rightarrow> byte list option" where
  "forgiving_base64_decode s =
     (let d = strip_padding (filter (\<lambda>c. \<not> is_ascii_whitespace c) s)
      in if length d mod 4 = 1 then None else map_option decode_groups (sextets d))"

definition atob :: "jsstring \<Rightarrow> jsstring result" where
  "atob s = (case forgiving_base64_decode s of
               None \<Rightarrow> Inl InvalidCharacterError
             | Some bs \<Rightarrow> Inr (map ucast bs))"

section \<open>Alphabet lookups\<close>

lemma length_b64_alphabet [simp]: "length b64_alphabet = 64"
  by (simp add: b64_alphabet_def)

lemma distinct_b64_alphabet: "distinct b64_alphabet"
  by (simp add: b64_alphabet_def js_simps)

lemma b64_value_char: "n < 64 \<Longrightarrow> b64_value (b64_char n) = Some n"
  by (simp add: b64_value_def b64_char_def index_of_nth distinct_b64_alphabet)

lemma b64_value_less: "b64_value c = Some n \<Longrightarrow> n < 64"
  by (simp add: b64_value_def index_of_Some)

lemma b64_char_value: "b64_value c = Some n \<Longrightarrow> b64_char n = c"
  by (simp add: b64_value_def b64_char_def index_of_Some)

lemma b64_alphabet_excludes:
  "chr_equals \<notin> set b64_alphabet" "chr_comma \<notin> set b64_alphabet"
  "chr_tab \<notin> set b64_alphabet" "chr_lf \<notin> set b64_alphabet" "chr_ff \<notin> set b64_alphabet"
  "chr_cr \<notin> set b64_alphabet" "chr_space \<notin> set b64_alphabet"
  by (simp_all add: b64_alphabet_def js_simps)


section \<open>Regrouping bytes and sextets\<close>

lemma first_byte: "y < 256 \<Longrightarrow> x div 4 * 4 + (x mod 4 * 16 + y div 16) div 16 = (x::nat)"
proof -
  assume "y < 256"
  then have "(x mod 4 * 16 + y div 16) div 16 = x mod 4" by simp
  then show ?thesis by simp
qed

lemma second_byte:
  "y < 256 \<Longrightarrow> z < 256 \<Longrightarrow>
   (x mod 4 * 16 + y div 16) mod 16 * 16 + (y mod 16 * 4 + z div 64) div 4 = (y::nat)"
proof -
  assume "y < 256" "z < 256"
  then have "(x mod 4 * 16 + y div 16) mod 16 = y div 16" "(y mod 16 * 4 + z div 64) div 4 = y mod 16"
    by simp_all
  then show ?thesis by simp
qed

lemma third_byte: "z < 256 \<Longrightarrow> (y mod 16 * 4 + z div 64) mod 4 * 64 + z mod 64 = (z::nat)"
proof -
  assume "z < 256"
  then have "(y mod 16 * 4 + z div 64) mod 4 = z div 64" by simp
  then show ?thesis by simp
qed

lemma decode_encode_groups: "decode_groups (encode_groups bs) = bs"
proof (induction bs rule: encode_groups.induct)
  case (1 a b c bs)
  then show ?case
    using first_byte [of "unat b" "unat a"] second_byte [of "unat b" "unat c" "unat a"]
      third_byte [of "unat c" "unat b"]
    by simp
next
  case (2 a b)
  then show ?case
    using first_byte [of "unat b" "unat a"] second_byte [of "unat b" 0 "unat a"]
    by simp
next
  case (3 a)
  then show ?case using first_byte [of 0 "unat a"] by simp
next
  case 4
  then show ?case by simp
qed


section \<open>The encoder's output\<close>

lemma b64_char_in_alphabet: "n < 64 \<Longrightarrow> b64_char n \<in> set b64_alphabet"
  by (simp add: b64_char_def)

lemma sextet_sum_less: "p < 4 \<Longrightarrow> q < 16 \<Longrightarrow> p * 16 + q < (64::nat)"
  "r < 16 \<Longrightarrow> t < 4 \<Longrightarrow> r * 4 + t < (64::nat)"
  by simp_all

lemma byte_div_less:
  "unat (a :: byte) div 4 < 64" "unat (a :: byte) div 16 < 16" "unat (a :: byte) div 64 < 4"
  by (rule less_mult_imp_div_less, simp)+

lemma sextet_bounds:
  "unat (a :: byte) mod 4 * 16 + unat (b :: byte) div 16 < 64"
  "unat (b :: byte) mod 16 * 4 + unat (c :: byte) div 64 < 64"
  "unat (c :: byte) mod 64 < 64"
  "unat (a :: byte) mod 4 * 16 < 64"
  "unat (b :: byte) mod 16 * 4 < 64"
proof -
  show "unat a mod 4 * 16 + unat b div 16 < 64"
    by (intro sextet_sum_less byte_div_less) simp
  show "unat b mod 16 * 4 + unat c div 64 < 64"
    by (intro sextet_sum_less byte_div_less) simp
  show "unat c mod 64 < 64" by simp
  show "unat a mod 4 * 16 < 64" using sextet_sum_less(1) [of "unat a mod 4" 0] by simp
  show "unat b mod 16 * 4 < 64" using sextet_sum_less(2) [of "unat b mod 16" 0] by simp
qed

lemma encode_groups_less: "n \<in> set (encode_groups bs) \<Longrightarrow> n < 64"
  by (induction bs rule: encode_groups.induct) (auto simp: sextet_bounds byte_div_less)

lemma sextets_map_b64_char: "\<forall>n \<in> set ns. n < 64 \<Longrightarrow> sextets (map b64_char ns) = Some ns"
  by (induction ns) (simp_all add: b64_value_char)

lemma sextets_Some_iff:
  "sextets s = Some ns \<longleftrightarrow> length ns = length s \<and> (\<forall>i < length s. b64_value (s ! i) = Some (ns ! i))"
proof (induction s arbitrary: ns)
  case Nil
  then show ?case by auto
next
  case (Cons c s)
  show ?case
  proof (cases ns)
    case Nil
    then show ?thesis by (auto split: option.splits)
  next
    case (Cons n ns')
    then show ?thesis
      using Cons.IH [of ns'] by (auto simp: less_Suc_eq_0_disj split: option.splits)
  qed
qed

lemma length_encode_groups_mod: "length (encode_groups bs) mod 4 \<noteq> Suc 0"
  by (induction bs rule: encode_groups.induct) simp_all

lemma encode_padding_cases:
  "encode_padding bs = [] \<or> encode_padding bs = [chr_equals] \<or>
   encode_padding bs = [chr_equals, chr_equals]"
  by (induction bs rule: encode_padding.induct) simp_all

lemma base64_encode_simps:
  "base64_encode (a # b # c # bs) =
     map b64_char [unat a div 4, unat a mod 4 * 16 + unat b div 16,
       unat b mod 16 * 4 + unat c div 64, unat c mod 64] @ base64_encode bs"
  "base64_encode [a, b] =
     map b64_char [unat a div 4, unat a mod 4 * 16 + unat b div 16, unat b mod 16 * 4] @ [chr_equals]"
  "base64_encode [a] = map b64_char [unat a div 4, unat a mod 4 * 16] @ [chr_equals, chr_equals]"
  "base64_encode [] = []"
  by (simp_all add: base64_encode_def)

lemma length_base64_encode_mod [simp]: "length (base64_encode bs) mod 4 = 0"
  by (induction bs rule: encode_groups.induct) (simp_all add: base64_encode_simps)

lemma drop_equals_snoc [simp]: "drop_equals (s @ [chr_equals]) = s"
  by (simp add: drop_equals_def)

lemma drop_equals_id: "s = [] \<or> last s \<noteq> chr_equals \<Longrightarrow> drop_equals s = s"
  by (auto simp: drop_equals_def)

lemma b64_char_not_equals: "n < 64 \<Longrightarrow> b64_char n \<noteq> chr_equals"
  using b64_alphabet_excludes(1) b64_char_in_alphabet [of n] by auto

lemma map_b64_char_not_equals:
  "\<forall>n \<in> set ns. n < 64 \<Longrightarrow> map b64_char ns = [] \<or> last (map b64_char ns) \<noteq> chr_equals"
  by (cases ns rule: rev_cases) (auto simp: b64_char_not_equals)

lemma drop_equals_padding:
  assumes "\<forall>n \<in> set ns. n < 64"
  shows "drop_equals (drop_equals (map b64_char ns @ encode_padding bs)) = map b64_char ns"
proof -
  have id: "drop_equals (map b64_char ns) = map b64_char ns"
    using map_b64_char_not_equals [OF assms] by (rule drop_equals_id)
  from encode_padding_cases [of bs] show ?thesis
  proof (elim disjE)
    assume "encode_padding bs = []"
    then show ?thesis by (simp add: id)
  next
    assume "encode_padding bs = [chr_equals]"
    then show ?thesis by (simp add: id)
  next
    assume "encode_padding bs = [chr_equals, chr_equals]"
    then have "map b64_char ns @ encode_padding bs = (map b64_char ns @ [chr_equals]) @ [chr_equals]"
      by simp
    then show ?thesis by (simp only: drop_equals_snoc)
  qed
qed

lemma strip_padding_base64_encode:
  "strip_padding (base64_encode bs) = map b64_char (encode_groups bs)"
  unfolding strip_padding_def
  by (simp add: base64_encode_def [symmetric])
     (simp add: base64_encode_def drop_equals_padding encode_groups_less)

lemma base64_encode_chars:
  "c \<in> set (base64_encode bs) \<Longrightarrow> c \<in> set b64_alphabet \<or> c = chr_equals"
  using encode_padding_cases [of bs]
  by (auto simp: base64_encode_def dest: encode_groups_less b64_char_in_alphabet)

lemma filter_whitespace_base64_encode [simp]:
  "filter (\<lambda>c. \<not> is_ascii_whitespace c) (base64_encode bs) = base64_encode bs"
  using b64_alphabet_excludes
  by (auto simp: filter_id_conv is_ascii_whitespace_def dest!: base64_encode_chars)

section \<open>The round trip\<close>

theorem forgiving_decode_encode: "forgiving_base64_decode (base64_encode bs) = Some bs"
  by (simp add: forgiving_base64_decode_def strip_padding_base64_encode
      length_encode_groups_mod sextets_map_b64_char encode_groups_less decode_encode_groups)

lemma atob_base64_encode: "atob (base64_encode bs) = Inr (map ucast bs)"
  by (simp add: atob_def forgiving_decode_encode)

section \<open>Results and failures of \<^verbatim>\<open>atob\<close>\<close>

lemma atob_Inl: "atob s = Inl e \<Longrightarrow> e = InvalidCharacterError"
  by (auto simp: atob_def split: option.splits)

lemma atob_Inr_iff: "atob s = Inr t \<longleftrightarrow> (\<exists>bs. forgiving_base64_decode s = Some bs \<and> t = map ucast bs)"
  by (auto simp: atob_def split: option.splits)

lemma atob_code_units: "atob s = Inr t \<Longrightarrow> c \<in> set t \<Longrightarrow> unat c < 256"
  by (auto simp: atob_Inr_iff unat_ucast_byte_less)

lemma atob_ucast_roundtrip:
  "atob s = Inr t \<Longrightarrow> map (ucast :: byte \<Rightarrow> code_unit) (map ucast t) = t"
  by (auto simp: atob_Inr_iff)

lemma length_decode_groups:
  "length (decode_groups ns) = 3 * (length ns div 4) + (length ns mod 4 - 1)"
proof (induction ns rule: decode_groups.induct)
  case (1 a b c d r)
  have "(4 + length r) div 4 = Suc (length r div 4)" "(4 + length r) mod 4 = length r mod 4"
    by simp_all
  with 1 show ?case by simp
qed simp_all

lemma sextets_length: "sextets s = Some ns \<Longrightarrow> length ns = length s"
  by (simp add: sextets_Some_iff)

lemma b64_value_None_iff: "b64_value c = None \<longleftrightarrow> c \<notin> set b64_alphabet"
  by (simp add: b64_value_def index_of_None)

lemma sextets_None_iff: "sextets s = None \<longleftrightarrow> (\<exists>c \<in> set s. c \<notin> set b64_alphabet)"
proof (induction s)
  case Nil
  then show ?case by simp
next
  case (Cons c s)
  show ?case
  proof (cases "b64_value c")
    case None
    then show ?thesis by (simp add: b64_value_None_iff [symmetric])
  next
    case (Some v)
    then have "c \<in> set b64_alphabet"
      using b64_value_None_iff [of c] by auto
    with Some Cons.IH show ?thesis by simp
  qed
qed

lemma forgiving_base64_decode_None_iff:
  "forgiving_base64_decode s = None \<longleftrightarrow>
     (let d = strip_padding (filter (\<lambda>c. \<not> is_ascii_whitespace c) s)
      in length d mod 4 = 1 \<or> (\<exists>c \<in> set d. c \<notin> set b64_alphabet))"
  by (auto simp: forgiving_base64_decode_def Let_def sextets_None_iff)

lemma atob_undefined: "atob (js ''undefined'') = Inl InvalidCharacterError"
  by (simp add: atob_def forgiving_base64_decode_def strip_padding_def is_ascii_whitespace_def
      js_simps)

lemma atob_example: "atob (js ''QUJD'') = Inr (js ''ABC'')"
  by (simp add: atob_def forgiving_base64_decode_def strip_padding_def is_ascii_whitespace_def
      drop_equals_def b64_value_def b64_alphabet_def js_simps)

lemma atob_example_padded: "atob (js ''QUI='') = Inr (js ''AB'')"
  by (simp add: atob_def forgiving_base64_decode_def strip_padding_def is_ascii_whitespace_def
      drop_equals_def b64_value_def b64_alphabet_def js_simps)

lemma atob_invalid: "atob (js ''***invalid***'') = Inl InvalidCharacterError"
  by (simp add: atob_def forgiving_base64_decode_def strip_padding_def is_ascii_whitespace_def
      js_simps)

end
