(* ===== verification/Web_Platform.thy ===== *)
theory Web_Platform
  imports JS_Strings Base64
begin

text \<open>
  The browser objects the page passes around, with the operations the source
  calls on them: \<^verbatim>\<open>Blob\<close> and \<^verbatim>\<open>File\<close> (a \<^verbatim>\<open>File\<close> is a \<^verbatim>\<open>Blob\<close> with a name: a
  record extension), the union \<^verbatim>\<open>Blob | string\<close> that every capture callback of
  \<^verbatim>\<open>page.tsx\<close> takes, \<^verbatim>\<open>FormData\<close> with \<^verbatim>\<open>append\<close>, the registry behind
  \<^verbatim>\<open>URL.createObjectURL\<close>, \<^verbatim>\<open>canvas.toDataURL\<close>, and the request and response of
  \<^verbatim>\<open>fetch\<close>. The operations are modelled from the File API, XMLHttpRequest
  (FormData), HTML and Fetch standards; the union type is the source's.

  The pixels of a video frame and their JPEG encoding are not modelled: a frame
  is the byte list the encoder produced for it, so that \<open>toDataURL\<close> is the
  serialisation of those bytes as a data URI.
\<close>

section \<open>Blobs, files and captured data\<close>

record js_blob =
  blob_bytes :: "byte list"
  blob_type :: jsstring

record js_file = js_blob +
  file_name :: jsstring

datatype blob_like = PlainBlob js_blob | FileBlob js_file

datatype capture_data = CapturedString jsstring | CapturedBlob blob_like

definition printable_ascii :: "code_unit \<Rightarrow> bool" where
  "printable_ascii c \<longleftrightarrow> 0x20 \<le> c \<and> c \<le> 0x7E"

definition ascii_lowercase :: "code_unit \<Rightarrow> code_unit" where
  "ascii_lowercase c = (if 0x41 \<le> c \<and> c \<le> 0x5A then c + 0x20 else c)"

definition normalize_type :: "jsstring \<Rightarrow> jsstring" where
  "normalize_type t = (if list_all printable_ascii t then map ascii_lowercase t else [])"

definition new_Blob :: "byte list \<Rightarrow> jsstring \<Rightarrow> js_blob" where
  "new_Blob bs t = \<lparr>blob_bytes = bs, blob_type = normalize_type t\<rparr>"

definition bytes_of :: "blob_like \<Rightarrow> byte list" where
  "bytes_of v = (case v of PlainBlob b \<Rightarrow> blob_bytes b | FileBlob f \<Rightarrow> blob_bytes f)"

definition type_of :: "blob_like \<Rightarrow> jsstring" where
  "type_of v = (case v of PlainBlob b \<Rightarrow> blob_type b | FileBlob f \<Rightarrow> blob_type f)"

section \<open>Form data\<close>

text \<open>
  \<^verbatim>\<open>append(name, value)\<close> with a string adds a string entry.
  \<^verbatim>\<open>append(name, blob, filename)\<close> adds a file entry: with a file name given the
  entry is a file of that name over the blob's bytes and type; without one a
  \<^verbatim>\<open>File\<close> is added as it is and a plain \<^verbatim>\<open>Blob\<close> becomes a file named \<^verbatim>\<open>blob\<close>.
\<close>

datatype form_value = FormString jsstring | FormFile js_file

type_synonym form_data = "(jsstring \<times> form_value) list"

definition form_file :: "blob_like \<Rightarrow> jsstring option \<Rightarrow> js_file" where
  "form_file v filename =
     (case filename of
        Some n \<Rightarrow> \<lparr>blob_bytes = bytes_of v, blob_type = type_of v, file_name = n\<rparr>
      | None \<Rightarrow>
          (case v of
             PlainBlob b \<Rightarrow> \<lparr>blob_bytes = blob_bytes b, blob_type = blob_type b, file_name = js ''blob''\<rparr>
           | FileBlob f \<Rightarrow> f))"

definition append_string :: "form_data \<Rightarrow> jsstring \<Rightarrow> jsstring \<Rightarrow> form_data" where
  "append_string fd name v = fd @ [(name, FormString v)]"

definition append_blob :: "form_data \<Rightarrow> jsstring \<Rightarrow> blob_like \<Rightarrow> jsstring option \<Rightarrow> form_data" where
  "append_blob fd name v filename = fd @ [(name, FormFile (form_file v filename))]"

section \<open>Object URLs\<close>

text \<open>
  The registry of blob URLs of the document: \<^verbatim>\<open>createObjectURL\<close> registers the
  object under a fresh number (standing for the opaque \<^verbatim>\<open>blob:\<close> string it
  returns) and \<^verbatim>\<open>revokeObjectURL\<close> removes the entry. An entry keeps its object
  alive until it is revoked or the document goes away.
\<close>

record url_registry =
  url_entries :: "(nat \<times> blob_like) list"
  next_url :: nat

definition empty_registry :: url_registry where
  "empty_registry = \<lparr>url_entries = [], next_url = 0\<rparr>"

definition createObjectURL :: "url_registry \<Rightarrow> blob_like \<Rightarrow> nat \<times> url_registry" where
  "createObjectURL reg v =
     (next_url reg,
      reg\<lparr>url_entries := url_entries reg @ [(next_url reg, v)], next_url := Suc (next_url reg)\<rparr>)"

definition revokeObjectURL :: "url_registry \<Rightarrow> nat \<Rightarrow> url_registry" where
  "revokeObjectURL reg u = reg\<lparr>url_entries := filter (\<lambda>e. fst e \<noteq> u) (url_entries reg)\<rparr>"

definition resolve_url :: "url_registry \<Rightarrow> nat \<Rightarrow> blob_like option" where
  "resolve_url reg u = map_of (url_entries reg) u"

section \<open>Canvas and fetch\<close>

definition toDataURL :: "jsstring \<Rightarrow> byte list \<Rightarrow> jsstring" where
  "toDataURL mime encoded = js ''data:'' @ mime @ js '';base64,'' @ base64_encode encoded"

record request =
  req_url :: jsstring
  req_method :: jsstring
  req_body :: form_data

datatype body_read = BodyText jsstring | BodyFailed jsstring

record response =
  status :: nat
  body :: body_read

definition response_ok :: "response \<Rightarrow> bool" where
  "response_ok r \<longleftrightarrow> 200 \<le> status r \<and> status r \<le> 299"

datatype fetch_outcome = Rejected jsstring | Responded response

section \<open>Facts about blobs and form data\<close>

lemma ascii_lowercase_idem [simp]: "ascii_lowercase (ascii_lowercase c) = ascii_lowercase c"
  unfolding ascii_lowercase_def
  by (auto simp: word_le_nat_alt unat_word_ariths)

lemma printable_ascii_lowercase [simp]: "printable_ascii (ascii_lowercase c) = printable_ascii c"
  unfolding ascii_lowercase_def printable_ascii_def
  by (auto simp: word_le_nat_alt unat_word_ariths)

lemma normalize_type_idem [simp]: "normalize_type (normalize_type t) = normalize_type t"
  by (auto simp: normalize_type_def list_all_iff)

lemma normalize_type_Nil [simp]: "normalize_type [] = []"
  by (simp add: normalize_type_def)

lemma normalize_type_fixed:
  "list_all (\<lambda>c. printable_ascii c \<and> ascii_lowercase c = c) t \<Longrightarrow> normalize_type t = t"
  by (simp add: normalize_type_def list_all_iff map_idI)

lemma new_Blob_sel [simp]:
  "blob_bytes (new_Blob bs t) = bs" "blob_type (new_Blob bs t) = normalize_type t"
  by (simp_all add: new_Blob_def)

lemma bytes_of_simps [simp]:
  "bytes_of (PlainBlob b) = blob_bytes b" "bytes_of (FileBlob f) = blob_bytes f"
  "type_of (PlainBlob b) = blob_type b" "type_of (FileBlob f) = blob_type f"
  by (simp_all add: bytes_of_def type_of_def)

lemma form_file_bytes [simp]: "blob_bytes (form_file v filename) = bytes_of v"
  by (cases v; cases filename) (simp_all add: form_file_def)

lemma form_file_type [simp]: "blob_type (form_file v filename) = type_of v"
  by (cases v; cases filename) (simp_all add: form_file_def)

lemma form_file_name:
  "file_name (form_file v filename) =
     (case filename of Some n \<Rightarrow> n
      | None \<Rightarrow> (case v of PlainBlob b \<Rightarrow> js ''blob'' | FileBlob f \<Rightarrow> file_name f))"
  by (cases v; cases filename) (simp_all add: form_file_def)

lemma length_append_form [simp]:
  "length (append_string fd name s) = Suc (length fd)"
  "length (append_blob fd name v filename) = Suc (length fd)"
  by (simp_all add: append_string_def append_blob_def)

section \<open>Facts about the registry\<close>

lemma createObjectURL_fresh: "fst (createObjectURL reg v) = next_url reg"
  by (simp add: createObjectURL_def)

lemma createObjectURL_entries:
  "url_entries (snd (createObjectURL reg v)) = url_entries reg @ [(next_url reg, v)]"
  "next_url (snd (createObjectURL reg v)) = Suc (next_url reg)"
  by (simp_all add: createObjectURL_def)

lemma revokeObjectURL_resolve [simp]: "resolve_url (revokeObjectURL reg u) u = None"
  by (auto simp: resolve_url_def revokeObjectURL_def map_of_eq_None_iff)

section \<open>Facts about data URIs\<close>

lemma base64_encode_no_comma: "chr_comma \<notin> set (base64_encode bs)"
  using b64_alphabet_excludes(2) by (auto dest: base64_encode_chars)

lemma toDataURL_startsWith [simp]: "startsWith (toDataURL mime encoded) (js ''data:'')"
  unfolding toDataURL_def by (rule startsWith_append)

lemma response_ok_simps [simp]:
  "response_ok \<lparr>status = 200, body = b\<rparr>" "\<not> response_ok \<lparr>status = 500, body = b\<rparr>"
  by (simp_all add: response_ok_def)

end
