(* ===== verification/Mobile_Camera.thy ===== *)
theory Mobile_Camera
  imports Web_Platform
begin

text \<open>
  The component \<^verbatim>\<open>MobileCamera\<close> of \<^verbatim>\<open>page.tsx\<close> (lines 28 to 105): its state,
  the effect that opens the camera, the cleanup of that effect, the two button
  handlers, and the lifecycle that React drives them with.

  \<^item> State. \<open>mobile_camera\<close> holds the two state variables \<open>stream\<close> and
    \<open>facingMode\<close>, the video element behind \<^verbatim>\<open>videoRef\<close> (\<open>mounted\<close> says whether
    \<^verbatim>\<open>videoRef.current\<close> is set; \<open>srcObject\<close> is its source, \<open>onloadedmetadata\<close>
    whether the handler of lines 48 to 50 is set, \<open>playing\<close> the stream it
    plays, if any), and one \<open>effect_run\<close>
    per run of the effect. A run is the closure of that run: the constraints
    it passed to \<^verbatim>\<open>getUserMedia\<close> and its own variable \<open>activeStream\<close>, with
    two flags that record whether its promise has settled and whether its
    cleanup has run. Outside the component, \<open>live\<close> lists the streams whose
    tracks are running (a stream is a number, \<open>granted\<close> the next fresh one),
    and \<open>errors\<close> counts the calls of \<^verbatim>\<open>console.error\<close>. The runs with their
    flags, \<open>live\<close>, \<open>granted\<close> and \<open>errors\<close> are ghost state: the source has no
    variable for them, the theorems are stated over them.
  \<^item> Steps. An \<^verbatim>\<open>await\<close> splits \<^verbatim>\<open>startCamera\<close> in two: \<open>startCamera\<close> is the part
    that runs with the effect (a new closure, the request issued), and
    \<open>resume_granted\<close> and \<open>resume_denied\<close> are the continuations, run when the
    browser settles the promise of run \<open>k\<close>. \<open>cleanup\<close> is the function the
    effect returns; React calls it for the latest run before the effect runs
    again and when the component unmounts. \<open>toggleCamera\<close> is the handler
    together with the re-render it causes: the cleanup of the latest run, the
    new facing mode, the effect again. \<open>loadedmetadata\<close> is the handler the
    continuation sets on the video element, which calls \<open>play\<close>; the browser
    raises the event when the element has a source. \<open>unmount\<close> is the cleanup
    followed by \<open>detach\<close>, the removal of the video element.
  \<^item> Lifecycle. \<open>camera_event\<close> names what can happen, \<open>enabled\<close> when, and
    \<open>fire\<close> what it does; \<open>camera_step\<close> ignores an event that is not enabled,
    \<open>camera_run\<close> folds a sequence of events, \<open>reachable\<close> is the set of states
    of the component.
  \<^item> \<open>capturePhoto\<close> is the first handler: it reads the video element, sizes a
    canvas and hands the JPEG data URI of the frame to \<^verbatim>\<open>onCapture\<close>. The pixels
    and their encoding are a parameter \<open>encode\<close>.

  The lemmas show: an invariant of all reachable states (\<open>camera_inv\<close>); that a
  run in which the user waits for the camera before switching or leaving
  (\<open>disciplined_run\<close>) never has more than one running stream and none after
  unmounting; that such a run can always be ended by \<open>release\<close> with nothing
  left (\<open>quiescent\<close>); that the video element has a source only while mounted
  and plays nothing but its source (\<open>video_inv\<close>); that the latest request asks
  for the camera \<^verbatim>\<open>facingMode\<close> names (\<open>current_request\<close>); and that without that
  discipline a stream granted to a run whose cleanup is over keeps running
  whatever happens afterwards (\<open>orphaned\<close>), that two streams run at once
  after a switch during a pending request, and that the video element can end
  up showing the camera that \<^verbatim>\<open>facingMode\<close> does not name.
\<close>

section \<open>State, closures and events\<close>

datatype facing = Environment | User

record video_constraints =
  c_facingMode :: facing
  ideal_width :: nat
  ideal_height :: nat

record effect_run =
  requested :: video_constraints
  activeStream :: "nat option"
  settled :: bool
  cleaned :: bool

record mobile_camera =
  mounted :: bool
  facingMode :: facing
  stream :: "nat option"
  srcObject :: "nat option"
  onloadedmetadata :: bool
  playing :: "nat option"
  effects :: "effect_run list"
  live :: "nat list"
  granted :: nat
  errors :: nat

datatype camera_event = Mount | Granted nat | Denied nat | LoadedMetadata | ToggleCamera | Unmount

definition initial_camera :: mobile_camera where
  "initial_camera =
     \<lparr>mounted = False, facingMode = Environment, stream = None, srcObject = None,
      onloadedmetadata = False, playing = None, effects = [], live = [], granted = 0, errors = 0\<rparr>"

definition constraints :: "facing \<Rightarrow> video_constraints" where
  "constraints f = \<lparr>c_facingMode = f, ideal_width = 640, ideal_height = 480\<rparr>"

definition startCamera :: "mobile_camera \<Rightarrow> mobile_camera" where
  "startCamera s =
     s\<lparr>effects := effects s @
        [\<lparr>requested = constraints (facingMode s), activeStream = None, settled = False, cleaned = False\<rparr>]\<rparr>"

definition pending :: "mobile_camera \<Rightarrow> nat \<Rightarrow> bool" where
  "pending s k \<longleftrightarrow> k < length (effects s) \<and> \<not> settled (effects s ! k)"

definition resume_granted :: "nat \<Rightarrow> mobile_camera \<Rightarrow> mobile_camera" where
  "resume_granted k s =
     (let mediaStream = granted s;
          run = (effects s ! k)\<lparr>activeStream := Some mediaStream, settled := True\<rparr>
      in s\<lparr>effects := (effects s)[k := run],
            live := live s @ [mediaStream],
            granted := Suc (granted s),
            srcObject := (if mounted s then Some mediaStream else srcObject s),
            onloadedmetadata := (mounted s \<or> onloadedmetadata s),
            playing := (if mounted s then None else playing s),
            stream := Some mediaStream\<rparr>)"

definition resume_denied :: "nat \<Rightarrow> mobile_camera \<Rightarrow> mobile_camera" where
  "resume_denied k s =
     s\<lparr>effects := (effects s)[k := (effects s ! k)\<lparr>settled := True\<rparr>],
       errors := Suc (errors s)\<rparr>"

definition stop_tracks :: "nat \<Rightarrow> mobile_camera \<Rightarrow> mobile_camera" where
  "stop_tracks i s = s\<lparr>live := removeAll i (live s)\<rparr>"

definition cleanup :: "mobile_camera \<Rightarrow> mobile_camera" where
  "cleanup s =
     (case effects s of
        [] \<Rightarrow> s
      | _ # _ \<Rightarrow>
          (let k = length (effects s) - 1;
               s' = (case activeStream (effects s ! k) of
                       Some i \<Rightarrow> stop_tracks i s
                     | None \<Rightarrow> s)
           in s'\<lparr>effects := (effects s')[k := (effects s' ! k)\<lparr>cleaned := True\<rparr>]\<rparr>))"

definition flip :: "facing \<Rightarrow> facing" where
  "flip prev = (if prev = Environment then User else Environment)"

definition toggleCamera :: "mobile_camera \<Rightarrow> mobile_camera" where
  "toggleCamera s = startCamera ((cleanup s)\<lparr>facingMode := flip (facingMode s)\<rparr>)"

definition mount :: "mobile_camera \<Rightarrow> mobile_camera" where
  "mount s = startCamera (s\<lparr>mounted := True\<rparr>)"

definition play :: "mobile_camera \<Rightarrow> mobile_camera" where
  "play s = (if mounted s then s\<lparr>playing := srcObject s\<rparr> else s)"

definition loadedmetadata :: "mobile_camera \<Rightarrow> mobile_camera" where
  "loadedmetadata s = (if onloadedmetadata s then play s else s)"

definition detach :: "mobile_camera \<Rightarrow> mobile_camera" where
  "detach s = s\<lparr>mounted := False, srcObject := None, onloadedmetadata := False, playing := None\<rparr>"

definition unmount :: "mobile_camera \<Rightarrow> mobile_camera" where
  "unmount s = detach (cleanup s)"

fun enabled :: "mobile_camera \<Rightarrow> camera_event \<Rightarrow> bool" where
  "enabled s Mount = (\<not> mounted s \<and> effects s = [])"
| "enabled s (Granted k) = pending s k"
| "enabled s (Denied k) = pending s k"
| "enabled s LoadedMetadata = (srcObject s \<noteq> None)"
| "enabled s ToggleCamera = mounted s"
| "enabled s Unmount = mounted s"

fun fire :: "mobile_camera \<Rightarrow> camera_event \<Rightarrow> mobile_camera" where
  "fire s Mount = mount s"
| "fire s (Granted k) = resume_granted k s"
| "fire s (Denied k) = resume_denied k s"
| "fire s LoadedMetadata = loadedmetadata s"
| "fire s ToggleCamera = toggleCamera s"
| "fire s Unmount = unmount s"

definition camera_step :: "mobile_camera \<Rightarrow> camera_event \<Rightarrow> mobile_camera" where
  "camera_step s e = (if enabled s e then fire s e else s)"

fun camera_run :: "mobile_camera \<Rightarrow> camera_event list \<Rightarrow> mobile_camera" where
  "camera_run s [] = s"
| "camera_run s (e # es) = camera_run (camera_step s e) es"

inductive reachable :: "mobile_camera \<Rightarrow> bool" where
  start: "reachable initial_camera"
| step: "reachable s \<Longrightarrow> enabled s e \<Longrightarrow> reachable (fire s e)"

section \<open>Invariant and run predicates\<close>

definition streams_owned :: "mobile_camera \<Rightarrow> bool" where
  "streams_owned s \<longleftrightarrow>
     (\<forall>k < length (effects s). \<forall>i. activeStream (effects s ! k) = Some i \<longrightarrow>
        settled (effects s ! k) \<and> i < granted s)"

definition owners_distinct :: "mobile_camera \<Rightarrow> bool" where
  "owners_distinct s \<longleftrightarrow>
     (\<forall>k < length (effects s). \<forall>k' < length (effects s). \<forall>i.
        activeStream (effects s ! k) = Some i \<longrightarrow> activeStream (effects s ! k') = Some i \<longrightarrow> k = k')"

definition live_fresh :: "mobile_camera \<Rightarrow> bool" where
  "live_fresh s \<longleftrightarrow> (\<forall>i \<in> set (live s). i < granted s) \<and> distinct (live s)"

definition current_open :: "mobile_camera \<Rightarrow> bool" where
  "current_open s \<longleftrightarrow>
     (if mounted s then effects s \<noteq> [] \<and> \<not> cleaned (last (effects s))
      else (\<forall>k < length (effects s). cleaned (effects s ! k)))"

definition old_cleaned :: "mobile_camera \<Rightarrow> bool" where
  "old_cleaned s \<longleftrightarrow> (\<forall>k. Suc k < length (effects s) \<longrightarrow> cleaned (effects s ! k))"

definition camera_inv :: "mobile_camera \<Rightarrow> bool" where
  "camera_inv s \<longleftrightarrow>
     streams_owned s \<and> owners_distinct s \<and> live_fresh s \<and> current_open s \<and> old_cleaned s"

definition all_cleaned :: "mobile_camera \<Rightarrow> bool" where
  "all_cleaned s \<longleftrightarrow> (\<forall>k < length (effects s). cleaned (effects s ! k))"

definition current_settled :: "mobile_camera \<Rightarrow> bool" where
  "current_settled s \<longleftrightarrow> effects s \<noteq> [] \<and> settled (last (effects s))"

fun disciplined :: "mobile_camera \<Rightarrow> camera_event \<Rightarrow> bool" where
  "disciplined s ToggleCamera = current_settled s"
| "disciplined s Unmount = current_settled s"
| "disciplined s e = True"

fun disciplined_run :: "mobile_camera \<Rightarrow> camera_event list \<Rightarrow> bool" where
  "disciplined_run s [] = True"
| "disciplined_run s (e # es) = (disciplined s e \<and> disciplined_run (camera_step s e) es)"

definition no_stale :: "mobile_camera \<Rightarrow> bool" where
  "no_stale s \<longleftrightarrow> list_all (\<lambda>r. cleaned r \<longrightarrow> settled r) (effects s)"

definition current_stream :: "mobile_camera \<Rightarrow> nat list" where
  "current_stream s =
     (if mounted s \<and> effects s \<noteq> []
      then (case activeStream (last (effects s)) of Some i \<Rightarrow> [i] | None \<Rightarrow> [])
      else [])"

definition tidy :: "mobile_camera \<Rightarrow> bool" where
  "tidy s \<longleftrightarrow> camera_inv s \<and> no_stale s \<and> live s = current_stream s"

definition orphaned :: "mobile_camera \<Rightarrow> nat \<Rightarrow> bool" where
  "orphaned s i \<longleftrightarrow>
     i \<in> set (live s) \<and> list_ex (\<lambda>r. cleaned r \<and> activeStream r = Some i) (effects s)"

definition owner_of :: "mobile_camera \<Rightarrow> nat \<Rightarrow> effect_run option" where
  "owner_of s i = find (\<lambda>r. activeStream r = Some i) (effects s)"

definition displayed_facing :: "mobile_camera \<Rightarrow> facing option" where
  "displayed_facing s =
     Option.bind (srcObject s) (\<lambda>i. map_option (c_facingMode \<circ> requested) (owner_of s i))"

text \<open>
  \<open>current_request\<close> says that the request of the latest run of the effect asks
  for the camera that \<^verbatim>\<open>facingMode\<close> names, with the resolution of lines 41 and 42.
\<close>

definition current_request :: "mobile_camera \<Rightarrow> bool" where
  "current_request s \<longleftrightarrow>
     (mounted s \<longrightarrow> effects s \<noteq> [] \<and> requested (last (effects s)) = constraints (facingMode s))"

section \<open>The video element and release\<close>

text \<open>
  \<open>video_inv\<close> relates the video element to the component: it has a source only
  while mounted, the source is a granted stream and came with the handler, and
  what plays is the source. \<open>release\<close> is what a user does to leave the page
  without leaving the camera on: wait for the answer to the pending request,
  then leave; \<open>quiescent\<close> is the state in which nothing of the component is
  left.
\<close>

definition video_inv :: "mobile_camera \<Rightarrow> bool" where
  "video_inv s \<longleftrightarrow>
     (case srcObject s of
        None \<Rightarrow> playing s = None
      | Some i \<Rightarrow>
          mounted s \<and> onloadedmetadata s \<and> i < granted s \<and>
          (playing s = None \<or> playing s = Some i))"

definition settle_current :: "mobile_camera \<Rightarrow> camera_event list" where
  "settle_current s =
     (if effects s \<noteq> [] \<and> \<not> settled (last (effects s))
      then [Denied (length (effects s) - 1)] else [])"

definition release :: "mobile_camera \<Rightarrow> camera_event list" where
  "release s = (if mounted s then settle_current s @ [Unmount] else [])"

definition quiescent :: "mobile_camera \<Rightarrow> bool" where
  "quiescent s \<longleftrightarrow> \<not> mounted s \<and> live s = [] \<and> list_all settled (effects s)"

section \<open>Capturing a frame\<close>

text \<open>
  \<^verbatim>\<open>videoWidth\<close> and \<^verbatim>\<open>videoHeight\<close> are 0 until the video has metadata, and
  \<^verbatim>\<open>a || b\<close> on numbers is \<open>b\<close> exactly when \<open>a\<close> is 0. \<open>has_ctx\<close> says whether
  \<^verbatim>\<open>getContext("2d")\<close> returned a context. The result is the argument of the call
  of \<^verbatim>\<open>onCapture\<close>, or \<open>None\<close> when the handler returns without calling it.
\<close>

record video_element =
  videoWidth :: nat
  videoHeight :: nat

record canvas =
  canvas_width :: nat
  canvas_height :: nat

definition or_else :: "nat \<Rightarrow> nat \<Rightarrow> nat" where
  "or_else a b = (if a = 0 then b else a)"

definition new_canvas :: "video_element \<Rightarrow> canvas" where
  "new_canvas video =
     \<lparr>canvas_width = or_else (videoWidth video) 640,
      canvas_height = or_else (videoHeight video) 480\<rparr>"

definition capturePhoto ::
  "(canvas \<Rightarrow> byte list) \<Rightarrow> bool \<Rightarrow> video_element option \<Rightarrow> jsstring option" where
  "capturePhoto encode has_ctx videoRef =
     (case videoRef of
        None \<Rightarrow> None
      | Some video \<Rightarrow>
          (let canvas = new_canvas video
           in if has_ctx then Some (toDataURL (js ''image/jpeg'') (encode canvas)) else None))"

section \<open>Evaluation\<close>

section \<open>The invariant of reachable states\<close>

lemmas camera_defs = initial_camera_def startCamera_def pending_def resume_granted_def
  resume_denied_def stop_tracks_def cleanup_def flip_def toggleCamera_def mount_def unmount_def
  detach_def play_def loadedmetadata_def
  camera_step_def constraints_def owner_of_def

lemmas camera_inv_defs = camera_inv_def streams_owned_def owners_distinct_def live_fresh_def
  current_open_def old_cleaned_def

lemma camera_inv_initial: "camera_inv initial_camera"
  by (simp add: camera_inv_defs initial_camera_def)

lemma camera_inv_mount: "camera_inv s \<Longrightarrow> enabled s Mount \<Longrightarrow> camera_inv (mount s)"
  by (simp add: camera_inv_defs mount_def startCamera_def)

lemma camera_inv_resume_denied:
  "camera_inv s \<Longrightarrow> pending s k \<Longrightarrow> camera_inv (resume_denied k s)"
  unfolding camera_inv_defs resume_denied_def pending_def
  by (auto simp: nth_list_update last_conv_nth)

lemma camera_inv_resume_granted:
  "camera_inv s \<Longrightarrow> pending s k \<Longrightarrow> camera_inv (resume_granted k s)"
  unfolding camera_inv_defs resume_granted_def pending_def Let_def
  by (auto simp: nth_list_update last_conv_nth less_Suc_eq)

subsection \<open>What the cleanup changes\<close>

lemma cleanup_sel [simp]:
  "mounted (cleanup s) = mounted s" "facingMode (cleanup s) = facingMode s"
  "granted (cleanup s) = granted s" "length (effects (cleanup s)) = length (effects s)"
  "stream (cleanup s) = stream s" "srcObject (cleanup s) = srcObject s"
  "onloadedmetadata (cleanup s) = onloadedmetadata s" "playing (cleanup s) = playing s"
  "errors (cleanup s) = errors s"
  by (simp_all add: cleanup_def stop_tracks_def Let_def split: list.splits option.splits)

lemma cleanup_effects:
  "effects s \<noteq> [] \<Longrightarrow>
   effects (cleanup s) = butlast (effects s) @ [(last (effects s))\<lparr>cleaned := True\<rparr>]"
proof -
  assume ne: "effects s \<noteq> []"
  then obtain xs x where xs: "effects s = xs @ [x]"
    by (cases "effects s" rule: rev_cases) auto
  then show ?thesis
    by (cases xs) (simp_all add: cleanup_def stop_tracks_def Let_def nth_append split: option.splits)
qed

lemma cleanup_live:
  "effects s \<noteq> [] \<Longrightarrow>
   live (cleanup s) =
     (case activeStream (last (effects s)) of Some i \<Rightarrow> removeAll i (live s) | None \<Rightarrow> live s)"
  by (cases "effects s")
    (simp_all add: cleanup_def stop_tracks_def Let_def last_conv_nth split: option.splits)

lemma cleanup_Nil: "effects s = [] \<Longrightarrow> cleanup s = s"
  by (simp add: cleanup_def)

lemma nth_cleanup:
  "k < length (effects s) \<Longrightarrow>
   effects (cleanup s) ! k =
     (if Suc k = length (effects s) then (effects s ! k)\<lparr>cleaned := True\<rparr> else effects s ! k)"
proof -
  assume k: "k < length (effects s)"
  then obtain xs x where xs: "effects s = xs @ [x]"
    by (cases "effects s" rule: rev_cases) auto
  then have "effects (cleanup s) = xs @ [x\<lparr>cleaned := True\<rparr>]"
    using cleanup_effects [of s] by simp
  with k xs show ?thesis
    by (auto simp: nth_append)
qed

lemma cleanup_run_fields [simp]:
  "k < length (effects s) \<Longrightarrow> activeStream (effects (cleanup s) ! k) = activeStream (effects s ! k)"
  "k < length (effects s) \<Longrightarrow> settled (effects (cleanup s) ! k) = settled (effects s ! k)"
  "k < length (effects s) \<Longrightarrow> requested (effects (cleanup s) ! k) = requested (effects s ! k)"
  "k < length (effects s) \<Longrightarrow>
     cleaned (effects (cleanup s) ! k) = (Suc k = length (effects s) \<or> cleaned (effects s ! k))"
  by (simp_all add: nth_cleanup)

lemma set_live_cleanup: "set (live (cleanup s)) \<subseteq> set (live s)"
  by (cases "effects s = []") (auto simp: cleanup_Nil cleanup_live split: option.splits)

lemma distinct_live_cleanup: "distinct (live s) \<Longrightarrow> distinct (live (cleanup s))"
  by (cases "effects s = []") (auto simp: cleanup_Nil cleanup_live distinct_removeAll split: option.splits)

lemma streams_owned_cleanup: "streams_owned s \<Longrightarrow> streams_owned (cleanup s)"
  by (simp add: streams_owned_def)

lemma owners_distinct_cleanup: "owners_distinct s \<Longrightarrow> owners_distinct (cleanup s)"
  by (simp add: owners_distinct_def)

lemma live_fresh_cleanup: "live_fresh s \<Longrightarrow> live_fresh (cleanup s)"
  using set_live_cleanup [of s] by (auto simp: live_fresh_def distinct_live_cleanup)

lemma all_cleaned_cleanup:
  "old_cleaned s \<Longrightarrow> k < length (effects s) \<Longrightarrow> cleaned (effects (cleanup s) ! k)"
proof -
  assume old: "old_cleaned s" and k: "k < length (effects s)"
  then have "Suc k = length (effects s) \<or> Suc k < length (effects s)" by arith
  with old k show ?thesis by (auto simp: old_cleaned_def)
qed

subsection \<open>Preservation\<close>

lemma startCamera_inv:
  "streams_owned s \<Longrightarrow> streams_owned (startCamera s)"
  "owners_distinct s \<Longrightarrow> owners_distinct (startCamera s)"
  "live_fresh s \<Longrightarrow> live_fresh (startCamera s)"
  "all_cleaned s \<Longrightarrow> old_cleaned (startCamera s)"
  "mounted s \<Longrightarrow> current_open (startCamera s)"
  by (auto simp: streams_owned_def owners_distinct_def live_fresh_def all_cleaned_def
      old_cleaned_def current_open_def startCamera_def nth_append less_Suc_eq)

lemma facingMode_update_inv [simp]:
  "streams_owned (s\<lparr>facingMode := f\<rparr>) = streams_owned s"
  "owners_distinct (s\<lparr>facingMode := f\<rparr>) = owners_distinct s"
  "live_fresh (s\<lparr>facingMode := f\<rparr>) = live_fresh s"
  "all_cleaned (s\<lparr>facingMode := f\<rparr>) = all_cleaned s"
  by (simp_all add: streams_owned_def owners_distinct_def live_fresh_def all_cleaned_def)

lemma detach_sel [simp]:
  "effects (detach s) = effects s" "live (detach s) = live s" "granted (detach s) = granted s"
  "facingMode (detach s) = facingMode s" "stream (detach s) = stream s"
  "errors (detach s) = errors s" "mounted (detach s) = False" "srcObject (detach s) = None"
  "playing (detach s) = None" "onloadedmetadata (detach s) = False"
  by (simp_all add: detach_def)

lemma unmounted_update_inv:
  "streams_owned (detach s) = streams_owned s"
  "owners_distinct (detach s) = owners_distinct s"
  "live_fresh (detach s) = live_fresh s"
  "old_cleaned (detach s) = old_cleaned s"
  "current_open (detach s) = all_cleaned s"
  by (simp_all add: streams_owned_def owners_distinct_def live_fresh_def all_cleaned_def
      old_cleaned_def current_open_def detach_def)

lemma all_cleaned_after_cleanup: "old_cleaned s \<Longrightarrow> all_cleaned (cleanup s)"
  unfolding all_cleaned_def
proof (intro allI impI)
  fix k
  assume "old_cleaned s" and "k < length (effects (cleanup s))"
  then show "cleaned (effects (cleanup s) ! k)"
    by (intro all_cleaned_cleanup) simp_all
qed

lemma all_cleaned_old: "all_cleaned s \<Longrightarrow> old_cleaned s"
  by (simp add: all_cleaned_def old_cleaned_def)

lemma camera_inv_toggleCamera:
  assumes "camera_inv s" "mounted s"
  shows "camera_inv (toggleCamera s)"
  using assms unfolding camera_inv_def toggleCamera_def
  by (intro conjI startCamera_inv)
    (simp_all add: streams_owned_cleanup owners_distinct_cleanup live_fresh_cleanup
      all_cleaned_after_cleanup)

lemma camera_inv_unmount:
  assumes "camera_inv s" "mounted s"
  shows "camera_inv (unmount s)"
  using assms unfolding camera_inv_def unmount_def
  by (simp add: unmounted_update_inv streams_owned_cleanup owners_distinct_cleanup
      live_fresh_cleanup all_cleaned_after_cleanup all_cleaned_old)

lemma loadedmetadata_sel [simp]:
  "effects (loadedmetadata s) = effects s" "live (loadedmetadata s) = live s"
  "mounted (loadedmetadata s) = mounted s" "granted (loadedmetadata s) = granted s"
  "facingMode (loadedmetadata s) = facingMode s" "srcObject (loadedmetadata s) = srcObject s"
  "stream (loadedmetadata s) = stream s" "errors (loadedmetadata s) = errors s"
  "onloadedmetadata (loadedmetadata s) = onloadedmetadata s"
  by (simp_all add: loadedmetadata_def play_def)

lemma camera_inv_loadedmetadata [simp]: "camera_inv (loadedmetadata s) = camera_inv s"
  by (simp add: camera_inv_defs)

lemma camera_inv_fire: "camera_inv s \<Longrightarrow> enabled s e \<Longrightarrow> camera_inv (fire s e)"
  by (cases e)
    (simp_all add: camera_inv_mount camera_inv_resume_granted camera_inv_resume_denied
      camera_inv_toggleCamera camera_inv_unmount)

lemma camera_inv_step: "camera_inv s \<Longrightarrow> camera_inv (camera_step s e)"
  by (simp add: camera_step_def camera_inv_fire)

lemma camera_inv_run: "camera_inv s \<Longrightarrow> camera_inv (camera_run s es)"
  by (induction es arbitrary: s) (simp_all add: camera_inv_step)

text \<open>
  Every state the component can reach satisfies \<open>camera_inv\<close>: a closure holds a
  stream only after its promise settled, no two closures hold the same stream,
  the running streams are distinct and were all granted, while mounted the
  latest run of the effect is not cleaned up, and every earlier run is.
\<close>

lemma reachable_camera_inv: "reachable s \<Longrightarrow> camera_inv s"
  by (induction rule: reachable.induct) (simp_all add: camera_inv_initial camera_inv_fire)

lemma reachable_step: "reachable s \<Longrightarrow> reachable (camera_step s e)"
  by (auto simp: camera_step_def intro: reachable.step)

lemma reachable_run: "reachable s \<Longrightarrow> reachable (camera_run s es)"
  by (induction es arbitrary: s) (simp_all add: reachable_step)

lemma reachable_camera_inv_witness:
  "reachable (camera_run initial_camera [Mount, ToggleCamera, Granted 1, Granted 0]) \<and>
   camera_inv (camera_run initial_camera [Mount, ToggleCamera, Granted 1, Granted 0])"
proof -
  have r: "reachable (camera_run initial_camera [Mount, ToggleCamera, Granted 1, Granted 0])"
    by (rule reachable_run) (rule reachable.start)
  from r reachable_camera_inv [OF r] show ?thesis by simp
qed

section \<open>Runs that wait for the camera\<close>

lemma tidy_initial: "tidy initial_camera"
  using camera_inv_initial
  by (simp add: tidy_def no_stale_def current_stream_def initial_camera_def)

lemma pending_is_current:
  assumes "camera_inv s" "no_stale s" "pending s k"
  shows "mounted s" "Suc k = length (effects s)" "activeStream (effects s ! k) = None"
    "last (effects s) = effects s ! k"
proof -
  from assms(3) have k: "k < length (effects s)" and u: "\<not> settled (effects s ! k)"
    by (simp_all add: pending_def)
  from assms(2) k u have nc: "\<not> cleaned (effects s ! k)"
    by (auto simp: no_stale_def list_all_length)
  from assms(1) k nc show m: "mounted s"
    by (auto simp: camera_inv_defs split: if_splits)
  from assms(1) k nc have "\<not> Suc k < length (effects s)"
    by (auto simp: camera_inv_defs)
  with k show l: "Suc k = length (effects s)" by simp
  from assms(1) k u show "activeStream (effects s ! k) = None"
    by (cases "activeStream (effects s ! k)") (auto simp: camera_inv_defs)
  from l show "last (effects s) = effects s ! k"
    by (cases "effects s" rule: rev_cases) (auto simp: nth_append)
qed

lemma tidy_resume_granted:
  assumes "tidy s" "pending s k"
  shows "tidy (resume_granted k s)"
proof -
  from assms have inv: "camera_inv s" and ns: "no_stale s" and l: "live s = current_stream s"
    by (simp_all add: tidy_def)
  note c = pending_is_current [OF inv ns assms(2)]
  from l c have "live s = []"
    by (simp add: current_stream_def)
  with c have "live (resume_granted k s) = current_stream (resume_granted k s)"
    by (auto simp: resume_granted_def current_stream_def Let_def last_update_last)
  moreover from ns assms(2) have "no_stale (resume_granted k s)"
    by (auto simp: no_stale_def list_all_length resume_granted_def Let_def nth_list_update
        pending_def)
  ultimately show ?thesis
    using camera_inv_resume_granted [OF inv assms(2)] by (simp add: tidy_def)
qed

lemma tidy_resume_denied:
  assumes "tidy s" "pending s k"
  shows "tidy (resume_denied k s)"
proof -
  from assms have inv: "camera_inv s" and ns: "no_stale s" and l: "live s = current_stream s"
    by (simp_all add: tidy_def)
  note c = pending_is_current [OF inv ns assms(2)]
  from l c have "live (resume_denied k s) = current_stream (resume_denied k s)"
    by (auto simp: resume_denied_def current_stream_def last_update_last)
  moreover from ns assms(2) have "no_stale (resume_denied k s)"
    by (auto simp: no_stale_def list_all_length resume_denied_def nth_list_update pending_def)
  ultimately show ?thesis
    using camera_inv_resume_denied [OF inv assms(2)] by (simp add: tidy_def)
qed

lemma live_cleanup_tidy:
  assumes "live s = current_stream s" "mounted s"
  shows "live (cleanup s) = []"
proof (cases "effects s = []")
  case True
  with assms show ?thesis by (simp add: cleanup_Nil current_stream_def)
next
  case False
  with assms show ?thesis
    by (simp add: cleanup_live current_stream_def split: option.splits)
qed

lemma no_stale_cleanup:
  assumes "no_stale s" "current_settled s"
  shows "no_stale (cleanup s)"
  unfolding no_stale_def list_all_length
proof (intro allI impI)
  fix n
  assume n: "n < length (effects (cleanup s))" and c: "cleaned (effects (cleanup s) ! n)"
  show "settled (effects (cleanup s) ! n)"
  proof (cases "Suc n = length (effects s)")
    case True
    with assms(2) n show ?thesis
      by (simp add: current_settled_def last_nth_Suc)
  next
    case False
    with assms(1) n c show ?thesis
      by (simp add: no_stale_def list_all_length)
  qed
qed

lemma tidy_toggleCamera:
  assumes "tidy s" "mounted s" "current_settled s"
  shows "tidy (toggleCamera s)"
proof -
  from assms have inv: "camera_inv s" and ns: "no_stale s" and l: "live s = current_stream s"
    by (simp_all add: tidy_def)
  have "live (toggleCamera s) = []"
    using live_cleanup_tidy [OF l assms(2)] by (simp add: toggleCamera_def startCamera_def)
  moreover have "current_stream (toggleCamera s) = []"
    by (simp add: toggleCamera_def startCamera_def current_stream_def)
  moreover have "no_stale (toggleCamera s)"
    using no_stale_cleanup [OF ns assms(3)]
    by (simp add: toggleCamera_def startCamera_def no_stale_def)
  ultimately show ?thesis
    using camera_inv_toggleCamera [OF inv assms(2)] by (simp add: tidy_def)
qed

lemma tidy_unmount:
  assumes "tidy s" "mounted s" "current_settled s"
  shows "tidy (unmount s)"
proof -
  from assms have inv: "camera_inv s" and ns: "no_stale s" and l: "live s = current_stream s"
    by (simp_all add: tidy_def)
  have "live (unmount s) = []"
    using live_cleanup_tidy [OF l assms(2)] by (simp add: unmount_def detach_def)
  moreover have "current_stream (unmount s) = []"
    by (simp add: unmount_def detach_def current_stream_def)
  moreover have "no_stale (unmount s)"
    using no_stale_cleanup [OF ns assms(3)] by (simp add: unmount_def no_stale_def)
  ultimately show ?thesis
    using camera_inv_unmount [OF inv assms(2)] by (simp add: tidy_def)
qed

lemma tidy_mount:
  assumes "tidy s" "enabled s Mount"
  shows "tidy (mount s)"
  using assms camera_inv_mount [of s]
  by (simp add: tidy_def mount_def startCamera_def no_stale_def current_stream_def)

lemma tidy_loadedmetadata [simp]: "tidy (loadedmetadata s) = tidy s"
  by (simp add: tidy_def no_stale_def current_stream_def)

lemma tidy_step: "tidy s \<Longrightarrow> disciplined s e \<Longrightarrow> tidy (camera_step s e)"
  by (cases e)
    (simp_all add: camera_step_def tidy_mount tidy_resume_granted tidy_resume_denied
      tidy_toggleCamera tidy_unmount)

lemma tidy_run: "tidy s \<Longrightarrow> disciplined_run s es \<Longrightarrow> tidy (camera_run s es)"
  by (induction es arbitrary: s) (simp_all add: tidy_step)

lemma tidy_live_le: "tidy s \<Longrightarrow> length (live s) \<le> 1"
  by (simp add: tidy_def current_stream_def split: option.splits)

text \<open>
  (C2) If the user switches the camera or leaves the page only after the pending
  request has settled, then after any sequence of events at most one stream has
  running tracks.
\<close>

theorem disciplined_at_most_one_stream:
  "disciplined_run initial_camera es \<Longrightarrow> length (live (camera_run initial_camera es)) \<le> 1"
  by (intro tidy_live_le tidy_run tidy_initial)

theorem disciplined_at_most_one_stream_witness:
  "disciplined_run initial_camera [Mount, Granted 0, ToggleCamera, Granted 1] \<and>
   length (live (camera_run initial_camera [Mount, Granted 0, ToggleCamera, Granted 1])) \<le> 1"
  using disciplined_at_most_one_stream [of "[Mount, Granted 0, ToggleCamera, Granted 1]"]
  by (simp add: camera_defs current_settled_def Let_def)

text \<open>
  (C9) Under the same discipline, once the component is unmounted no stream has
  running tracks: the camera is released.
\<close>

theorem disciplined_unmounted_no_stream:
  "disciplined_run initial_camera es \<Longrightarrow> \<not> mounted (camera_run initial_camera es) \<Longrightarrow>
   live (camera_run initial_camera es) = []"
  using tidy_run [OF tidy_initial, of es] by (simp add: tidy_def current_stream_def)

theorem disciplined_unmounted_no_stream_witness:
  "disciplined_run initial_camera [Mount, Granted 0, Unmount] \<and>
   \<not> mounted (camera_run initial_camera [Mount, Granted 0, Unmount]) \<and>
   live (camera_run initial_camera [Mount, Granted 0, Unmount]) = []"
  using disciplined_unmounted_no_stream [of "[Mount, Granted 0, Unmount]"]
  by (simp add: camera_defs current_settled_def Let_def)

section \<open>Streams granted after the cleanup\<close>

lemma orphaned_iff:
  "orphaned s i \<longleftrightarrow>
     i \<in> set (live s) \<and>
     (\<exists>k < length (effects s). cleaned (effects s ! k) \<and> activeStream (effects s ! k) = Some i)"
  by (auto simp: orphaned_def list_ex_length)

lemma orphaned_resume_granted:
  assumes "camera_inv s" "pending s k" "orphaned s i"
  shows "orphaned (resume_granted k s) i"
proof -
  from assms(3) obtain j where j: "j < length (effects s)" "cleaned (effects s ! j)"
      "activeStream (effects s ! j) = Some i" and i: "i \<in> set (live s)"
    by (auto simp: orphaned_iff)
  from assms(1) j have "settled (effects s ! j)"
    by (auto simp: camera_inv_defs)
  with assms(2) have "j \<noteq> k" by (auto simp: pending_def)
  with j i assms(2) show ?thesis
    unfolding orphaned_iff
    by (auto simp: resume_granted_def Let_def pending_def intro!: exI [of _ j])
qed

lemma orphaned_resume_denied:
  assumes "pending s k" "orphaned s i"
  shows "orphaned (resume_denied k s) i"
proof -
  from assms(2) obtain j where j: "j < length (effects s)" "cleaned (effects s ! j)"
      "activeStream (effects s ! j) = Some i" and i: "i \<in> set (live s)"
    by (auto simp: orphaned_iff)
  with assms(1) show ?thesis
    unfolding orphaned_iff
    by (auto simp: resume_denied_def pending_def nth_list_update intro!: exI [of _ j])
qed

lemma orphaned_cleanup:
  assumes "camera_inv s" "mounted s" "orphaned s i"
  shows "orphaned (cleanup s) i"
proof -
  from assms(3) obtain j where j: "j < length (effects s)" "cleaned (effects s ! j)"
      "activeStream (effects s ! j) = Some i" and i: "i \<in> set (live s)"
    by (auto simp: orphaned_iff)
  from assms(1,2) have ne: "effects s \<noteq> []" and notc: "\<not> cleaned (last (effects s))"
    by (simp_all add: camera_inv_defs)
  then obtain c where c: "Suc c = length (effects s)"
    by (cases "effects s") auto
  with notc j have "j \<noteq> c" by (auto simp: last_nth_Suc)
  have "activeStream (last (effects s)) \<noteq> Some i"
  proof
    assume "activeStream (last (effects s)) = Some i"
    with c have "activeStream (effects s ! c) = Some i" by (simp add: last_nth_Suc)
    with assms(1) j c have "j = c" by (auto simp: camera_inv_defs)
    with \<open>j \<noteq> c\<close> show False by simp
  qed
  with i have "i \<in> set (live (cleanup s))"
    by (auto simp: cleanup_live [OF ne] split: option.splits)
  with j show ?thesis
    unfolding orphaned_iff by (auto intro!: exI [of _ j])
qed

lemma orphaned_startCamera: "orphaned s i \<Longrightarrow> orphaned (startCamera s) i"
  by (auto simp: orphaned_def startCamera_def)

lemma orphaned_fire:
  assumes "camera_inv s" "enabled s e" "orphaned s i"
  shows "orphaned (fire s e) i"
proof (cases e)
  case Mount
  with assms show ?thesis by (simp add: mount_def orphaned_def startCamera_def)
next
  case (Granted k)
  with assms show ?thesis by (simp add: orphaned_resume_granted)
next
  case (Denied k)
  with assms show ?thesis by (simp add: orphaned_resume_denied)
next
  case LoadedMetadata
  with assms show ?thesis by (simp add: orphaned_def)
next
  case ToggleCamera
  with assms have "orphaned (cleanup s) i" by (simp add: orphaned_cleanup)
  then have "orphaned ((cleanup s)\<lparr>facingMode := flip (facingMode s)\<rparr>) i"
    by (simp add: orphaned_def)
  with ToggleCamera show ?thesis by (simp add: toggleCamera_def orphaned_startCamera)
next
  case Unmount
  with assms have "orphaned (cleanup s) i" by (simp add: orphaned_cleanup)
  with Unmount show ?thesis by (simp add: unmount_def detach_def orphaned_def)
qed

lemma orphaned_step:
  "camera_inv s \<Longrightarrow> orphaned s i \<Longrightarrow> orphaned (camera_step s e) i"
  by (simp add: camera_step_def orphaned_fire)

lemma orphaned_run:
  "camera_inv s \<Longrightarrow> orphaned s i \<Longrightarrow> orphaned (camera_run s es) i"
proof (induction es arbitrary: s)
  case Nil
  then show ?case by simp
next
  case (Cons e es)
  then show ?case
    by (simp add: camera_inv_step orphaned_step)
qed

lemma late_grant_orphaned:
  assumes "pending s k" "cleaned (effects s ! k)"
  shows "orphaned (resume_granted k s) (granted s)"
  using assms unfolding orphaned_iff
  by (auto simp: resume_granted_def Let_def pending_def intro!: exI [of _ k])

text \<open>
  (C3) In a reachable state, if the request of run \<open>k\<close> is still pending and the
  cleanup of that run is over (the user switched the camera or left the page in
  the meantime), then the stream the browser grants to it has running tracks
  after every further sequence of events: no code path stops it.
\<close>

theorem late_grant_never_stopped:
  assumes "reachable s" "pending s k" "cleaned (effects s ! k)"
  shows "granted s \<in> set (live (camera_run (camera_step s (Granted k)) es))"
proof -
  from assms(1) have inv: "camera_inv s" by (rule reachable_camera_inv)
  from assms(2) have step: "camera_step s (Granted k) = resume_granted k s"
    by (simp add: camera_step_def)
  have "orphaned (camera_run (resume_granted k s) es) (granted s)"
    using camera_inv_resume_granted [OF inv assms(2)] late_grant_orphaned [OF assms(2,3)]
    by (rule orphaned_run)
  with step show ?thesis by (simp add: orphaned_def)
qed

theorem late_grant_never_stopped_witness:
  "reachable (camera_run initial_camera [Mount, ToggleCamera]) \<and>
   pending (camera_run initial_camera [Mount, ToggleCamera]) 0 \<and>
   cleaned (effects (camera_run initial_camera [Mount, ToggleCamera]) ! 0) \<and>
   granted (camera_run initial_camera [Mount, ToggleCamera]) \<in>
     set (live (camera_run (camera_step (camera_run initial_camera [Mount, ToggleCamera]) (Granted 0))
       [Granted 1, ToggleCamera, Unmount]))"
proof -
  let ?s = "camera_run initial_camera [Mount, ToggleCamera]"
  have r: "reachable ?s"
    by (rule reachable_run) (rule reachable.start)
  have p: "pending ?s 0" "cleaned (effects ?s ! 0)"
    by (simp_all add: camera_defs Let_def)
  from r p late_grant_never_stopped [OF r p, of "[Granted 1, ToggleCamera, Unmount]"]
  show ?thesis by simp
qed

text \<open>
  (C22) From a mounted state of a run that waited for the camera (\<open>tidy\<close>), whose
  request has settled, switching the camera and then the grant of the new
  request leave exactly the new stream running, shown in the video element,
  with the facing mode flipped.
\<close>

theorem toggle_then_grant:
  assumes "tidy s" "mounted s" "current_settled s"
  shows "live (camera_run s [ToggleCamera, Granted (length (effects s))]) = [granted s] \<and>
         facingMode (camera_run s [ToggleCamera, Granted (length (effects s))]) = flip (facingMode s) \<and>
         srcObject (camera_run s [ToggleCamera, Granted (length (effects s))]) = Some (granted s)"
proof -
  from assms have l: "live s = current_stream s" by (simp add: tidy_def)
  have t: "camera_step s ToggleCamera = toggleCamera s"
    using assms(2) by (simp add: camera_step_def)
  have p: "pending (toggleCamera s) (length (effects s))"
    by (simp add: pending_def toggleCamera_def startCamera_def nth_append)
  have "live (toggleCamera s) = []"
    using live_cleanup_tidy [OF l assms(2)] by (simp add: toggleCamera_def startCamera_def)
  with p t assms(2) show ?thesis
    by (simp add: camera_step_def resume_granted_def Let_def toggleCamera_def startCamera_def)
qed


theorem toggle_then_grant_witness:
  "tidy (camera_run initial_camera [Mount, Granted 0]) \<and>
   live (camera_run (camera_run initial_camera [Mount, Granted 0]) [ToggleCamera, Granted 1]) = [1] \<and>
   facingMode (camera_run (camera_run initial_camera [Mount, Granted 0]) [ToggleCamera, Granted 1]) = User \<and>
   srcObject (camera_run (camera_run initial_camera [Mount, Granted 0]) [ToggleCamera, Granted 1]) = Some 1"
proof -
  let ?s = "camera_run initial_camera [Mount, Granted 0]"
  have t: "tidy ?s"
    by (rule tidy_run [OF tidy_initial]) simp
  have m: "mounted ?s" "current_settled ?s" "length (effects ?s) = 1" "granted ?s = 1"
      "facingMode ?s = Environment"
    by (simp_all add: camera_defs current_settled_def Let_def)
  from t toggle_then_grant [OF t m(1,2)] m(3,4,5) show ?thesis
    by (simp add: flip_def)
qed
section \<open>The video element\<close>

lemma video_inv_initial: "video_inv initial_camera"
  by (simp add: video_inv_def initial_camera_def)

lemma video_inv_fire: "video_inv s \<Longrightarrow> enabled s e \<Longrightarrow> video_inv (fire s e)"
proof (cases e)
  case Mount
  assume "video_inv s" "enabled s e"
  with Mount show ?thesis
    by (auto simp: video_inv_def mount_def startCamera_def split: option.splits)
next
  case (Granted k)
  assume "video_inv s" "enabled s e"
  with Granted show ?thesis
    by (auto simp: video_inv_def resume_granted_def Let_def split: option.splits)
next
  case (Denied k)
  assume "video_inv s" "enabled s e"
  with Denied show ?thesis
    by (auto simp: video_inv_def resume_denied_def split: option.splits)
next
  case LoadedMetadata
  assume "video_inv s" "enabled s e"
  with LoadedMetadata show ?thesis
    by (auto simp: video_inv_def loadedmetadata_def play_def split: option.splits)
next
  case ToggleCamera
  assume "video_inv s" "enabled s e"
  with ToggleCamera show ?thesis
    by (auto simp: video_inv_def toggleCamera_def startCamera_def split: option.splits)
next
  case Unmount
  assume "video_inv s" "enabled s e"
  with Unmount show ?thesis
    by (simp add: video_inv_def unmount_def)
qed

lemma video_inv_step: "video_inv s \<Longrightarrow> video_inv (camera_step s e)"
  by (simp add: camera_step_def video_inv_fire)

text \<open>
  (C16) In every reachable state the video element has a source only while the
  component is mounted; the source is a stream that was granted, it was set
  together with the \<^verbatim>\<open>onloadedmetadata\<close> handler, and the element plays nothing but
  its source.
\<close>

theorem reachable_video_inv: "reachable s \<Longrightarrow> video_inv s"
  by (induction rule: reachable.induct) (simp_all add: video_inv_initial video_inv_fire)

theorem reachable_video_inv_witness:
  "reachable (camera_run initial_camera [Mount, Granted 0, LoadedMetadata]) \<and>
   video_inv (camera_run initial_camera [Mount, Granted 0, LoadedMetadata])"
proof -
  have r: "reachable (camera_run initial_camera [Mount, Granted 0, LoadedMetadata])"
    by (rule reachable_run) (rule reachable.start)
  show ?thesis
    by (rule conjI [OF r reachable_video_inv [OF r]])
qed

text \<open>
  Playback starts: in a mounted state of a run that waits for the camera, the
  grant of the pending request followed by the \<^verbatim>\<open>loadedmetadata\<close> event of the video
  leaves the new stream as the only running one, as the source of the video,
  and playing.
\<close>

lemma grant_then_play:
  assumes "tidy s" "mounted s" "pending s k"
  shows "playing (camera_run s [Granted k, LoadedMetadata]) = Some (granted s) \<and>
         live (camera_run s [Granted k, LoadedMetadata]) = [granted s] \<and>
         srcObject (camera_run s [Granted k, LoadedMetadata]) = Some (granted s)"
proof -
  from assms have inv: "camera_inv s" and ns: "no_stale s" and l: "live s = current_stream s"
    by (simp_all add: tidy_def)
  note c = pending_is_current [OF inv ns assms(3)]
  from l c have "live s = []"
    by (simp add: current_stream_def)
  with assms(2,3) show ?thesis
    by (simp add: camera_step_def resume_granted_def Let_def loadedmetadata_def play_def)
qed

lemma grant_then_play_witness:
  "tidy (camera_run initial_camera [Mount]) \<and> mounted (camera_run initial_camera [Mount]) \<and>
   pending (camera_run initial_camera [Mount]) 0 \<and>
   playing (camera_run (camera_run initial_camera [Mount]) [Granted 0, LoadedMetadata]) = Some 0"
proof -
  let ?s = "camera_run initial_camera [Mount]"
  have t: "tidy ?s"
    by (rule tidy_run [OF tidy_initial]) simp
  have m: "mounted ?s" "pending ?s 0" "granted ?s = 0"
    by (simp_all add: camera_defs)
  from t m grant_then_play [OF t m(1,2)] show ?thesis
    by simp
qed

section \<open>Releasing the camera\<close>

lemma tidy_not_mounted:
  assumes "tidy s" "\<not> mounted s"
  shows "quiescent s"
proof -
  from assms have "\<forall>k < length (effects s). cleaned (effects s ! k)"
    by (simp add: tidy_def camera_inv_defs)
  moreover from assms have "list_all (\<lambda>r. cleaned r \<longrightarrow> settled r) (effects s)"
    by (simp add: tidy_def no_stale_def)
  ultimately have "list_all settled (effects s)"
    by (auto simp: list_all_length)
  moreover from assms have "live s = []"
    by (simp add: tidy_def current_stream_def)
  ultimately show ?thesis
    using assms(2) by (simp add: quiescent_def)
qed

lemma disciplined_run_append:
  "disciplined_run s (es @ es') \<longleftrightarrow> disciplined_run s es \<and> disciplined_run (camera_run s es) es'"
  by (induction es arbitrary: s) auto

lemma camera_run_append [simp]: "camera_run s (es @ es') = camera_run (camera_run s es) es'"
  by (induction es arbitrary: s) auto

lemma settle_current_settles:
  assumes "camera_inv s" "mounted s"
  shows "current_settled (camera_run s (settle_current s))"
    "mounted (camera_run s (settle_current s))"
    "disciplined_run s (settle_current s)"
proof -
  from assms have ne: "effects s \<noteq> []"
    by (simp add: camera_inv_defs)
  then obtain k where k: "Suc k = length (effects s)"
    by (cases "effects s") auto
  then have k1: "length (effects s) - Suc 0 = k" by arith
  show "current_settled (camera_run s (settle_current s))"
    using ne k
    by (auto simp: settle_current_def k1 current_settled_def camera_step_def pending_def
        resume_denied_def last_nth_Suc [OF k] last_update_last [OF k])
  show "mounted (camera_run s (settle_current s))"
    using assms(2) by (simp add: settle_current_def camera_step_def resume_denied_def)
  show "disciplined_run s (settle_current s)"
    by (simp add: settle_current_def)
qed

text \<open>
  (C14) The camera can always be released: from every state of a run that waits for
  the camera, the events of \<open>release\<close> (a denial of the pending request, if there
  is one, then leaving the page) are themselves such a run and end in a state
  where the component is unmounted, no stream runs and no request is pending.
\<close>

theorem camera_can_be_released:
  assumes "tidy s"
  shows "disciplined_run s (release s) \<and> quiescent (camera_run s (release s))"
proof (cases "mounted s")
  case False
  with assms show ?thesis
    by (simp add: release_def tidy_not_mounted)
next
  case True
  from assms have inv: "camera_inv s" by (simp add: tidy_def)
  let ?t = "camera_run s (settle_current s)"
  note st = settle_current_settles [OF inv True]
  have t: "tidy ?t"
    using assms st(3) by (rule tidy_run)
  have d: "disciplined_run s (release s)"
    using True st by (simp add: release_def disciplined_run_append)
  have "tidy (camera_run s (release s))"
    using assms d by (rule tidy_run)
  moreover have "\<not> mounted (camera_run s (release s))"
    using True st(2) by (simp add: release_def camera_step_def unmount_def)
  ultimately have "quiescent (camera_run s (release s))"
    by (rule tidy_not_mounted)
  with d show ?thesis by simp
qed

theorem camera_can_be_released_witness:
  "tidy (camera_run initial_camera [Mount, Granted 0, ToggleCamera]) \<and>
   release (camera_run initial_camera [Mount, Granted 0, ToggleCamera]) = [Denied 1, Unmount] \<and>
   quiescent (camera_run (camera_run initial_camera [Mount, Granted 0, ToggleCamera])
     (release (camera_run initial_camera [Mount, Granted 0, ToggleCamera])))"
proof -
  let ?s = "camera_run initial_camera [Mount, Granted 0, ToggleCamera]"
  have t: "tidy ?s"
    by (rule tidy_run [OF tidy_initial]) (simp add: camera_defs current_settled_def Let_def)
  have r: "release ?s = [Denied 1, Unmount]"
    by (simp add: release_def settle_current_def camera_defs Let_def)
  from t r camera_can_be_released [OF t] show ?thesis
    by simp
qed

section \<open>Interleavings of the lifecycle\<close>

lemma one_stream:
  "live (camera_run initial_camera [Mount, Granted 0, ToggleCamera, Granted 1]) = [1]"
  by (simp add: camera_defs Let_def)

text \<open>
  Leaving the page before the permission prompt is answered, and the grant
  afterwards: the component is gone and the camera is on.
\<close>

lemma led_stays_on:
  "live (camera_run initial_camera [Mount, Unmount, Granted 0]) = [0] \<and>
   \<not> mounted (camera_run initial_camera [Mount, Unmount, Granted 0])"
  by (simp add: camera_defs Let_def)

section \<open>The frame handed to the page\<close>

lemma or_else_pos [simp]: "0 < b \<Longrightarrow> 0 < or_else a b"
  by (simp add: or_else_def)

lemma new_canvas_pos [simp]: "0 < canvas_width (new_canvas v)" "0 < canvas_height (new_canvas v)"
  by (simp_all add: new_canvas_def)

lemma new_canvas_native:
  "0 < videoWidth v \<Longrightarrow> 0 < videoHeight v \<Longrightarrow>
   new_canvas v = \<lparr>canvas_width = videoWidth v, canvas_height = videoHeight v\<rparr>"
  by (simp add: new_canvas_def or_else_def)

lemma capturePhoto_None_iff:
  "capturePhoto encode has_ctx videoRef = None \<longleftrightarrow> videoRef = None \<or> \<not> has_ctx"
  by (simp add: capturePhoto_def Let_def split: option.splits)

lemma capturePhoto_Some_iff:
  "capturePhoto encode has_ctx videoRef = Some imageData \<longleftrightarrow>
     has_ctx \<and> (\<exists>video. videoRef = Some video \<and>
        imageData = toDataURL (js ''image/jpeg'') (encode (new_canvas video)))"
  by (auto simp: capturePhoto_def Let_def split: option.splits)

text \<open>
  (C33) When \<^verbatim>\<open>capturePhoto\<close> calls \<^verbatim>\<open>onCapture\<close>, its argument is the JPEG data URI of
  a canvas whose width and height are positive: the size of the video, or
  640 by 480 where the video has none yet.
\<close>

theorem capturePhoto_canvas:
  assumes "capturePhoto encode has_ctx videoRef = Some imageData"
  shows "\<exists>c. 0 < canvas_width c \<and> 0 < canvas_height c \<and>
           imageData = toDataURL (js ''image/jpeg'') (encode c)"
proof -
  from assms obtain video where "imageData = toDataURL (js ''image/jpeg'') (encode (new_canvas video))"
    by (auto simp: capturePhoto_Some_iff)
  then show ?thesis
    by (intro exI [of _ "new_canvas video"]) simp
qed

theorem capturePhoto_canvas_witness:
  "capturePhoto (\<lambda>c. [of_nat (canvas_width c div 4), of_nat (canvas_height c div 4)]) True
      (Some \<lparr>videoWidth = 0, videoHeight = 0\<rparr>) =
     Some (toDataURL (js ''image/jpeg'') [160, 120]) \<and>
   (\<exists>c :: canvas. 0 < canvas_width c \<and> 0 < canvas_height c \<and>
      toDataURL (js ''image/jpeg'') [160, 120] =
        toDataURL (js ''image/jpeg'') [of_nat (canvas_width c div 4), of_nat (canvas_height c div 4)])"
proof -
  have c: "capturePhoto (\<lambda>c. [of_nat (canvas_width c div 4), of_nat (canvas_height c div 4)]) True
      (Some \<lparr>videoWidth = 0, videoHeight = 0\<rparr>) = Some (toDataURL (js ''image/jpeg'') [160, 120])"
    by (simp add: capturePhoto_def new_canvas_def or_else_def)
  show ?thesis by (rule conjI [OF c capturePhoto_canvas [OF c]])
qed

section \<open>Steps seen from the page\<close>

lemma camera_step_initial: "e \<noteq> Mount \<Longrightarrow> camera_step initial_camera e = initial_camera"
  by (cases e) (simp_all add: camera_step_def initial_camera_def pending_def)

lemma initial_camera_sel [simp]: "\<not> mounted initial_camera" "effects initial_camera = []"
  by (simp_all add: initial_camera_def)

lemma camera_step_mounted:
  "mounted (camera_step s e) =
     (case e of Mount \<Rightarrow> mounted s \<or> effects s = [] | Unmount \<Rightarrow> False | _ \<Rightarrow> mounted s)"
  by (cases e)
    (auto simp: camera_step_def mount_def startCamera_def resume_granted_def resume_denied_def
      toggleCamera_def unmount_def Let_def)

lemma unmount_sel [simp]: "\<not> mounted (unmount s)" "granted (unmount s) = granted s"
  by (simp_all add: unmount_def)

lemma pending_unmount [simp]: "pending (unmount s) k = pending s k"
  by (auto simp: pending_def unmount_def nth_cleanup split: if_splits)

lemma unmounted_cleaned:
  "camera_inv s \<Longrightarrow> \<not> mounted s \<Longrightarrow> k < length (effects s) \<Longrightarrow> cleaned (effects s ! k)"
  by (simp add: camera_inv_def current_open_def)

text \<open>
  The reachable states are the states of the runs from the initial state, so a
  fact on reachable states is a fact on every run and conversely.
\<close>

lemma reachable_iff_run: "reachable s \<longleftrightarrow> (\<exists>es. s = camera_run initial_camera es)"
proof
  assume "reachable s"
  then show "\<exists>es. s = camera_run initial_camera es"
  proof (induction rule: reachable.induct)
    case start
    show ?case by (rule exI [of _ "[]"]) simp
  next
    case (step s e)
    then obtain es where "s = camera_run initial_camera es" by blast
    with step.hyps(2) have "fire s e = camera_run initial_camera (es @ [e])"
      by (simp add: camera_step_def)
    then show ?case by blast
  qed
next
  assume "\<exists>es. s = camera_run initial_camera es"
  then show "reachable s" by (auto intro: reachable_run reachable.start)
qed

declare camera_inv_step [capture_inv] video_inv_step [capture_inv]

section \<open>The request of the latest run\<close>

lemma current_request_initial: "current_request initial_camera"
  by (simp add: current_request_def)

lemma last_update_requested:
  "k < length rs \<Longrightarrow> requested r = requested (rs ! k) \<Longrightarrow>
   requested (last (rs[k := r])) = requested (last rs)"
  by (cases rs rule: rev_cases) (auto simp: list_update_append nth_append split: nat.splits)

lemma current_request_fire:
  assumes "current_request s" "enabled s e"
  shows "current_request (fire s e)"
proof (cases e)
  case Mount
  then show ?thesis by (simp add: current_request_def mount_def startCamera_def)
next
  case (Granted k)
  with assms show ?thesis
    by (simp add: current_request_def resume_granted_def Let_def pending_def last_update_requested)
next
  case (Denied k)
  with assms show ?thesis
    by (simp add: current_request_def resume_denied_def pending_def last_update_requested)
next
  case LoadedMetadata
  with assms show ?thesis
    by (simp add: current_request_def loadedmetadata_def play_def)
next
  case ToggleCamera
  then show ?thesis by (simp add: current_request_def toggleCamera_def startCamera_def)
next
  case Unmount
  then show ?thesis by (simp add: current_request_def)
qed

lemma current_request_run: "current_request s \<Longrightarrow> current_request (camera_run s es)"
  by (induction es arbitrary: s) (simp_all add: camera_step_def current_request_fire)

lemma reachable_request: "reachable s \<Longrightarrow> current_request s"
  by (auto simp: reachable_iff_run intro: current_request_run current_request_initial)

text \<open>
  (C36) In every reachable state of a mounted component the latest run of the
  effect has asked \<^verbatim>\<open>getUserMedia\<close> for the camera that \<^verbatim>\<open>facingMode\<close> names now, at
  640 by 480: the effect runs again whenever \<^verbatim>\<open>facingMode\<close> changes, and nothing
  else changes it.
\<close>

theorem reachable_current_request: "reachable s \<Longrightarrow> current_request s"
  by (induction rule: reachable.induct) (simp_all add: current_request_initial current_request_fire)

theorem reachable_current_request_witness:
  "reachable (camera_run initial_camera [Mount, ToggleCamera, Granted 1]) \<and>
   requested (last (effects (camera_run initial_camera [Mount, ToggleCamera, Granted 1]))) =
     \<lparr>c_facingMode = User, ideal_width = 640, ideal_height = 480\<rparr>"
proof -
  let ?s = "camera_run initial_camera [Mount, ToggleCamera, Granted 1]"
  have r: "reachable ?s"
    by (rule reachable_run) (rule reachable.start)
  have "mounted ?s" "facingMode ?s = User"
    by (simp_all add: camera_defs Let_def flip_def)
  with r reachable_current_request [OF r] show ?thesis
    by (simp add: current_request_def constraints_def)
qed

section \<open>Switching while the request is pending\<close>

lemma toggle_pending:
  assumes "camera_inv s" "mounted s" "pending s k" "Suc k = length (effects s)"
  shows "camera_step s ToggleCamera =
     s\<lparr>facingMode := flip (facingMode s),
       effects := (effects s)[k := (effects s ! k)\<lparr>cleaned := True\<rparr>] @
         [\<lparr>requested = constraints (flip (facingMode s)), activeStream = None, settled = False,
           cleaned = False\<rparr>]\<rparr>"
proof -
  from assms(3) have k: "k < length (effects s)" "\<not> settled (effects s ! k)"
    by (simp_all add: pending_def)
  with assms(1) have a: "activeStream (effects s ! k) = None"
    by (cases "activeStream (effects s ! k)") (auto simp: camera_inv_defs)
  from assms(4) have l: "length (effects s) - 1 = k" by simp
  from k(1) obtain r rs where "effects s = r # rs" by (cases "effects s") auto
  with a l have "cleanup s = s\<lparr>effects := (effects s)[k := (effects s ! k)\<lparr>cleaned := True\<rparr>]\<rparr>"
    by (simp add: cleanup_def Let_def)
  with assms(2) show ?thesis
    by (simp add: camera_step_def toggleCamera_def startCamera_def)
qed

lemma toggle_pending_sel:
  assumes "camera_inv s" "mounted s" "pending s k" "Suc k = length (effects s)"
  shows "mounted (camera_step s ToggleCamera)" "live (camera_step s ToggleCamera) = live s"
    "granted (camera_step s ToggleCamera) = granted s"
    "facingMode (camera_step s ToggleCamera) = flip (facingMode s)"
    "pending (camera_step s ToggleCamera) k" "pending (camera_step s ToggleCamera) (Suc k)"
    "length (effects (camera_step s ToggleCamera)) = Suc (Suc k)"
    "requested (effects (camera_step s ToggleCamera) ! k) = requested (effects s ! k)"
    "activeStream (effects (camera_step s ToggleCamera) ! Suc k) = None"
    "srcObject (camera_step s ToggleCamera) = srcObject s"
    "j < k \<Longrightarrow> effects (camera_step s ToggleCamera) ! j = effects s ! j"
proof -
  from assms(3) have k: "k < length (effects s)" "\<not> settled (effects s ! k)"
    by (simp_all add: pending_def)
  note t = toggle_pending [OF assms]
  from assms(2) show "mounted (camera_step s ToggleCamera)" by (simp add: t)
  show "live (camera_step s ToggleCamera) = live s" by (simp add: t)
  show "granted (camera_step s ToggleCamera) = granted s" by (simp add: t)
  show "facingMode (camera_step s ToggleCamera) = flip (facingMode s)" by (simp add: t)
  from k show "pending (camera_step s ToggleCamera) k"
    by (simp add: t pending_def nth_append)
  from assms(4) show "pending (camera_step s ToggleCamera) (Suc k)"
    by (simp add: t pending_def nth_append)
  from assms(4) show "length (effects (camera_step s ToggleCamera)) = Suc (Suc k)"
    by (simp add: t)
  from k show "requested (effects (camera_step s ToggleCamera) ! k) = requested (effects s ! k)"
    by (simp add: t nth_append)
  from assms(4) show "activeStream (effects (camera_step s ToggleCamera) ! Suc k) = None"
    by (simp add: t nth_append)
  show "srcObject (camera_step s ToggleCamera) = srcObject s" by (simp add: t)
  from k show "j < k \<Longrightarrow> effects (camera_step s ToggleCamera) ! j = effects s ! j"
    by (simp add: t nth_append)
qed

lemma grant_sel:
  assumes "pending s k"
  shows "camera_step s (Granted k) = resume_granted k s"
    "live (resume_granted k s) = live s @ [granted s]"
    "granted (resume_granted k s) = Suc (granted s)"
    "mounted (resume_granted k s) = mounted s"
    "facingMode (resume_granted k s) = facingMode s"
    "j \<noteq> k \<Longrightarrow> pending (resume_granted k s) j = pending s j"
    "mounted s \<Longrightarrow> srcObject (resume_granted k s) = Some (granted s)"
    "length (effects (resume_granted k s)) = length (effects s)"
    "activeStream (effects (resume_granted k s) ! k) = Some (granted s)"
    "requested (effects (resume_granted k s) ! k) = requested (effects s ! k)"
    "j \<noteq> k \<Longrightarrow> effects (resume_granted k s) ! j = effects s ! j"
  using assms
  by (simp_all add: camera_step_def resume_granted_def Let_def pending_def)

text \<open>
  (C34) Two streams at once. In every reachable state of a mounted component whose
  latest request is still pending, switching the camera stops nothing, and
  when both requests are then granted, in either order, both streams have
  running tracks while the component is mounted, in addition to whatever was
  running before. The design document says that toggling never results in two
  live streams.
\<close>

theorem two_streams:
  assumes "reachable s" "mounted s" "pending s k" "Suc k = length (effects s)"
  shows "live (camera_run s [ToggleCamera, Granted k, Granted (Suc k)]) =
           live s @ [granted s, Suc (granted s)] \<and>
         live (camera_run s [ToggleCamera, Granted (Suc k), Granted k]) =
           live s @ [granted s, Suc (granted s)] \<and>
         mounted (camera_run s [ToggleCamera, Granted k, Granted (Suc k)])"
proof -
  from assms(1) have inv: "camera_inv s" by (rule reachable_camera_inv)
  note t = toggle_pending_sel [OF inv assms(2,3,4)]
  let ?t = "camera_step s ToggleCamera"
  have a: "pending (resume_granted k ?t) (Suc k)" "pending (resume_granted (Suc k) ?t) k"
    using t(5,6) by (simp_all add: grant_sel(6))
  show ?thesis
    by (simp add: grant_sel [OF t(5)] grant_sel [OF t(6)] grant_sel [OF a(1)] grant_sel [OF a(2)] t)
qed

theorem two_streams_witness:
  "reachable (camera_run initial_camera [Mount]) \<and>
   live (camera_run (camera_run initial_camera [Mount]) [ToggleCamera, Granted 0, Granted 1]) = [0, 1] \<and>
   live (camera_run (camera_run initial_camera [Mount]) [ToggleCamera, Granted 1, Granted 0]) = [0, 1]"
proof -
  let ?s = "camera_run initial_camera [Mount]"
  have r: "reachable ?s"
    by (rule reachable_run) (rule reachable.start)
  have h: "mounted ?s" "pending ?s 0" "Suc 0 = length (effects ?s)" "live ?s = []" "granted ?s = 0"
    by (simp_all add: camera_defs Let_def)
  from r two_streams [OF r h(1,2,3)] h(4,5) show ?thesis
    by simp
qed

lemma owner_of_first:
  assumes "k < length (effects s)" "activeStream (effects s ! k) = Some i"
    "\<forall>j < k. activeStream (effects s ! j) \<noteq> Some i"
  shows "owner_of s i = Some (effects s ! k)"
  unfolding owner_of_def using assms
  by (auto simp: find_Some_iff intro!: exI [of _ k])

lemma earlier_streams:
  assumes "camera_inv s" "j < length (effects s)"
  shows "activeStream (effects s ! j) \<noteq> Some (Suc (granted s))"
proof -
  from assms have "\<forall>i. activeStream (effects s ! j) = Some i \<longrightarrow> i < granted s"
    by (simp add: camera_inv_defs)
  then show ?thesis by auto
qed

text \<open>
  (C35) The wrong camera on screen. In every reachable state of a mounted component
  whose latest request is still pending: when the user switches the camera
  once and the grant of the old request arrives after the grant of the new
  one, the video element shows the stream that was requested for the old
  facing mode, while \<^verbatim>\<open>facingMode\<close> names the other camera.
\<close>

theorem stale_stream_displayed:
  assumes "reachable s" "mounted s" "pending s k" "Suc k = length (effects s)"
  shows "displayed_facing (camera_run s [ToggleCamera, Granted (Suc k), Granted k]) =
           Some (facingMode s) \<and>
         facingMode (camera_run s [ToggleCamera, Granted (Suc k), Granted k]) =
           flip (facingMode s) \<and>
         flip (facingMode s) \<noteq> facingMode s"
proof -
  from assms(1) have inv: "camera_inv s" by (rule reachable_camera_inv)
  from assms(1) have "current_request s" by (rule reachable_request)
  with assms(2,4) have rq: "requested (effects s ! k) = constraints (facingMode s)"
    by (cases "effects s" rule: rev_cases) (auto simp: current_request_def nth_append)
  note t = toggle_pending_sel [OF inv assms(2,3,4)]
  let ?u = "resume_granted (Suc k) (camera_step s ToggleCamera)"
  let ?v = "resume_granted k ?u"
  have p: "pending ?u k"
    using t(5) by (simp add: grant_sel(6) [OF t(6)])
  note g = grant_sel [OF p] grant_sel [OF t(6)]
  have run: "camera_run s [ToggleCamera, Granted (Suc k), Granted k] = ?v"
    by (simp add: g(1) grant_sel(1) [OF t(6)])
  from assms(4) have "\<And>j. j < k \<Longrightarrow> j < length (effects s)" by simp
  then have "\<forall>j < k. activeStream (effects ?v ! j) \<noteq> Some (Suc (granted s))"
    by (simp add: g t(11) earlier_streams [OF inv])
  moreover have "k < length (effects ?v)" "activeStream (effects ?v ! k) = Some (Suc (granted s))"
    by (simp_all add: g t)
  ultimately have "owner_of ?v (Suc (granted s)) = Some (effects ?v ! k)"
    by (intro owner_of_first)
  moreover have "srcObject ?v = Some (Suc (granted s))"
      "requested (effects ?v ! k) = constraints (facingMode s)"
    using t(1) by (simp_all add: g t rq)
  ultimately have "displayed_facing ?v = Some (facingMode s)"
    by (simp add: displayed_facing_def constraints_def)
  moreover have "facingMode ?v = flip (facingMode s)"
    by (simp add: g t)
  moreover have "flip (facingMode s) \<noteq> facingMode s"
    by (cases "facingMode s") (simp_all add: flip_def)
  ultimately show ?thesis by (simp only: run) simp
qed

theorem stale_stream_displayed_witness:
  "reachable (camera_run initial_camera [Mount]) \<and>
   displayed_facing (camera_run (camera_run initial_camera [Mount])
     [ToggleCamera, Granted 1, Granted 0]) = Some Environment \<and>
   facingMode (camera_run (camera_run initial_camera [Mount])
     [ToggleCamera, Granted 1, Granted 0]) = User"
proof -
  let ?s = "camera_run initial_camera [Mount]"
  have r: "reachable ?s"
    by (rule reachable_run) (rule reachable.start)
  have h: "mounted ?s" "pending ?s 0" "Suc 0 = length (effects ?s)" "facingMode ?s = Environment"
    by (simp_all add: camera_defs Let_def)
  from r stale_stream_displayed [OF r h(1,2,3)] h(4) show ?thesis
    by (simp add: flip_def)
qed

end
