(* ===== verification/Desktop_Camera.thy ===== *)
theory Desktop_Camera
  imports Web_Platform
begin

text \<open>
  The component \<^verbatim>\<open>DesktopCamera\<close> of \<^verbatim>\<open>page.tsx\<close> (lines 110 to 164): the state
  variable \<^verbatim>\<open>showWebcam\<close>, the handler \<^verbatim>\<open>capturePhoto\<close>, the two buttons that open
  and close the webcam, the change handler of the file input, and what the
  component renders in each state.

  The child \<^verbatim>\<open>Webcam\<close> comes from the library \<^verbatim>\<open>react-webcam\<close>, which the source only
  calls. Its behaviour is taken from its documentation: it asks for a stream
  when it mounts, stops the tracks of its stream when it unmounts, and
  \<^verbatim>\<open>getScreenshot\<close> returns \<^verbatim>\<open>null\<close> until it has a stream and the data URI of the
  current frame, in the configured format, afterwards. \<open>webcam\<close> is the state of
  that child; \<^verbatim>\<open>webcamRef.current\<close> is set exactly while it is mounted.
\<close>

section \<open>The webcam child\<close>

record webcam =
  hasUserMedia :: bool
  screenshotFormat :: jsstring

definition webcam_mount :: webcam where
  "webcam_mount = \<lparr>hasUserMedia = False, screenshotFormat = js ''image/jpeg''\<rparr>"

definition getScreenshot :: "byte list \<Rightarrow> webcam \<Rightarrow> jsstring option" where
  "getScreenshot frame w =
     (if hasUserMedia w then Some (toDataURL (screenshotFormat w) frame) else None)"

section \<open>State and handlers\<close>

record desktop_camera =
  showWebcam :: bool
  webcamRef :: "webcam option"

datatype desktop_event =
    OpenWebcam
  | CloseWebcam
  | UserMedia
  | CapturePhoto "byte list"
  | FileChange "js_file list"

datatype desktop_element = WebcamElement | CaptureButton | CloseButton | OpenButton | FileInput

definition initial_desktop :: desktop_camera where
  "initial_desktop = \<lparr>showWebcam = False, webcamRef = None\<rparr>"

definition truthy :: "jsstring option \<Rightarrow> bool" where
  "truthy s = (case s of None \<Rightarrow> False | Some v \<Rightarrow> v \<noteq> [])"

definition desktop_capturePhoto :: "byte list \<Rightarrow> desktop_camera \<Rightarrow> capture_data option" where
  "desktop_capturePhoto frame s =
     (let imageSrc = Option.bind (webcamRef s) (getScreenshot frame)
      in if truthy imageSrc then map_option CapturedString imageSrc else None)"

definition setShowWebcam :: "bool \<Rightarrow> desktop_camera \<Rightarrow> desktop_camera" where
  "setShowWebcam b s =
     s\<lparr>showWebcam := b,
       webcamRef := (if b then (if showWebcam s then webcamRef s else Some webcam_mount) else None)\<rparr>"

definition onChange :: "js_file list \<Rightarrow> capture_data option" where
  "onChange files = (case files of [] \<Rightarrow> None | file # _ \<Rightarrow> Some (CapturedBlob (FileBlob file)))"

definition desktop_render :: "desktop_camera \<Rightarrow> desktop_element list" where
  "desktop_render s =
     (if showWebcam s then [WebcamElement, CaptureButton, CloseButton] else [OpenButton]) @ [FileInput]"

fun desktop_enabled :: "desktop_camera \<Rightarrow> desktop_event \<Rightarrow> bool" where
  "desktop_enabled s OpenWebcam = (OpenButton \<in> set (desktop_render s))"
| "desktop_enabled s CloseWebcam = (CloseButton \<in> set (desktop_render s))"
| "desktop_enabled s UserMedia = (WebcamElement \<in> set (desktop_render s))"
| "desktop_enabled s (CapturePhoto frame) = (CaptureButton \<in> set (desktop_render s))"
| "desktop_enabled s (FileChange files) = (FileInput \<in> set (desktop_render s))"

fun desktop_fire :: "desktop_camera \<Rightarrow> desktop_event \<Rightarrow> desktop_camera \<times> capture_data option" where
  "desktop_fire s OpenWebcam = (setShowWebcam True s, None)"
| "desktop_fire s CloseWebcam = (setShowWebcam False s, None)"
| "desktop_fire s UserMedia = (s\<lparr>webcamRef := map_option (\<lambda>w. w\<lparr>hasUserMedia := True\<rparr>) (webcamRef s)\<rparr>, None)"
| "desktop_fire s (CapturePhoto frame) = (s, desktop_capturePhoto frame s)"
| "desktop_fire s (FileChange files) = (s, onChange files)"

definition desktop_step ::
  "desktop_camera \<Rightarrow> desktop_event \<Rightarrow> desktop_camera \<times> capture_data option" where
  "desktop_step s e = (if desktop_enabled s e then desktop_fire s e else (s, None))"

fun desktop_run :: "desktop_camera \<Rightarrow> desktop_event list \<Rightarrow> desktop_camera \<times> capture_data list" where
  "desktop_run s [] = (s, [])"
| "desktop_run s (e # es) =
     (let (s', out) = desktop_step s e; (s'', outs) = desktop_run s' es
      in (s'', (case out of None \<Rightarrow> [] | Some d \<Rightarrow> [d]) @ outs))"

definition streaming :: "desktop_camera \<Rightarrow> bool" where
  "streaming s \<longleftrightarrow> (case webcamRef s of None \<Rightarrow> False | Some w \<Rightarrow> hasUserMedia w)"

definition desktop_inv :: "desktop_camera \<Rightarrow> bool" where
  "desktop_inv s \<longleftrightarrow>
     (showWebcam s \<longleftrightarrow> webcamRef s \<noteq> None) \<and>
     (case webcamRef s of None \<Rightarrow> True | Some w \<Rightarrow> screenshotFormat w = js ''image/jpeg'')"

section \<open>Facts\<close>

lemmas desktop_defs = initial_desktop_def setShowWebcam_def desktop_render_def desktop_step_def
  webcam_mount_def desktop_capturePhoto_def getScreenshot_def truthy_def onChange_def
  streaming_def

lemma toDataURL_not_Nil [simp]: "toDataURL mime frame \<noteq> []"
  by (simp add: toDataURL_def js_simps)

lemma desktop_render_file_input [simp]: "FileInput \<in> set (desktop_render s)"
  by (simp add: desktop_render_def)

lemma desktop_inv_initial: "desktop_inv initial_desktop"
  by (simp add: desktop_inv_def initial_desktop_def)

lemma desktop_inv_fire: "desktop_inv s \<Longrightarrow> desktop_inv (fst (desktop_fire s e))"
  by (cases e) (auto simp: desktop_inv_def setShowWebcam_def webcam_mount_def split: option.splits)

lemma desktop_inv_step: "desktop_inv s \<Longrightarrow> desktop_inv (fst (desktop_step s e))"
  by (simp add: desktop_step_def desktop_inv_fire)

lemma fst_desktop_run_Cons:
  "fst (desktop_run s (e # es)) = fst (desktop_run (fst (desktop_step s e)) es)"
  by (simp add: Let_def split: prod.splits)

lemma snd_desktop_run_Cons:
  "snd (desktop_run s (e # es)) =
     (case snd (desktop_step s e) of None \<Rightarrow> [] | Some d \<Rightarrow> [d]) @
     snd (desktop_run (fst (desktop_step s e)) es)"
  by (simp add: Let_def split: prod.splits)

lemma desktop_inv_run: "desktop_inv s \<Longrightarrow> desktop_inv (fst (desktop_run s es))"
proof (induction es arbitrary: s)
  case Nil
  then show ?case by simp
next
  case (Cons e es)
  from Cons.prems have "desktop_inv (fst (desktop_step s e))"
    by (rule desktop_inv_step)
  then show ?case
    unfolding fst_desktop_run_Cons by (rule Cons.IH)
qed

text \<open>
  (C19) After any sequence of clicks, the webcam child is mounted exactly while
  \<^verbatim>\<open>showWebcam\<close> is true, and a stream is held only while it is mounted: in the
  closed state there is no stream.
\<close>

theorem closed_no_stream:
  "(showWebcam (fst (desktop_run initial_desktop es)) \<longleftrightarrow>
      webcamRef (fst (desktop_run initial_desktop es)) \<noteq> None) \<and>
   (streaming (fst (desktop_run initial_desktop es)) \<longrightarrow>
      showWebcam (fst (desktop_run initial_desktop es)))"
  using desktop_inv_run [OF desktop_inv_initial, of es]
  by (auto simp: desktop_inv_def streaming_def split: option.splits)

theorem closed_no_stream_witness:
  "streaming (fst (desktop_run initial_desktop [OpenWebcam, UserMedia])) \<and>
   showWebcam (fst (desktop_run initial_desktop [OpenWebcam, UserMedia])) \<and>
   \<not> streaming (fst (desktop_run initial_desktop [OpenWebcam, UserMedia, CloseWebcam]))"
  using closed_no_stream [of "[OpenWebcam, UserMedia]"]
  by (simp add: desktop_defs Let_def)

text \<open>
  (C32) Closing the webcam releases it, whatever happened before: after the click
  on the close button the child is unmounted and no stream is held.
\<close>

theorem close_releases:
  assumes "desktop_enabled s CloseWebcam"
  shows "\<not> streaming (fst (desktop_step s CloseWebcam)) \<and>
         \<not> showWebcam (fst (desktop_step s CloseWebcam)) \<and>
         desktop_render (fst (desktop_step s CloseWebcam)) = [OpenButton, FileInput]"
  using assms by (simp add: desktop_step_def setShowWebcam_def streaming_def desktop_render_def)

theorem close_releases_witness:
  "desktop_enabled (fst (desktop_run initial_desktop [OpenWebcam, UserMedia])) CloseWebcam \<and>
   \<not> streaming (fst (desktop_step (fst (desktop_run initial_desktop [OpenWebcam, UserMedia])) CloseWebcam))"
  using close_releases [of "fst (desktop_run initial_desktop [OpenWebcam, UserMedia])"]
  by (simp add: desktop_defs Let_def)

text \<open>
  \<^verbatim>\<open>capturePhoto\<close> of the desktop component hands a capture to the page exactly
  when the webcam is mounted and has a stream, and the capture is then the JPEG
  data URI of the current frame; the state is not changed.
\<close>

lemma desktop_capturePhoto_result:
  assumes "desktop_inv s"
  shows "desktop_capturePhoto frame s =
           (if streaming s then Some (CapturedString (toDataURL (js ''image/jpeg'') frame)) else None) \<and>
         fst (desktop_fire s (CapturePhoto frame)) = s"
  using assms
  by (auto simp: desktop_capturePhoto_def getScreenshot_def truthy_def streaming_def desktop_inv_def
      Let_def split: option.splits)

lemma desktop_capturePhoto_result_witness:
  "desktop_inv (fst (desktop_run initial_desktop [OpenWebcam, UserMedia])) \<and>
   desktop_capturePhoto [0xFF, 0xD8] (fst (desktop_run initial_desktop [OpenWebcam, UserMedia])) =
     Some (CapturedString (toDataURL (js ''image/jpeg'') [0xFF, 0xD8]))"
  using desktop_capturePhoto_result
    [of "fst (desktop_run initial_desktop [OpenWebcam, UserMedia])" "[0xFF, 0xD8]"]
  by (simp add: desktop_defs desktop_inv_def Let_def)

text \<open>
  The file input is rendered in both states, and a change of it hands the
  page the first chosen file as it is, or nothing when the dialog was
  cancelled; it never changes the state of the component.
\<close>

lemma file_change_emits:
  "desktop_step s (FileChange files) =
     (s, case files of [] \<Rightarrow> None | f # _ \<Rightarrow> Some (CapturedBlob (FileBlob f)))"
  by (simp add: desktop_step_def onChange_def)

text \<open>
  Before the webcam has a stream a click on the capture button emits nothing.
\<close>

lemma capture_before_stream:
  "snd (desktop_run initial_desktop [OpenWebcam, CapturePhoto frame]) = [] \<and>
   snd (desktop_run initial_desktop [CapturePhoto frame]) = []"
  by (simp add: desktop_defs Let_def)

lemma initial_desktop_sel [simp]:
  "\<not> showWebcam initial_desktop" "setShowWebcam False initial_desktop = initial_desktop"
  by (simp_all add: initial_desktop_def setShowWebcam_def)

declare desktop_inv_step [capture_inv]

end
