(* ===== verification/Device_Detector.thy ===== *)
theory Device_Detector
  imports JS_Strings
begin

text \<open>
  The device detection of \<^verbatim>\<open>Analyse\<close> (\<^verbatim>\<open>page.tsx\<close>, lines 170 and 173 to 176): the
  state variable \<^verbatim>\<open>isMobileDevice\<close>, which is \<^verbatim>\<open>null\<close> until the effect has run, and
  the effect, which tests \<^verbatim>\<open>navigator.userAgent\<close> against the regular expression
  \<^verbatim>\<open>/iPhone|iPad|iPod|Android/i\<close> (the matcher \<open>mobile_regex_test\<close> of
  \<open>JS_Strings\<close>). \<open>capture_mode\<close> is the three-valued mode of the design
  document and \<open>mode_of\<close> reads it off the state variable.
\<close>

section \<open>Detection\<close>

definition or_empty :: "jsstring option \<Rightarrow> jsstring" where
  "or_empty s = (case s of None \<Rightarrow> [] | Some v \<Rightarrow> v)"

definition detect :: "jsstring option \<Rightarrow> bool option" where
  "detect navigator_userAgent =
     (let userAgent = or_empty navigator_userAgent
      in Some (mobile_regex_test userAgent))"

datatype capture_mode = Mobile | Desktop | Unknown

definition mode_of :: "bool option \<Rightarrow> capture_mode" where
  "mode_of isMobileDevice =
     (case isMobileDevice of None \<Rightarrow> Unknown | Some True \<Rightarrow> Mobile | Some False \<Rightarrow> Desktop)"

definition contains_ci :: "jsstring \<Rightarrow> jsstring \<Rightarrow> bool" where
  "contains_ci p s \<longleftrightarrow>
     (\<exists>pre w post. s = pre @ w @ post \<and> length w = length p \<and>
        map canonicalize w = map canonicalize p)"

section \<open>What the detector decides\<close>

lemma detect_eq: "detect ua = Some (mobile_regex_test (or_empty ua))"
  by (simp add: detect_def Let_def)

lemma mode_of_Some [simp]: "mode_of (Some b) = (if b then Mobile else Desktop)"
  by (simp add: mode_of_def)

lemma or_empty_simps [simp]: "or_empty None = []" "or_empty (Some v) = v"
  by (simp_all add: or_empty_def)

lemma search_ci_contains: "search_ci p s \<longleftrightarrow> contains_ci p s"
  by (simp add: search_ci_iff contains_ci_def)

lemma search_ci_Nil [simp]: "search_ci (p # ps) [] = False"
  by simp

lemma mobile_regex_test_Nil [simp]: "\<not> mobile_regex_test []"
  by (simp add: mobile_regex_test_def js_simps)

lemma contains_ci_embed: "contains_ci p s \<Longrightarrow> contains_ci p (a @ s @ b)"
proof -
  assume "contains_ci p s"
  then obtain pre w post where "s = pre @ w @ post" "length w = length p"
      "map canonicalize w = map canonicalize p"
    by (auto simp: contains_ci_def)
  then have "a @ s @ b = (a @ pre) @ w @ (post @ b) \<and> length w = length p \<and>
      map canonicalize w = map canonicalize p"
    by simp
  then show ?thesis
    unfolding contains_ci_def by blast
qed

lemma contains_ci_self: "map canonicalize w = map canonicalize p \<Longrightarrow> contains_ci p w"
proof -
  assume w: "map canonicalize w = map canonicalize p"
  then have "length w = length p" by (rule map_eq_imp_length_eq)
  with w have "w = [] @ w @ [] \<and> length w = length p \<and> map canonicalize w = map canonicalize p"
    by simp
  then show ?thesis
    unfolding contains_ci_def by blast
qed

text \<open>
  (C20) The detector never leaves the mode unknown, and it decides \<^verbatim>\<open>Mobile\<close> exactly
  when the user agent contains one of \<^verbatim>\<open>iPhone\<close>, \<^verbatim>\<open>iPad\<close>, \<^verbatim>\<open>iPod\<close> and \<^verbatim>\<open>Android\<close> in
  any mixture of upper and lower case; a missing user agent is a desktop.
\<close>

theorem detect_decides:
  "mode_of (detect ua) \<noteq> Unknown \<and>
   (mode_of (detect ua) = Mobile \<longleftrightarrow>
      contains_ci (js ''iPhone'') (or_empty ua) \<or> contains_ci (js ''iPad'') (or_empty ua) \<or>
      contains_ci (js ''iPod'') (or_empty ua) \<or> contains_ci (js ''Android'') (or_empty ua)) \<and>
   mode_of (detect None) = Desktop"
proof (intro conjI)
  show "mode_of (detect ua) \<noteq> Unknown" "mode_of (detect None) = Desktop"
    by (simp_all add: detect_eq)
  show "mode_of (detect ua) = Mobile \<longleftrightarrow>
      contains_ci (js ''iPhone'') (or_empty ua) \<or> contains_ci (js ''iPad'') (or_empty ua) \<or>
      contains_ci (js ''iPod'') (or_empty ua) \<or> contains_ci (js ''Android'') (or_empty ua)"
    by (simp add: detect_eq mobile_regex_test_def search_ci_contains)
qed

lemma canonicalize_lower:
  "0x61 \<le> l \<Longrightarrow> l \<le> 0x7A \<Longrightarrow> c = l \<or> c = l - 0x20 \<Longrightarrow> canonicalize c = canonicalize l"
  unfolding canonicalize_def by (auto simp: word_le_nat_alt unat_sub_if')

lemma map_canonicalize_mixed:
  "list_all2 (\<lambda>c l. c = l \<or> c = l - 0x20) w p \<Longrightarrow> \<forall>l \<in> set p. 0x61 \<le> l \<and> l \<le> 0x7A \<Longrightarrow>
   map canonicalize w = map canonicalize p"
  by (induction rule: list_all2_induct) (auto simp: canonicalize_lower)

text \<open>
  (C38) The flag \<^verbatim>\<open>i\<close> and the user agent that is read: a user agent that contains
  one of the four names with each letter in either case, anywhere, is
  classified as mobile. The names are given in lower case and a letter of the
  user agent matches when it is that letter or its upper case.
\<close>

theorem detect_any_case:
  assumes "p \<in> {js ''iphone'', js ''ipad'', js ''ipod'', js ''android''}"
    "list_all2 (\<lambda>c l. c = l \<or> c = l - 0x20) w p"
  shows "detect (Some (pre @ w @ post)) = Some True"
proof -
  from assms(1) have l: "\<forall>l \<in> set p. 0x61 \<le> l \<and> l \<le> 0x7A"
    by (auto simp: js_simps)
  from assms(1) have "map canonicalize p \<in> {map canonicalize (js ''iPhone''),
      map canonicalize (js ''iPad''), map canonicalize (js ''iPod''), map canonicalize (js ''Android'')}"
    by (auto simp: js_simps canonicalize_def)
  with map_canonicalize_mixed [OF assms(2) l]
  have "contains_ci (js ''iPhone'') w \<or> contains_ci (js ''iPad'') w \<or>
      contains_ci (js ''iPod'') w \<or> contains_ci (js ''Android'') w"
    by (auto intro: contains_ci_self)
  then have "contains_ci (js ''iPhone'') (pre @ w @ post) \<or> contains_ci (js ''iPad'') (pre @ w @ post) \<or>
      contains_ci (js ''iPod'') (pre @ w @ post) \<or> contains_ci (js ''Android'') (pre @ w @ post)"
    by (auto intro: contains_ci_embed)
  then show ?thesis
    by (simp add: detect_eq mobile_regex_test_def search_ci_contains)
qed

theorem detect_any_case_witness:
  "detect (Some (js ''Mozilla/5.0 (Linux; '' @ js ''aNDROId'' @ js '' 14) Mobile'')) = Some True"
  by (rule detect_any_case [of "js ''android''"]) (simp_all add: js_simps)

text \<open>
  A user agent that mentions \<^verbatim>\<open>android\<close> anywhere, in whatever case, is
  classified as mobile.
\<close>

lemma detect_android:
  assumes "map canonicalize w = map canonicalize (js ''Android'')"
  shows "detect (Some (a @ w @ b)) = Some True"
proof -
  have "contains_ci (js ''Android'') (a @ w @ b)"
    using assms by (intro contains_ci_embed contains_ci_self)
  then show ?thesis
    by (simp add: detect_eq mobile_regex_test_def search_ci_contains)
qed

lemma detect_android_witness:
  "map canonicalize (js ''ANDROID'') = map canonicalize (js ''Android'') \<and>
   detect (Some (js ''Mozilla/5.0 (Linux; '' @ js ''ANDROID'' @ js '' 14) Mobile'')) = Some True"
  using detect_android [of "js ''ANDROID''" "js ''Mozilla/5.0 (Linux; ''" "js '' 14) Mobile''"]
  by (simp add: js_simps canonicalize_def)

lemma detect_desktop_example:
  "detect (Some (js ''Mozilla/5.0 (X11; Linux x86_64) Gecko/20100101 Firefox/130.0'')) = Some False"
  by (simp add: detect_eq mobile_regex_test_def js_simps canonicalize_def)

end
