(* ===== verification/Normalizer.thy ===== *)
theory Normalizer
  imports Web_Platform "HOL-Library.While_Combinator"
begin

text \<open>
  The image normalizer: \<^verbatim>\<open>base64ToBlob\<close> of
  \<^verbatim>\<open>src/frontend/app/analyse/page.tsx\<close> (lines 12 to 23), which turns the data
  URI of a camera capture into the \<^verbatim>\<open>Blob\<close> that is uploaded.

  \<^item> \<open>fill_bytes\<close> is the \<^verbatim>\<open>for\<close> loop of lines 19 to 21 over the index \<^verbatim>\<open>i\<close>, with the
    typed array as a list updated in place; it terminates because
    \<^verbatim>\<open>byteString.length - i\<close> decreases. \<open>copy_loop\<close> is the same loop as a
    \<open>while_option\<close>, with the theorem that it returns.
  \<^item> \<open>base64ToBlob\<close> is the function body in the order of its statements: the
    split at commas, \<^verbatim>\<open>atob(parts[1])\<close> (where a missing \<^verbatim>\<open>parts[1]\<close> is the string
    \<^verbatim>\<open>undefined\<close>), the match of \<^verbatim>\<open>/:(.*?);/\<close> on \<^verbatim>\<open>parts[0]\<close> whose \<^verbatim>\<open>null\<close> makes
    the property access \<^verbatim>\<open>[1]\<close> a \<^verbatim>\<open>TypeError\<close>, the zero-filled buffer, the loop and
    the \<^verbatim>\<open>Blob\<close> constructor. The first exception raised is the result.
  \<^item> \<open>mime_token\<close> says when a MIME type survives the trip through a data URI
    unchanged; \<^verbatim>\<open>image/jpeg\<close>, the only type the page asks for, is one.

  The theorems: the loop equals the map it implements; the round trip with
  \<open>toDataURL\<close>; the result on every branch, failures included.
\<close>

section \<open>The loop and the function\<close>

function fill_bytes :: "jsstring \<Rightarrow> nat \<Rightarrow> byte list \<Rightarrow> byte list" where
  "fill_bytes byteString i ia =
     (if i < length byteString
      then fill_bytes byteString (Suc i) (ia[i := ucast (byteString ! i)])
      else ia)"
  by pat_completeness auto
termination
  by (relation "measure (\<lambda>(byteString, i, ia). length byteString - i)") auto

declare fill_bytes.simps [simp del]

text \<open>
  The same loop kept as a loop: the state is the pair of the index and the
  buffer, the guard and the body are those of the \<^verbatim>\<open>for\<close> statement. The result is
  \<open>None\<close> if the loop does not stop.
\<close>

definition copy_loop :: "jsstring \<Rightarrow> byte list \<Rightarrow> (nat \<times> byte list) option" where
  "copy_loop byteString ia =
     while_option (\<lambda>(i, ia). i < length byteString)
       (\<lambda>(i, ia). (Suc i, ia[i := ucast (byteString ! i)])) (0, ia)"

definition base64ToBlob :: "jsstring \<Rightarrow> js_blob result" where
  "base64ToBlob base64 =
     (let parts = split_js chr_comma base64 in
      case atob (to_DOMString (index_js parts 1)) of
        Inl e \<Rightarrow> Inl e
      | Inr byteString \<Rightarrow>
          (case Option.bind (index_js parts 0) match_mime of
             None \<Rightarrow> Inl NullPropertyTypeError
           | Some mimeString \<Rightarrow>
               (let ab = replicate (length byteString) 0;
                    ia = fill_bytes byteString 0 ab
                in Inr (new_Blob ia mimeString))))"

definition mime_token :: "jsstring \<Rightarrow> bool" where
  "mime_token m \<longleftrightarrow>
     list_all (\<lambda>c. printable_ascii c \<and> ascii_lowercase c = c \<and> c \<noteq> chr_comma \<and> c \<noteq> chr_semicolon) m"

section \<open>The loop\<close>

lemma fill_bytes_step:
  "i \<le> length s \<Longrightarrow> length ia = length s \<Longrightarrow>
   fill_bytes s i ia = take i ia @ map ucast (drop i s)"
proof (induction s i ia rule: fill_bytes.induct)
  case (1 s i ia)
  show ?case
  proof (cases "i < length s")
    case True
    with 1 have "fill_bytes s (Suc i) (ia[i := ucast (s ! i)]) =
        take (Suc i) (ia[i := ucast (s ! i)]) @ map ucast (drop (Suc i) s)"
      by simp
    also have "take (Suc i) (ia[i := ucast (s ! i)]) = take i ia @ [ucast (s ! i)]"
      using True 1(3) by (simp add: take_Suc_conv_app_nth)
    also have "(take i ia @ [ucast (s ! i)]) @ map ucast (drop (Suc i) s) =
        take i ia @ map ucast (drop i s)"
      using True by (simp add: Cons_nth_drop_Suc [symmetric])
    finally show ?thesis
      using True by (simp add: fill_bytes.simps [of s i ia])
  next
    case False
    with 1(2,3) have "i = length s" by simp
    with 1(3) show ?thesis by (subst fill_bytes.simps) simp
  qed
qed

text \<open>
  (C8) The copy loop of \<^verbatim>\<open>base64ToBlob\<close>, run from index 0 on a zero-filled buffer
  of the string's length, leaves in the buffer the code units of the string
  truncated to bytes, in order: the loop is the map it is meant to be.
\<close>

theorem fill_bytes_map: "fill_bytes s 0 (replicate (length s) 0) = map ucast s"
  by (simp add: fill_bytes_step)

lemma length_fill_bytes: "length (fill_bytes s i ia) = length ia"
proof (induction s i ia rule: fill_bytes.induct)
  case (1 s i ia)
  then show ?case by (subst fill_bytes.simps) simp
qed


lemma copy_loop_from:
  "while_option (\<lambda>(i, ia). i < length s) (\<lambda>(i, ia). (Suc i, ia[i := ucast (s ! i)])) (i, ia) =
     Some (max i (length s), fill_bytes s i ia)"
proof (induction s i ia rule: fill_bytes.induct)
  case (1 s i ia)
  show ?case
  proof (cases "i < length s")
    case True
    with 1 show ?thesis
      by (subst while_option_unfold, subst fill_bytes.simps) (simp add: max_def)
  next
    case False
    then show ?thesis
      by (subst while_option_unfold, subst fill_bytes.simps) (simp add: max_def)
  qed
qed

text \<open>
  (C13) The copy loop of \<^verbatim>\<open>base64ToBlob\<close> terminates: run as a while loop from index 0
  on the zero-filled buffer, it stops for every string, with the index at the
  length of the string and the buffer holding the truncated code units.
\<close>

theorem copy_loop_terminates:
  "copy_loop s (replicate (length s) 0) = Some (length s, map ucast s)"
  by (simp add: copy_loop_def copy_loop_from fill_bytes_step)

section \<open>Characteristic equations\<close>

lemma base64ToBlob_parts:
  "split_js chr_comma u = p0 # rest \<Longrightarrow>
   base64ToBlob u =
     (case atob (to_DOMString (index_js rest 0)) of
        Inl e \<Rightarrow> Inl e
      | Inr t \<Rightarrow>
          (case match_mime p0 of
             None \<Rightarrow> Inl NullPropertyTypeError
           | Some m \<Rightarrow> Inr (new_Blob (map ucast t) m)))"
  by (simp add: base64ToBlob_def fill_bytes_map Let_def split: sum.splits option.splits)

lemma base64ToBlob_eq:
  "base64ToBlob u =
     (case atob (to_DOMString (index_js (split_js chr_comma u) 1)) of
        Inl e \<Rightarrow> Inl e
      | Inr t \<Rightarrow>
          (case match_mime (takeWhile (\<lambda>c. c \<noteq> chr_comma) u) of
             None \<Rightarrow> Inl NullPropertyTypeError
           | Some m \<Rightarrow> Inr (new_Blob (map ucast t) m)))"
  by (simp add: base64ToBlob_def index_js_first_split fill_bytes_map Let_def
      split: sum.splits option.splits)

lemma base64ToBlob_payload_error:
  assumes "chr_comma \<notin> set pre" "chr_comma \<notin> set payload" "atob payload = Inl e"
  shows "base64ToBlob (pre @ chr_comma # payload) = Inl e"
proof -
  have "split_js chr_comma (pre @ chr_comma # payload) = pre # split_js chr_comma payload"
    using assms(1) by (rule split_js_append)
  also have "split_js chr_comma payload = [payload]"
    using assms(2) by (rule split_js_no_sep)
  finally show ?thesis
    using assms(3) by (simp add: base64ToBlob_parts)
qed

section \<open>Data URIs of the canvas\<close>

lemma mime_token_props:
  assumes "mime_token m"
  shows "chr_comma \<notin> set m" "chr_semicolon \<notin> set m" "\<forall>c \<in> set m. \<not> is_line_terminator c"
    "normalize_type m = m"
proof -
  from assms show "chr_comma \<notin> set m" "chr_semicolon \<notin> set m"
    by (auto simp: mime_token_def list_all_iff)
  from assms show "\<forall>c \<in> set m. \<not> is_line_terminator c"
    by (auto simp: mime_token_def list_all_iff printable_ascii_def is_line_terminator_def)
  from assms show "normalize_type m = m"
    by (intro normalize_type_fixed) (auto simp: mime_token_def list_all_iff)
qed

lemma toDataURL_split:
  assumes "chr_comma \<notin> set mime"
  shows "split_js chr_comma (toDataURL mime bs) =
           [js ''data:'' @ mime @ js '';base64'', base64_encode bs]"
proof -
  let ?pre = "js ''data:'' @ mime @ js '';base64''"
  have "chr_comma \<notin> set ?pre"
    using assms by (simp add: js_simps)
  then have "split_js chr_comma (?pre @ chr_comma # base64_encode bs) =
      ?pre # split_js chr_comma (base64_encode bs)"
    by (rule split_js_append)
  also have "split_js chr_comma (base64_encode bs) = [base64_encode bs]"
    by (rule split_js_no_sep) (rule base64_encode_no_comma)
  finally show ?thesis
    by (simp add: toDataURL_def js_simps)
qed

lemma match_mime_data_prefix:
  assumes "chr_semicolon \<notin> set mime" "\<forall>c \<in> set mime. \<not> is_line_terminator c"
  shows "match_mime (js ''data:'' @ mime @ js '';base64'') = Some mime"
proof -
  have "chr_colon \<notin> set (js ''data'')" by (simp add: js_simps)
  then have "match_mime (js ''data'' @ chr_colon # mime @ chr_semicolon # js ''base64'') = Some mime"
    using assms by (rule match_mime_first_colon)
  then show ?thesis by (simp add: js_simps)
qed

text \<open>
  The data URI of any bytes under any type without comma, semicolon and line
  terminator: the blob has the bytes, and the type as the \<^verbatim>\<open>Blob\<close> constructor
  normalises it.
\<close>

lemma base64ToBlob_data_uri:
  assumes "chr_comma \<notin> set mime" "chr_semicolon \<notin> set mime"
    "\<forall>c \<in> set mime. \<not> is_line_terminator c"
  shows "base64ToBlob (toDataURL mime bs) = Inr (new_Blob bs mime)"
  by (simp add: base64ToBlob_parts [OF toDataURL_split [OF assms(1)]] atob_base64_encode
      match_mime_data_prefix [OF assms(2,3)])

lemma mime_token_jpeg: "mime_token (js ''image/jpeg'')"
  by (simp add: mime_token_def printable_ascii_def ascii_lowercase_def js_simps)

lemma base64ToBlob_jpeg:
  "base64ToBlob (toDataURL (js ''image/jpeg'') bs) =
     Inr \<lparr>blob_bytes = bs, blob_type = js ''image/jpeg''\<rparr>"
  using mime_token_props [OF mime_token_jpeg]
  by (simp add: base64ToBlob_data_uri new_Blob_def)

text \<open>
  (C1) Round trip: for a MIME type that is a lower-case printable token without
  comma or semicolon, \<^verbatim>\<open>base64ToBlob\<close> applied to the data URI that the canvas
  produces for a byte sequence returns a blob with exactly those bytes and that
  type. Nothing is re-encoded and nothing is lost, whatever the bytes are.
\<close>

theorem base64ToBlob_toDataURL:
  assumes "mime_token mime"
  shows "base64ToBlob (toDataURL mime bs) = Inr \<lparr>blob_bytes = bs, blob_type = mime\<rparr>"
  using mime_token_props [OF assms]
  by (simp add: base64ToBlob_data_uri new_Blob_def)

theorem base64ToBlob_toDataURL_witness:
  "base64ToBlob (toDataURL (js ''image/jpeg'') [0xFF, 0xD8, 0xFF]) =
     Inr \<lparr>blob_bytes = [0xFF, 0xD8, 0xFF], blob_type = js ''image/jpeg''\<rparr>"
  by (rule base64ToBlob_toDataURL)
     (simp add: mime_token_def printable_ascii_def ascii_lowercase_def js_simps)

text \<open>
  (C23) A string without a comma makes \<^verbatim>\<open>base64ToBlob\<close> raise the
  \<^verbatim>\<open>InvalidCharacterError\<close> of \<^verbatim>\<open>atob\<close>: \<^verbatim>\<open>parts[1]\<close> is \<^verbatim>\<open>undefined\<close>, which \<^verbatim>\<open>atob\<close>
  reads as the nine-letter string \<^verbatim>\<open>undefined\<close>, whose length is one modulo four.
\<close>

theorem base64ToBlob_no_comma:
  "chr_comma \<notin> set u \<Longrightarrow> base64ToBlob u = Inl InvalidCharacterError"
  by (simp add: base64ToBlob_eq index_js_second_split_None atob_undefined)

theorem base64ToBlob_no_comma_witness:
  "base64ToBlob (js ''no payload here'') = Inl InvalidCharacterError"
  by (rule base64ToBlob_no_comma) (simp add: js_simps)

text \<open>
  What \<^verbatim>\<open>base64ToBlob\<close> raises is one of two exceptions.
\<close>

lemma base64ToBlob_Inl:
  "base64ToBlob u = Inl e \<Longrightarrow> e = InvalidCharacterError \<or> e = NullPropertyTypeError"
  by (auto simp: base64ToBlob_eq split: sum.splits option.splits dest: atob_Inl)

lemma split_js_two:
  assumes "chr_comma \<notin> set pre" "chr_comma \<notin> set payload" "extra = [] \<or> hd extra = chr_comma"
  shows "\<exists>rest. split_js chr_comma (pre @ chr_comma # payload @ extra) = pre # payload # rest"
proof (cases extra)
  case Nil
  with assms(1,2) show ?thesis
    by (simp add: split_js_append split_js_no_sep)
next
  case (Cons c cs)
  with assms(3) have "extra = chr_comma # cs" by simp
  with assms(1,2) show ?thesis
    by (simp add: split_js_append)
qed

text \<open>
  (C24) Which exception, and when. For a string with a comma, \<^verbatim>\<open>base64ToBlob\<close> reads
  the text between the first and the second comma as the payload and the text
  before the first comma as the prefix, and ignores what follows a second
  comma. It raises \<^verbatim>\<open>InvalidCharacterError\<close> exactly when the payload is not
  base64, whatever the prefix is; otherwise it raises the \<^verbatim>\<open>TypeError\<close> exactly
  when the prefix has no match of \<^verbatim>\<open>/:(.*?);/\<close>; otherwise the blob has exactly
  the decoded bytes, and the matched type.
\<close>

theorem base64ToBlob_errors:
  assumes "chr_comma \<notin> set pre" "chr_comma \<notin> set payload" "extra = [] \<or> hd extra = chr_comma"
  shows "base64ToBlob (pre @ chr_comma # payload @ extra) =
     (case forgiving_base64_decode payload of
        None \<Rightarrow> Inl InvalidCharacterError
      | Some bs \<Rightarrow>
          (case match_mime pre of
             None \<Rightarrow> Inl NullPropertyTypeError
           | Some mime \<Rightarrow> Inr (new_Blob bs mime)))"
proof -
  from split_js_two [OF assms] obtain rest where
    "split_js chr_comma (pre @ chr_comma # payload @ extra) = pre # payload # rest" ..
  then show ?thesis
    by (simp add: base64ToBlob_parts atob_def comp_def split: option.splits)
qed

theorem base64ToBlob_errors_witness:
  "base64ToBlob (js ''data:,QUJD'') = Inl NullPropertyTypeError \<and>
   base64ToBlob (js ''data:,QUJD,ignored'') = Inl NullPropertyTypeError \<and>
   base64ToBlob (js ''data:,***'') = Inl InvalidCharacterError"
proof -
  have d: "forgiving_base64_decode (js ''QUJD'') = Some [0x41, 0x42, 0x43]"
    "forgiving_base64_decode (js ''***'') = None"
    by (simp_all add: forgiving_base64_decode_def strip_padding_def is_ascii_whitespace_def
        drop_equals_def b64_value_def b64_alphabet_def js_simps)
  have c: "chr_comma \<notin> set (js ''data:'')" "chr_comma \<notin> set (js ''QUJD'')"
    "chr_comma \<notin> set (js ''***'')"
    by (simp_all add: js_simps)
  have m: "match_mime (js ''data:'') = None"
    by (rule match_mime_no_semicolon) (simp add: js_simps)
  have "base64ToBlob (js ''data:'' @ chr_comma # js ''QUJD'' @ []) = Inl NullPropertyTypeError"
    "base64ToBlob (js ''data:'' @ chr_comma # js ''QUJD'' @ js '',ignored'') = Inl NullPropertyTypeError"
    "base64ToBlob (js ''data:'' @ chr_comma # js ''***'' @ []) = Inl InvalidCharacterError"
    using base64ToBlob_errors [OF c(1,2), of "[]"]
      base64ToBlob_errors [OF c(1,2), of "js '',ignored''"] base64ToBlob_errors [OF c(1,3), of "[]"]
    by (simp_all add: d m) (simp add: js_simps)
  then show ?thesis
    by (simp add: js_simps)
qed

end
