(* ===== verification/Upload_Client.thy ===== *)
theory Upload_Client
  imports Normalizer
begin

text \<open>
  The handler \<^verbatim>\<open>handleImageUpload\<close> of \<^verbatim>\<open>page.tsx\<close> (lines 178 to 208): the form it
  builds from a captured image, the endpoint, the one call of \<^verbatim>\<open>fetch\<close> and what
  is written to the console for each way that call can end.

  \<^item> \<open>build_form\<close> is the part before \<^verbatim>\<open>try\<close> (lines 179 to 190). It is outside
    the \<^verbatim>\<open>try\<close> block, so an exception of \<^verbatim>\<open>base64ToBlob\<close> is not caught: it is
    the value \<open>Inl e\<close> here and the rejection of the promise in
    \<open>handleImageUpload\<close>.
  \<^item> The network and the JSON parser are parameters: \<open>net\<close> answers a request
    with a \<open>fetch_outcome\<close>, \<open>parse\<close> reads a response body (\<open>None\<close> is the
    \<^verbatim>\<open>SyntaxError\<close> of \<^verbatim>\<open>response.json()\<close>). A response carries what reading its
    body gives: the text, or the rejection of \<^verbatim>\<open>response.text()\<close> and
    \<^verbatim>\<open>response.json()\<close> when the connection breaks, which the \<^verbatim>\<open>catch\<close> block
    \<open>caught\<close> logs. The theorems hold for every network and every parser.
  \<^item> The result \<open>upload_run\<close> records what the call did: the requests it sent,
    the console entries it wrote, and the error it rejected with, if any.
  \<^item> The \<^verbatim>\<open>await\<close> of \<^verbatim>\<open>fetch\<close> splits the handler: \<open>start_upload\<close> runs with the
    capture and ends with the request sent (\<open>Awaiting\<close>) or the exception
    thrown, \<open>settle_upload\<close> runs when the network answers, the reading of the
    body included. \<open>run_so_far\<close> is what a call has done up to its current
    step.
  \<^item> \<open>upload_spec\<close> is the outcome the design document promises for a capture
    (success with the parsed body, or failure with a reason); \<open>outcome_of\<close> reads
    that outcome off a run, and the refinement theorem relates the two.
\<close>

section \<open>Console and runs\<close>

datatype 'j log_arg = ArgNumber nat | ArgString jsstring | ArgError js_error | ArgData 'j

datatype 'j log_entry =
    ConsoleError jsstring "'j log_arg list"
  | ConsoleLog jsstring "'j log_arg list"

record 'j upload_run =
  requests :: "request list"
  console :: "'j log_entry list"
  rejected :: "js_error option"

section \<open>The handler\<close>

definition build_form :: "capture_data \<Rightarrow> form_data result" where
  "build_form img =
     (case img of
        CapturedString str \<Rightarrow>
          (if startsWith str (js ''data:'')
           then (case base64ToBlob str of
                   Inl e \<Rightarrow> Inl e
                 | Inr blob \<Rightarrow>
                     Inr (append_blob [] (js ''image'') (PlainBlob blob) (Some (js ''captured.jpg''))))
           else Inr (append_string [] (js ''imageUrl'') str))
      | CapturedBlob b \<Rightarrow> Inr (append_blob [] (js ''image'') b None))"

definition apiEndpoint :: "jsstring option \<Rightarrow> jsstring" where
  "apiEndpoint window =
     (case window of
        Some origin \<Rightarrow> origin @ js ''/api/upload''
      | None \<Rightarrow> js ''/api/upload'')"

definition caught :: "js_error \<Rightarrow> 'j log_entry" where
  "caught error = ConsoleError (js ''Error uploading image:'') [ArgError error]"

definition after_fetch :: "(jsstring \<Rightarrow> 'j option) \<Rightarrow> fetch_outcome \<Rightarrow> 'j log_entry" where
  "after_fetch parse outcome =
     (case outcome of
        Rejected cause \<Rightarrow> caught (FetchTypeError cause)
      | Responded response \<Rightarrow>
          (if \<not> response_ok response
           then (case body response of
                   BodyFailed cause \<Rightarrow> caught (FetchTypeError cause)
                 | BodyText errorText \<Rightarrow>
                     ConsoleError (js ''Upload error'')
                       [ArgNumber (status response), ArgString errorText])
           else (case body response of
                   BodyFailed cause \<Rightarrow> caught (FetchTypeError cause)
                 | BodyText text \<Rightarrow>
                     (case parse text of
                        None \<Rightarrow> caught JsonSyntaxError
                      | Some data \<Rightarrow> ConsoleLog (js ''Server response:'') [ArgData data]))))"

definition handleImageUpload ::
  "(request \<Rightarrow> fetch_outcome) \<Rightarrow> (jsstring \<Rightarrow> 'j option) \<Rightarrow> jsstring option \<Rightarrow>
   capture_data \<Rightarrow> 'j upload_run" where
  "handleImageUpload net parse window img =
     (case build_form img of
        Inl e \<Rightarrow> \<lparr>requests = [], console = [], rejected = Some e\<rparr>
      | Inr formData \<Rightarrow>
          (let req = \<lparr>req_url = apiEndpoint window, req_method = js ''POST'', req_body = formData\<rparr>
           in \<lparr>requests = [req], console = [after_fetch parse (net req)], rejected = None\<rparr>))"

section \<open>The handler as two steps\<close>

text \<open>
  \<^verbatim>\<open>await fetch(...)\<close> splits the handler: \<open>start_upload\<close> is what runs with the
  call (the form is built and the request is sent, or \<^verbatim>\<open>base64ToBlob\<close> raises),
  \<open>settle_upload\<close> is the rest, run when the network has answered. An upload is
  in one of three phases; \<open>run_so_far\<close> is what it has done up to its phase.
\<close>

datatype 'j upload_phase = Awaiting request | Settled request "'j log_entry" | Threw js_error

definition start_upload :: "jsstring option \<Rightarrow> capture_data \<Rightarrow> 'j upload_phase" where
  "start_upload window img =
     (case build_form img of
        Inl e \<Rightarrow> Threw e
      | Inr formData \<Rightarrow>
          Awaiting \<lparr>req_url = apiEndpoint window, req_method = js ''POST'', req_body = formData\<rparr>)"

definition settle_upload ::
  "(jsstring \<Rightarrow> 'j option) \<Rightarrow> (request \<Rightarrow> fetch_outcome) \<Rightarrow> 'j upload_phase \<Rightarrow> 'j upload_phase" where
  "settle_upload parse net ph =
     (case ph of Awaiting req \<Rightarrow> Settled req (after_fetch parse (net req)) | _ \<Rightarrow> ph)"

definition run_so_far :: "'j upload_phase \<Rightarrow> 'j upload_run" where
  "run_so_far ph =
     (case ph of
        Awaiting req \<Rightarrow> \<lparr>requests = [req], console = [], rejected = None\<rparr>
      | Settled req entry \<Rightarrow> \<lparr>requests = [req], console = [entry], rejected = None\<rparr>
      | Threw e \<Rightarrow> \<lparr>requests = [], console = [], rejected = Some e\<rparr>)"

definition in_flight :: "'j upload_phase \<Rightarrow> bool" where
  "in_flight ph = (case ph of Awaiting _ \<Rightarrow> True | _ \<Rightarrow> False)"

section \<open>The promised outcome\<close>

datatype failure =
    MalformedDataUri
  | NetworkFailure jsstring
  | ServerError nat jsstring
  | ResponseParseError

datatype 'j upload_outcome = Success 'j | Failure failure

definition outcome_of_entry :: "'j log_entry \<Rightarrow> 'j upload_outcome" where
  "outcome_of_entry e =
     (case e of
        ConsoleLog _ [ArgData d] \<Rightarrow> Success d
      | ConsoleError _ [ArgNumber n, ArgString t] \<Rightarrow> Failure (ServerError n t)
      | ConsoleError _ [ArgError (FetchTypeError c)] \<Rightarrow> Failure (NetworkFailure c)
      | _ \<Rightarrow> Failure ResponseParseError)"

definition outcome_of :: "'j upload_run \<Rightarrow> 'j upload_outcome" where
  "outcome_of r =
     (case rejected r of
        Some _ \<Rightarrow> Failure MalformedDataUri
      | None \<Rightarrow> (case console r of e # _ \<Rightarrow> outcome_of_entry e | [] \<Rightarrow> Failure ResponseParseError))"

definition well_formed :: "capture_data \<Rightarrow> bool" where
  "well_formed img \<longleftrightarrow> is_ok (build_form img)"

definition upload_spec ::
  "(request \<Rightarrow> fetch_outcome) \<Rightarrow> (jsstring \<Rightarrow> 'j option) \<Rightarrow> jsstring option \<Rightarrow>
   capture_data \<Rightarrow> 'j upload_outcome" where
  "upload_spec net parse window img =
     (case build_form img of
        Inl _ \<Rightarrow> Failure MalformedDataUri
      | Inr form \<Rightarrow>
          (case net \<lparr>req_url = apiEndpoint window, req_method = js ''POST'', req_body = form\<rparr> of
             Rejected cause \<Rightarrow> Failure (NetworkFailure cause)
           | Responded response \<Rightarrow>
               (case body response of
                  BodyFailed cause \<Rightarrow> Failure (NetworkFailure cause)
                | BodyText text \<Rightarrow>
                    (if response_ok response
                     then (case parse text of
                             Some d \<Rightarrow> Success d
                           | None \<Rightarrow> Failure ResponseParseError)
                     else Failure (ServerError (status response) text)))))"

section \<open>The form\<close>

lemmas upload_defs = build_form_def apiEndpoint_def caught_def after_fetch_def handleImageUpload_def
  append_blob_def append_string_def form_file_def

lemma build_form_blob [simp]:
  "build_form (CapturedBlob b) = Inr [(js ''image'', FormFile (form_file b None))]"
  by (simp add: build_form_def append_blob_def)

lemma build_form_data_uri:
  "startsWith str (js ''data:'') \<Longrightarrow>
   build_form (CapturedString str) =
     map_sum id (\<lambda>blob. [(js ''image'', FormFile (form_file (PlainBlob blob) (Some (js ''captured.jpg''))))])
       (base64ToBlob str)"
  by (simp add: build_form_def append_blob_def split: sum.splits)

lemma build_form_other_string:
  "\<not> startsWith str (js ''data:'') \<Longrightarrow>
   build_form (CapturedString str) = Inr [(js ''imageUrl'', FormString str)]"
  by (simp add: build_form_def append_string_def)

lemma build_form_single: "build_form img = Inr fd \<Longrightarrow> length fd = 1"
  by (auto simp: build_form_def split: capture_data.splits if_splits sum.splits)

lemma build_form_Inl_iff:
  "build_form img = Inl e \<longleftrightarrow>
     (\<exists>str. img = CapturedString str \<and> startsWith str (js ''data:'') \<and> base64ToBlob str = Inl e)"
  by (auto simp: build_form_def split: capture_data.splits if_splits sum.splits)

lemma build_form_frame:
  "build_form (CapturedString (toDataURL (js ''image/jpeg'') bs)) =
     Inr [(js ''image'',
           FormFile \<lparr>blob_bytes = bs, blob_type = js ''image/jpeg'', file_name = js ''captured.jpg''\<rparr>)]"
  by (simp add: build_form_data_uri base64ToBlob_jpeg form_file_def)

section \<open>Runs of the handler\<close>

lemma handleImageUpload_Inl:
  "build_form img = Inl e \<Longrightarrow>
   handleImageUpload net parse window img = \<lparr>requests = [], console = [], rejected = Some e\<rparr>"
  by (simp add: handleImageUpload_def)

lemma handleImageUpload_Inr:
  "build_form img = Inr fd \<Longrightarrow>
   handleImageUpload net parse window img =
     \<lparr>requests = [\<lparr>req_url = apiEndpoint window, req_method = js ''POST'', req_body = fd\<rparr>],
      console = [after_fetch parse
        (net \<lparr>req_url = apiEndpoint window, req_method = js ''POST'', req_body = fd\<rparr>)],
      rejected = None\<rparr>"
  by (simp add: handleImageUpload_def Let_def)

lemma after_fetch_simps:
  "after_fetch parse (Rejected cause) =
     ConsoleError (js ''Error uploading image:'') [ArgError (FetchTypeError cause)]"
  "\<not> response_ok r \<Longrightarrow> body r = BodyText t \<Longrightarrow>
   after_fetch parse (Responded r) =
     ConsoleError (js ''Upload error'') [ArgNumber (status r), ArgString t]"
  "response_ok r \<Longrightarrow> body r = BodyText t \<Longrightarrow> parse t = Some d \<Longrightarrow>
   after_fetch parse (Responded r) = ConsoleLog (js ''Server response:'') [ArgData d]"
  "response_ok r \<Longrightarrow> body r = BodyText t \<Longrightarrow> parse t = None \<Longrightarrow>
   after_fetch parse (Responded r) =
     ConsoleError (js ''Error uploading image:'') [ArgError JsonSyntaxError]"
  "body r = BodyFailed cause \<Longrightarrow>
   after_fetch parse (Responded r) =
     ConsoleError (js ''Error uploading image:'') [ArgError (FetchTypeError cause)]"
  by (simp_all add: after_fetch_def caught_def)

lemma outcome_of_after_fetch:
  "outcome_of_entry (after_fetch parse outcome) =
     (case outcome of
        Rejected cause \<Rightarrow> Failure (NetworkFailure cause)
      | Responded response \<Rightarrow>
          (case body response of
             BodyFailed cause \<Rightarrow> Failure (NetworkFailure cause)
           | BodyText text \<Rightarrow>
               (if response_ok response
                then (case parse text of
                        Some d \<Rightarrow> Success d
                      | None \<Rightarrow> Failure ResponseParseError)
                else Failure (ServerError (status response) text))))"
  by (simp add: after_fetch_def caught_def outcome_of_entry_def
      split: fetch_outcome.splits option.splits body_read.splits)

text \<open>
  (C6) \<^verbatim>\<open>handleImageUpload\<close> sends at most one request, and it sends none exactly
  when it rejects, which is exactly when the image is a data URI that
  \<^verbatim>\<open>base64ToBlob\<close> raises on. Whatever the network or the parser do after the
  request is sent, the promise does not reject.
\<close>

theorem handleImageUpload_requests:
  "length (requests (handleImageUpload net parse window img)) \<le> 1 \<and>
   (requests (handleImageUpload net parse window img) = [] \<longleftrightarrow>
      rejected (handleImageUpload net parse window img) \<noteq> None) \<and>
   (rejected (handleImageUpload net parse window img) = Some e \<longleftrightarrow> build_form img = Inl e)"
  by (cases "build_form img") (simp_all add: handleImageUpload_def Let_def)

text \<open>
  (C18) The frame of a camera. For the JPEG data URI of any byte sequence the
  handler sends exactly one \<^verbatim>\<open>POST\<close> to the endpoint, whose body has the single
  field \<^verbatim>\<open>image\<close>: a file named \<^verbatim>\<open>captured.jpg\<close> of type \<^verbatim>\<open>image/jpeg\<close> with exactly
  those bytes.
\<close>

theorem handleImageUpload_frame:
  "requests (handleImageUpload net parse window
       (CapturedString (toDataURL (js ''image/jpeg'') bs))) =
     [\<lparr>req_url = apiEndpoint window, req_method = js ''POST'',
       req_body = [(js ''image'',
         FormFile \<lparr>blob_bytes = bs, blob_type = js ''image/jpeg'', file_name = js ''captured.jpg''\<rparr>)]\<rparr>]"
  by (simp add: handleImageUpload_Inr [OF build_form_frame])

text \<open>
  A file of the picker is sent as it is: one request whose single field
  \<^verbatim>\<open>image\<close> is the file with its own name, type and bytes.
\<close>

lemma handleImageUpload_file:
  "requests (handleImageUpload net parse window (CapturedBlob (FileBlob f))) =
     [\<lparr>req_url = apiEndpoint window, req_method = js ''POST'',
       req_body = [(js ''image'', FormFile f)]\<rparr>]"
  by (simp add: handleImageUpload_def form_file_def Let_def)

text \<open>
  (C4) The handler implements the promised outcome: for every network, parser and
  image, the outcome read off its run is the one \<open>upload_spec\<close> gives, where the
  rejected promise of a malformed data URI counts as the failure
  \<open>MalformedDataUri\<close>.
\<close>

theorem handleImageUpload_refines:
  "outcome_of (handleImageUpload net parse window img) = upload_spec net parse window img"
  by (cases "build_form img")
    (simp_all add: handleImageUpload_def outcome_of_def upload_spec_def outcome_of_after_fetch
      Let_def)

text \<open>
  (C25) The malformed data URI of the design document,
  \<^verbatim>\<open>data:image/jpeg;base64,***invalid***\<close>: \<^verbatim>\<open>atob\<close> raises, no request is sent and
  nothing is logged; the promise of the handler rejects with the
  \<^verbatim>\<open>InvalidCharacterError\<close>, which no caller handles.
\<close>

theorem handleImageUpload_malformed:
  "handleImageUpload net parse window
       (CapturedString (js ''data:image/jpeg;base64,***invalid***'')) =
     \<lparr>requests = [], console = [], rejected = Some InvalidCharacterError\<rparr>"
proof -
  have "base64ToBlob (js ''data:image/jpeg;base64'' @ chr_comma # js ''***invalid***'') =
      Inl InvalidCharacterError"
    by (rule base64ToBlob_payload_error) (simp_all add: atob_invalid, simp_all add: js_simps)
  then have "base64ToBlob (js ''data:image/jpeg;base64,***invalid***'') = Inl InvalidCharacterError"
    by (simp add: js_simps)
  moreover have "startsWith (js ''data:image/jpeg;base64,***invalid***'') (js ''data:'')"
    by (simp add: startsWith_iff_prefix js_simps)
  ultimately show ?thesis
    by (simp add: handleImageUpload_def build_form_def)
qed

text \<open>
  (C26) A response with status 500 and body \<^verbatim>\<open>server error\<close> to any image that can
  be sent: one console error with the status and the body, the failure
  \<open>ServerError 500\<close> with that body, and no rejection.
\<close>

theorem handleImageUpload_server_error:
  assumes "well_formed img"
  shows "console (handleImageUpload (\<lambda>_. Responded \<lparr>status = 500, body = BodyText (js ''server error'')\<rparr>)
             parse window img) =
           [ConsoleError (js ''Upload error'') [ArgNumber 500, ArgString (js ''server error'')]] \<and>
         outcome_of (handleImageUpload (\<lambda>_. Responded \<lparr>status = 500, body = BodyText (js ''server error'')\<rparr>)
             parse window img) = Failure (ServerError 500 (js ''server error'')) \<and>
         rejected (handleImageUpload (\<lambda>_. Responded \<lparr>status = 500, body = BodyText (js ''server error'')\<rparr>)
             parse window img) = None"
proof -
  from assms obtain fd where "build_form img = Inr fd"
    by (auto simp: well_formed_def is_ok_iff)
  then show ?thesis
    by (simp add: handleImageUpload_Inr after_fetch_simps outcome_of_def outcome_of_entry_def)
qed

theorem handleImageUpload_server_error_witness:
  "well_formed (CapturedBlob (FileBlob \<lparr>blob_bytes = [1, 2, 3], blob_type = js ''image/png'',
       file_name = js ''fridge.png''\<rparr>)) \<and>
   console (handleImageUpload (\<lambda>_. Responded \<lparr>status = 500, body = BodyText (js ''server error'')\<rparr>)
       (\<lambda>_. None :: unit option) None
       (CapturedBlob (FileBlob \<lparr>blob_bytes = [1, 2, 3], blob_type = js ''image/png'',
          file_name = js ''fridge.png''\<rparr>))) =
     [ConsoleError (js ''Upload error'') [ArgNumber 500, ArgString (js ''server error'')]]"
  using handleImageUpload_server_error
    [of "CapturedBlob (FileBlob \<lparr>blob_bytes = [1, 2, 3], blob_type = js ''image/png'',
          file_name = js ''fridge.png''\<rparr>)" "\<lambda>_. None :: unit option" None]
  by (simp add: well_formed_def)

text \<open>
  (C27) A response with a status from 200 to 299 whose body parses yields the
  outcome \<open>Success\<close> with the parsed body, logged as the server response.
\<close>

theorem handleImageUpload_success:
  assumes "well_formed img" "response_ok r" "body r = BodyText t" "parse t = Some d"
  shows "console (handleImageUpload (\<lambda>_. Responded r) parse window img) =
           [ConsoleLog (js ''Server response:'') [ArgData d]] \<and>
         outcome_of (handleImageUpload (\<lambda>_. Responded r) parse window img) = Success d"
proof -
  from assms(1) obtain fd where "build_form img = Inr fd"
    by (auto simp: well_formed_def is_ok_iff)
  with assms(2,3,4) show ?thesis
    by (simp add: handleImageUpload_Inr after_fetch_simps outcome_of_def outcome_of_entry_def)
qed

theorem handleImageUpload_success_witness:
  "well_formed (CapturedString (toDataURL (js ''image/jpeg'') [0xFF, 0xD8, 0xFF, 0xE0, 0, 0x10, 0x4A, 0x46, 0x49, 0x46])) \<and>
   outcome_of (handleImageUpload (\<lambda>_. Responded \<lparr>status = 200, body = BodyText (js ''{ok:true}'')\<rparr>) Some None
       (CapturedString (toDataURL (js ''image/jpeg'') [0xFF, 0xD8, 0xFF, 0xE0, 0, 0x10, 0x4A, 0x46, 0x49, 0x46]))) =
     Success (js ''{ok:true}'')"
  using handleImageUpload_success
    [of "CapturedString (toDataURL (js ''image/jpeg'') [0xFF, 0xD8, 0xFF, 0xE0, 0, 0x10, 0x4A, 0x46, 0x49, 0x46])"
        "\<lparr>status = 200, body = BodyText (js ''{ok:true}'')\<rparr>" "js ''{ok:true}''" Some
        "js ''{ok:true}''" None]
  by (simp add: well_formed_def build_form_frame)

text \<open>
  (C37) A response whose body cannot be read, whatever its status: the rejection
  of \<^verbatim>\<open>response.text()\<close> or \<^verbatim>\<open>response.json()\<close> is caught by the \<^verbatim>\<open>catch\<close> block of
  the handler, which logs it as an upload error; the promise of the handler
  does not reject.
\<close>

theorem handleImageUpload_body_failed:
  assumes "well_formed img" "body r = BodyFailed cause"
  shows "console (handleImageUpload (\<lambda>_. Responded r) parse window img) =
           [ConsoleError (js ''Error uploading image:'') [ArgError (FetchTypeError cause)]] \<and>
         outcome_of (handleImageUpload (\<lambda>_. Responded r) parse window img) =
           Failure (NetworkFailure cause) \<and>
         rejected (handleImageUpload (\<lambda>_. Responded r) parse window img) = None"
proof -
  from assms(1) obtain fd where "build_form img = Inr fd"
    by (auto simp: well_formed_def is_ok_iff)
  with assms(2) show ?thesis
    by (simp add: handleImageUpload_Inr after_fetch_simps outcome_of_def outcome_of_entry_def)
qed

theorem handleImageUpload_body_failed_witness:
  "well_formed (CapturedBlob (FileBlob \<lparr>blob_bytes = [1, 2, 3], blob_type = js ''image/png'',
       file_name = js ''fridge.png''\<rparr>)) \<and>
   console (handleImageUpload (\<lambda>_. Responded \<lparr>status = 200, body = BodyFailed (js ''reset'')\<rparr>)
       (\<lambda>_. None :: unit option) None
       (CapturedBlob (FileBlob \<lparr>blob_bytes = [1, 2, 3], blob_type = js ''image/png'',
          file_name = js ''fridge.png''\<rparr>))) =
     [ConsoleError (js ''Error uploading image:'') [ArgError (FetchTypeError (js ''reset''))]]"
  using handleImageUpload_body_failed
    [of "CapturedBlob (FileBlob \<lparr>blob_bytes = [1, 2, 3], blob_type = js ''image/png'',
          file_name = js ''fridge.png''\<rparr>)"
        "\<lparr>status = 200, body = BodyFailed (js ''reset'')\<rparr>" "js ''reset''"
        "\<lambda>_. None :: unit option" None]
  by (simp add: well_formed_def)

text \<open>
  The endpoint is the path \<^verbatim>\<open>/api/upload\<close> on the origin of the window, and the
  bare path where there is no window.
\<close>

lemma apiEndpoint_suffix:
  "suffix (js ''/api/upload'') (apiEndpoint window) \<and> apiEndpoint None = js ''/api/upload''"
  by (cases window) (simp_all add: apiEndpoint_def suffix_def)

section \<open>The two steps\<close>

lemma settle_upload_idem [simp]:
  "settle_upload parse net (settle_upload parse net ph) = settle_upload parse net ph"
  by (cases ph) (simp_all add: settle_upload_def)

lemma not_in_flight_settle [simp]: "\<not> in_flight (settle_upload parse net ph)"
  by (cases ph) (simp_all add: settle_upload_def in_flight_def)

lemma settle_upload_done: "\<not> in_flight ph \<Longrightarrow> settle_upload parse net ph = ph"
  by (cases ph) (simp_all add: settle_upload_def in_flight_def)

text \<open>
  The handler is its two steps: what \<^verbatim>\<open>handleImageUpload\<close> does in all is what
  the started upload has done once it is settled with the network's answer.
\<close>

lemma handleImageUpload_split:
  "handleImageUpload net parse window img =
     run_so_far (settle_upload parse net (start_upload window img))"
  by (cases "build_form img")
    (simp_all add: handleImageUpload_def start_upload_def settle_upload_def run_so_far_def Let_def)

end
