(* ===== verification/Analyse_Page.thy ===== *)
theory Analyse_Page
  imports Device_Detector Upload_Client
begin

text \<open>
  The page component \<^verbatim>\<open>Analyse\<close> of \<^verbatim>\<open>page.tsx\<close> (lines 169 to 287): its two state
  variables, the capture handlers \<^verbatim>\<open>handleCapture\<close> and \<^verbatim>\<open>handleMobileFile\<close>, and
  what it renders.

  \<^item> \<open>analyse\<close> is the state: \<open>isMobileDevice\<close> and \<open>screenshot\<close> as in the source,
    the registry of object URLs of the document, and the list of the calls of
    \<^verbatim>\<open>handleImageUpload\<close> made so far, each with what it did. A \<open>screenshot\<close> is
    a string in the source; here it is either a string a child passed in or
    the object URL that \<^verbatim>\<open>createObjectURL\<close> returned.
  \<^item> \<open>browser\<close> is the environment of the page: the network, the JSON parser,
    the origin of the window (if there is a window) and the user agent.
  \<^item> \<open>page_event\<close> are the things that happen to the page: the detection effect
    runs, a child calls \<^verbatim>\<open>onCapture\<close>, the file input of the mobile branch
    changes. An event is enabled when the element that raises it is rendered.
  \<^item> The handlers do not wait for the upload: \<^verbatim>\<open>handleImageUpload\<close> is called
    without \<^verbatim>\<open>await\<close> and its result is dropped. The model records the whole run
    of the call at the moment of the capture, which is sound for what is
    proved here because the call reads nothing of the page's state and writes
    nothing to it; the theory \<open>Upload_Timing\<close> has the uploads in flight and
    shows that this page is what they amount to.
  \<^item> \<open>page_wf\<close> is the well-formedness of a state, kept by every step.
\<close>

section \<open>State, environment and events\<close>

datatype image_src = SrcString jsstring | SrcObjectURL nat

record 'j analyse =
  isMobileDevice :: "bool option"
  screenshot :: "image_src option"
  registry :: url_registry
  uploads :: "'j upload_run list"

record 'j browser =
  fetch :: "request \<Rightarrow> fetch_outcome"
  json :: "jsstring \<Rightarrow> 'j option"
  origin :: "jsstring option"
  userAgent :: "jsstring option"

datatype page_event =
    DetectEffect
  | OnCapture capture_data
  | MobileFileChange "js_file list"

datatype widget = MobileCameraWidget | MobileFileInput | DesktopCameraWidget

datatype page_view = LoadingCamera | MainView "widget list" "image_src option"

definition initial_page :: "'j analyse" where
  "initial_page =
     \<lparr>isMobileDevice = None, screenshot = None, registry = empty_registry, uploads = []\<rparr>"

section \<open>Handlers\<close>

definition detect_effect :: "'j browser \<Rightarrow> 'j analyse \<Rightarrow> 'j analyse" where
  "detect_effect env s = s\<lparr>isMobileDevice := detect (userAgent env)\<rparr>"

definition upload :: "'j browser \<Rightarrow> capture_data \<Rightarrow> 'j upload_run" where
  "upload env data = handleImageUpload (fetch env) (json env) (origin env) data"

definition handleCapture :: "'j browser \<Rightarrow> capture_data \<Rightarrow> 'j analyse \<Rightarrow> 'j analyse" where
  "handleCapture env data s =
     (case data of
        CapturedString str \<Rightarrow>
          s\<lparr>screenshot := Some (SrcString str), uploads := uploads s @ [upload env data]\<rparr>
      | CapturedBlob b \<Rightarrow>
          (let (previewUrl, reg) = createObjectURL (registry s) b
           in s\<lparr>registry := reg, screenshot := Some (SrcObjectURL previewUrl),
                 uploads := uploads s @ [upload env data]\<rparr>))"

definition handleMobileFile :: "'j browser \<Rightarrow> js_file list \<Rightarrow> 'j analyse \<Rightarrow> 'j analyse" where
  "handleMobileFile env files s =
     (case files of
        [] \<Rightarrow> s
      | file # _ \<Rightarrow>
          (let (previewUrl, reg) = createObjectURL (registry s) (FileBlob file)
           in s\<lparr>registry := reg, screenshot := Some (SrcObjectURL previewUrl),
                 uploads := uploads s @ [upload env (CapturedBlob (FileBlob file))]\<rparr>))"

section \<open>Rendering\<close>

text \<open>
  \<^verbatim>\<open>{screenshot && ...}\<close> renders the image for every value of \<^verbatim>\<open>screenshot\<close> but
  \<^verbatim>\<open>null\<close> and the empty string.
\<close>

definition shown :: "image_src option \<Rightarrow> image_src option" where
  "shown src = (case src of Some (SrcString []) \<Rightarrow> None | _ \<Rightarrow> src)"

definition render :: "'j analyse \<Rightarrow> page_view" where
  "render s =
     (case isMobileDevice s of
        None \<Rightarrow> LoadingCamera
      | Some mobile \<Rightarrow>
          MainView (if mobile then [MobileCameraWidget, MobileFileInput] else [DesktopCameraWidget])
            (shown (screenshot s)))"

definition widgets :: "page_view \<Rightarrow> widget list" where
  "widgets v = (case v of LoadingCamera \<Rightarrow> [] | MainView ws _ \<Rightarrow> ws)"

section \<open>Steps\<close>

fun page_enabled :: "'j analyse \<Rightarrow> page_event \<Rightarrow> bool" where
  "page_enabled s DetectEffect = (isMobileDevice s = None)"
| "page_enabled s (OnCapture data) =
     (MobileCameraWidget \<in> set (widgets (render s)) \<or> DesktopCameraWidget \<in> set (widgets (render s)))"
| "page_enabled s (MobileFileChange files) = (MobileFileInput \<in> set (widgets (render s)))"

fun page_fire :: "'j browser \<Rightarrow> 'j analyse \<Rightarrow> page_event \<Rightarrow> 'j analyse" where
  "page_fire env s DetectEffect = detect_effect env s"
| "page_fire env s (OnCapture data) = handleCapture env data s"
| "page_fire env s (MobileFileChange files) = handleMobileFile env files s"

definition page_step :: "'j browser \<Rightarrow> 'j analyse \<Rightarrow> page_event \<Rightarrow> 'j analyse" where
  "page_step env s e = (if page_enabled s e then page_fire env s e else s)"

fun page_run :: "'j browser \<Rightarrow> 'j analyse \<Rightarrow> page_event list \<Rightarrow> 'j analyse" where
  "page_run env s [] = s"
| "page_run env s (e # es) = page_run env (page_step env s e) es"

section \<open>What a preview resolves to\<close>

definition preview_of :: "capture_data \<Rightarrow> blob_like + jsstring" where
  "preview_of data = (case data of CapturedString str \<Rightarrow> Inr str | CapturedBlob b \<Rightarrow> Inl b)"

definition resolve_src :: "url_registry \<Rightarrow> image_src \<Rightarrow> (blob_like + jsstring) option" where
  "resolve_src reg src =
     (case src of
        SrcString str \<Rightarrow> Some (Inr str)
      | SrcObjectURL u \<Rightarrow> map_option Inl (resolve_url reg u))"

definition registry_ok :: "url_registry \<Rightarrow> bool" where
  "registry_ok reg \<longleftrightarrow> list_all (\<lambda>e. fst e < next_url reg) (url_entries reg)"

definition captures :: "page_event \<Rightarrow> nat" where
  "captures e =
     (case e of DetectEffect \<Rightarrow> 0 | OnCapture _ \<Rightarrow> 1 | MobileFileChange files \<Rightarrow> (if files = [] then 0 else 1))"

definition blob_captures :: "page_event \<Rightarrow> nat" where
  "blob_captures e =
     (case e of OnCapture (CapturedBlob _) \<Rightarrow> 1 | MobileFileChange (_ # _) \<Rightarrow> 1 | _ \<Rightarrow> 0)"

section \<open>Well-formed states\<close>

text \<open>
  What every state of the page satisfies by construction: object URLs are
  numbers below the next one and registered once, a \<^verbatim>\<open>screenshot\<close> that is an
  object URL is registered, and every call of \<^verbatim>\<open>handleImageUpload\<close> either
  rejected without a request or sent one request and wrote one console entry.
\<close>

definition run_ok :: "'j upload_run \<Rightarrow> bool" where
  "run_ok r \<longleftrightarrow>
     length (requests r) \<le> 1 \<and> length (console r) = length (requests r) \<and>
     (rejected r = None) = (requests r \<noteq> [])"

definition src_ok :: "url_registry \<Rightarrow> image_src option \<Rightarrow> bool" where
  "src_ok reg src =
     (case src of Some (SrcObjectURL u) \<Rightarrow> resolve_url reg u \<noteq> None | _ \<Rightarrow> True)"

definition page_wf :: "'j analyse \<Rightarrow> bool" where
  "page_wf s \<longleftrightarrow>
     registry_ok (registry s) \<and> distinct (map fst (url_entries (registry s))) \<and>
     src_ok (registry s) (screenshot s) \<and> list_all run_ok (uploads s)"

section \<open>Facts about the handlers\<close>

lemmas page_defs = initial_page_def detect_effect_def handleCapture_def handleMobileFile_def
  render_def widgets_def shown_def page_step_def upload_def createObjectURL_def empty_registry_def

lemma handleMobileFile_eq:
  "handleMobileFile env files s =
     (case files of [] \<Rightarrow> s | file # _ \<Rightarrow> handleCapture env (CapturedBlob (FileBlob file)) s)"
  by (simp add: handleMobileFile_def handleCapture_def split: list.splits)

text \<open>
  A step of the page is the state itself, the detection, or a capture: a
  property of all three is a property of every step.
\<close>

lemma page_step_cases:
  assumes "P s" "P (detect_effect env s)" "\<And>data. P (handleCapture env data s)"
  shows "P (page_step env s e)"
  using assms
  by (cases e) (simp_all add: page_step_def handleMobileFile_eq split: list.splits)

lemma handleCapture_sel [simp]:
  "isMobileDevice (handleCapture env data s) = isMobileDevice s"
  "uploads (handleCapture env data s) = uploads s @ [upload env data]"
  by (simp_all add: handleCapture_def createObjectURL_def split: capture_data.splits)

lemma handleCapture_string [simp]:
  "screenshot (handleCapture env (CapturedString str) s) = Some (SrcString str)"
  "registry (handleCapture env (CapturedString str) s) = registry s"
  by (simp_all add: handleCapture_def)

lemma handleCapture_blob [simp]:
  "screenshot (handleCapture env (CapturedBlob b) s) = Some (SrcObjectURL (next_url (registry s)))"
  "url_entries (registry (handleCapture env (CapturedBlob b) s)) =
     url_entries (registry s) @ [(next_url (registry s), b)]"
  "next_url (registry (handleCapture env (CapturedBlob b) s)) = Suc (next_url (registry s))"
  by (simp_all add: handleCapture_def createObjectURL_def)

lemma registry_ok_fresh: "registry_ok reg \<Longrightarrow> map_of (url_entries reg) (next_url reg) = None"
  by (auto simp: registry_ok_def list_all_iff map_of_eq_None_iff)

lemma registry_ok_handleCapture:
  "registry_ok (registry s) \<Longrightarrow> registry_ok (registry (handleCapture env data s))"
  by (cases data) (auto simp: registry_ok_def list_all_iff)

lemma resolve_kept_handleCapture:
  "resolve_url (registry s) u = Some b \<Longrightarrow>
   resolve_url (registry (handleCapture env data s)) u = Some b"
  by (cases data) (simp_all add: resolve_url_def)

lemma page_fire_mode:
  "page_enabled s e \<Longrightarrow> isMobileDevice s = Some m \<Longrightarrow> isMobileDevice (page_fire env s e) = Some m"
  by (cases e) (simp_all add: handleMobileFile_eq split: list.splits)

lemma page_step_mode: "isMobileDevice s = Some m \<Longrightarrow> isMobileDevice (page_step env s e) = Some m"
  by (simp add: page_step_def page_fire_mode)

lemma page_step_registry_ok:
  "registry_ok (registry s) \<Longrightarrow> registry_ok (registry (page_step env s e))"
  by (rule page_step_cases) (simp_all add: detect_effect_def registry_ok_handleCapture)

lemma page_step_resolve_kept:
  "resolve_url (registry s) u = Some b \<Longrightarrow> resolve_url (registry (page_step env s e)) u = Some b"
  by (rule page_step_cases) (simp_all add: detect_effect_def resolve_kept_handleCapture)

lemma page_step_uploads:
  "length (uploads (page_step env s e)) \<le> length (uploads s) + captures e"
  by (cases e)
    (simp_all add: page_step_def detect_effect_def handleMobileFile_eq captures_def
      split: list.splits)

lemma page_step_entries:
  "length (url_entries (registry (page_step env s e))) \<le>
     length (url_entries (registry s)) + blob_captures e"
proof (cases e)
  case DetectEffect
  then show ?thesis by (simp add: page_step_def detect_effect_def)
next
  case (OnCapture data)
  then show ?thesis by (cases data) (simp_all add: page_step_def blob_captures_def)
next
  case (MobileFileChange files)
  then show ?thesis
    by (cases files) (simp_all add: page_step_def handleMobileFile_eq blob_captures_def)
qed

lemma page_run_append [simp]: "page_run env s (es @ es') = page_run env (page_run env s es) es'"
  by (induction es arbitrary: s) simp_all

section \<open>Well-formedness is kept\<close>

lemma run_ok_upload [simp]: "run_ok (upload env data)"
  by (cases "build_form data")
    (simp_all add: run_ok_def upload_def handleImageUpload_def Let_def)

lemma page_wf_initial: "page_wf initial_page"
  by (simp add: page_wf_def initial_page_def empty_registry_def registry_ok_def src_ok_def)

lemma page_wf_detect_effect: "page_wf s \<Longrightarrow> page_wf (detect_effect env s)"
  by (simp add: page_wf_def detect_effect_def)

lemma page_wf_handleCapture:
  assumes "page_wf s"
  shows "page_wf (handleCapture env data s)"
proof (cases data)
  case (CapturedString str)
  with assms show ?thesis
    by (simp add: page_wf_def src_ok_def)
next
  case (CapturedBlob b)
  from assms have ok: "registry_ok (registry s)" by (simp add: page_wf_def)
  then have "next_url (registry s) \<notin> fst ` set (url_entries (registry s))"
    by (auto simp: registry_ok_def list_all_iff)
  moreover have "registry_ok (registry (handleCapture env data s))"
    using ok by (rule registry_ok_handleCapture)
  ultimately show ?thesis
    using assms CapturedBlob registry_ok_fresh [OF ok]
    by (simp add: page_wf_def src_ok_def resolve_url_def map_add_Some_iff)
qed

lemma page_wf_step: "page_wf s \<Longrightarrow> page_wf (page_step env s e)"
  by (rule page_step_cases) (simp_all add: page_wf_detect_effect page_wf_handleCapture)

lemma page_wf_run: "page_wf s \<Longrightarrow> page_wf (page_run env s es)"
  by (induction es arbitrary: s) (simp_all add: page_wf_step)

text \<open>
  (C15) Every state the page reaches from its initial state is well formed: the
  registry has fresh and distinct object URLs, the preview resolves, and each
  upload made one request with one console entry, or none with a rejection.
\<close>

theorem page_run_wf: "page_wf (page_run env initial_page es)"
  by (rule page_wf_run) (rule page_wf_initial)

theorem page_run_wf_witness:
  "page_wf (page_run \<lparr>fetch = \<lambda>_. Rejected [], json = \<lambda>_. None :: unit option,
        origin = None, userAgent = None\<rparr> initial_page
      [DetectEffect, OnCapture (CapturedString (js ''data:,'')), OnCapture (CapturedString [])])"
  by (rule page_run_wf)

section \<open>Properties of the page\<close>

text \<open>
  (C21) The mode is decided once: from a state in which \<^verbatim>\<open>isMobileDevice\<close> is set, no
  sequence of events changes it.
\<close>

theorem mode_never_reverts:
  "isMobileDevice s = Some m \<Longrightarrow> isMobileDevice (page_run env s es) = Some m"
  by (induction es arbitrary: s) (simp_all add: page_step_mode)

theorem mode_never_reverts_witness:
  "isMobileDevice (page_step \<lparr>fetch = \<lambda>_. Rejected [], json = \<lambda>_. None :: unit option,
        origin = None, userAgent = Some (js ''iPad'')\<rparr> initial_page DetectEffect) = Some True \<and>
   isMobileDevice (page_run \<lparr>fetch = \<lambda>_. Rejected [], json = \<lambda>_. None :: unit option,
        origin = None, userAgent = Some (js ''iPad'')\<rparr>
      (page_step \<lparr>fetch = \<lambda>_. Rejected [], json = \<lambda>_. None :: unit option,
        origin = None, userAgent = Some (js ''iPad'')\<rparr> initial_page DetectEffect)
      [DetectEffect, MobileFileChange []]) = Some True"
proof -
  let ?env = "\<lparr>fetch = \<lambda>_. Rejected [], json = \<lambda>_. None :: unit option,
        origin = None, userAgent = Some (js ''iPad'')\<rparr>"
  have m: "isMobileDevice (page_step ?env initial_page DetectEffect) = Some True"
    by (simp add: page_step_def detect_effect_def initial_page_def detect_eq mobile_regex_test_def
        js_simps canonicalize_def)
  show ?thesis
    by (rule conjI [OF m mode_never_reverts [OF m]])
qed

text \<open>
  The page shows the loading text exactly while the mode is undecided, and
  afterwards the widgets of exactly one branch: the camera and the file input of
  the mobile branch, or the desktop component.
\<close>

lemma render_branches:
  "(render s = LoadingCamera \<longleftrightarrow> isMobileDevice s = None) \<and>
   (widgets (render s) = [MobileCameraWidget, MobileFileInput] \<longleftrightarrow> isMobileDevice s = Some True) \<and>
   (widgets (render s) = [DesktopCameraWidget] \<longleftrightarrow> isMobileDevice s = Some False)"
  by (cases "isMobileDevice s") (simp_all add: render_def widgets_def)

text \<open>
  (C17) A capture always shows: after \<^verbatim>\<open>handleCapture\<close> the \<^verbatim>\<open>screenshot\<close> resolves to the
  image just captured (the string itself, or the blob behind the new object
  URL), for every network and parser: no outcome of the upload keeps the
  preview from the user.
\<close>

theorem handleCapture_preview:
  assumes "registry_ok (registry s)"
  shows "Option.bind (screenshot (handleCapture env data s))
           (resolve_src (registry (handleCapture env data s))) = Some (preview_of data)"
proof (cases data)
  case (CapturedString str)
  then show ?thesis by (simp add: resolve_src_def preview_of_def)
next
  case (CapturedBlob b)
  with registry_ok_fresh [OF assms] show ?thesis
    by (simp add: resolve_src_def preview_of_def resolve_url_def map_add_Some_iff)
qed

theorem handleCapture_preview_witness:
  "registry_ok (registry (initial_page :: unit analyse)) \<and>
   Option.bind (screenshot (handleCapture \<lparr>fetch = \<lambda>_. Responded \<lparr>status = 500, body = BodyText (js ''server error'')\<rparr>,
          json = \<lambda>_. None :: unit option, origin = None, userAgent = None\<rparr>
        (CapturedString (js ''data:image/jpeg;base64,QUJD'')) initial_page))
     (resolve_src (registry (handleCapture \<lparr>fetch = \<lambda>_. Responded \<lparr>status = 500, body = BodyText (js ''server error'')\<rparr>,
          json = \<lambda>_. None :: unit option, origin = None, userAgent = None\<rparr>
        (CapturedString (js ''data:image/jpeg;base64,QUJD'')) initial_page))) =
     Some (Inr (js ''data:image/jpeg;base64,QUJD''))"
  using handleCapture_preview [of "initial_page :: unit analyse"
      "\<lparr>fetch = \<lambda>_. Responded \<lparr>status = 500, body = BodyText (js ''server error'')\<rparr>,
          json = \<lambda>_. None :: unit option, origin = None, userAgent = None\<rparr>"
      "CapturedString (js ''data:image/jpeg;base64,QUJD'')"]
  by (simp add: registry_ok_def initial_page_def empty_registry_def preview_of_def)

text \<open>
  (C28) One upload per capture: a sequence of events starts at most as many calls of
  \<^verbatim>\<open>handleImageUpload\<close> as it has captures, and each call sends at most one
  request; nothing is retried.
\<close>

theorem one_upload_per_capture:
  "length (uploads (page_run env s es)) \<le> length (uploads s) + sum_list (map captures es)"
proof (induction es arbitrary: s)
  case Nil
  then show ?case by simp
next
  case (Cons e es)
  have "length (uploads (page_run env (page_step env s e) es)) \<le>
      length (uploads (page_step env s e)) + sum_list (map captures es)"
    by (rule Cons.IH)
  with page_step_uploads [of env s e] show ?case by simp
qed

text \<open>
  (C7) Object URLs are never released: an object URL that resolves to a blob in
  some state of the page resolves to the same blob after every further sequence
  of events, so every blob ever captured stays alive while the page is open.
\<close>

theorem object_urls_never_released:
  "resolve_url (registry s) u = Some b \<Longrightarrow> resolve_url (registry (page_run env s es)) u = Some b"
  by (induction es arbitrary: s) (simp_all add: page_step_resolve_kept)

theorem object_urls_never_released_witness:
  "resolve_url (registry (page_run \<lparr>fetch = \<lambda>_. Rejected [], json = \<lambda>_. None :: unit option,
        origin = None, userAgent = None\<rparr> initial_page
        [DetectEffect, OnCapture (CapturedBlob (PlainBlob \<lparr>blob_bytes = [1], blob_type = []\<rparr>))])) 0 =
     Some (PlainBlob \<lparr>blob_bytes = [1], blob_type = []\<rparr>) \<and>
   resolve_url (registry (page_run \<lparr>fetch = \<lambda>_. Rejected [], json = \<lambda>_. None :: unit option,
        origin = None, userAgent = None\<rparr>
      (page_run \<lparr>fetch = \<lambda>_. Rejected [], json = \<lambda>_. None :: unit option,
        origin = None, userAgent = None\<rparr> initial_page
        [DetectEffect, OnCapture (CapturedBlob (PlainBlob \<lparr>blob_bytes = [1], blob_type = []\<rparr>))])
      [OnCapture (CapturedBlob (PlainBlob \<lparr>blob_bytes = [2], blob_type = []\<rparr>))])) 0 =
     Some (PlainBlob \<lparr>blob_bytes = [1], blob_type = []\<rparr>)"
proof -
  let ?env = "\<lparr>fetch = \<lambda>_. Rejected [], json = \<lambda>_. None :: unit option,
        origin = None, userAgent = None\<rparr>"
  let ?s = "page_run ?env initial_page
        [DetectEffect, OnCapture (CapturedBlob (PlainBlob \<lparr>blob_bytes = [1], blob_type = []\<rparr>))]"
  have r: "resolve_url (registry ?s) 0 = Some (PlainBlob \<lparr>blob_bytes = [1], blob_type = []\<rparr>)"
    by (simp add: page_defs resolve_url_def detect_eq)
  show ?thesis
    by (rule conjI [OF r object_urls_never_released [OF r]])
qed

text \<open>
  The registry grows by one entry with every captured blob or file and never
  shrinks: after a sequence of events it holds exactly the entries it held
  before and one for each such capture that was enabled.
\<close>

lemma registry_growth:
  "length (url_entries (registry s)) \<le> length (url_entries (registry (page_run env s es))) \<and>
   length (url_entries (registry (page_run env s es))) \<le>
     length (url_entries (registry s)) + sum_list (map blob_captures es)"
proof (induction es arbitrary: s)
  case Nil
  then show ?case by simp
next
  case (Cons e es)
  have "length (url_entries (registry s)) \<le> length (url_entries (registry (page_step env s e)))"
    by (cases e)
      (auto simp: page_step_def detect_effect_def handleMobileFile_eq handleCapture_def
        createObjectURL_def split: list.splits capture_data.splits)
  with Cons.IH [of "page_step env s e"] page_step_entries [of env s e] show ?case
    by simp
qed

text \<open>
  (C29) Last capture wins: after two captures in a row the \<^verbatim>\<open>screenshot\<close> is the
  preview of the second, and the object URL of the first, if it had one, still
  resolves.
\<close>

theorem second_capture_wins:
  assumes "isMobileDevice s \<noteq> None" "registry_ok (registry s)"
  shows "Option.bind (screenshot (page_run env s [OnCapture d1, OnCapture d2]))
           (resolve_src (registry (page_run env s [OnCapture d1, OnCapture d2]))) =
         Some (preview_of d2)"
proof -
  from assms(1) obtain m where m: "isMobileDevice s = Some m" by auto
  then have e1: "page_step env s (OnCapture d1) = handleCapture env d1 s"
    by (cases m) (simp_all add: page_step_def render_def widgets_def)
  from m have "isMobileDevice (handleCapture env d1 s) = Some m" by simp
  then have e2: "page_step env (handleCapture env d1 s) (OnCapture d2) =
      handleCapture env d2 (handleCapture env d1 s)"
    by (cases m) (simp_all add: page_step_def render_def widgets_def)
  have "registry_ok (registry (handleCapture env d1 s))"
    using assms(2) by (rule registry_ok_handleCapture)
  then show ?thesis
    by (simp add: e1 e2 handleCapture_preview)
qed

theorem second_capture_wins_witness:
  "isMobileDevice (detect_effect \<lparr>fetch = \<lambda>_. Rejected [], json = \<lambda>_. None :: unit option,
        origin = None, userAgent = None\<rparr> initial_page) \<noteq> None \<and>
   Option.bind (screenshot (page_run \<lparr>fetch = \<lambda>_. Rejected [], json = \<lambda>_. None :: unit option,
        origin = None, userAgent = None\<rparr>
      (detect_effect \<lparr>fetch = \<lambda>_. Rejected [], json = \<lambda>_. None :: unit option,
        origin = None, userAgent = None\<rparr> initial_page)
      [OnCapture (CapturedString (js ''first'')), OnCapture (CapturedString (js ''second''))]))
     (resolve_src (registry (page_run \<lparr>fetch = \<lambda>_. Rejected [], json = \<lambda>_. None :: unit option,
        origin = None, userAgent = None\<rparr>
      (detect_effect \<lparr>fetch = \<lambda>_. Rejected [], json = \<lambda>_. None :: unit option,
        origin = None, userAgent = None\<rparr> initial_page)
      [OnCapture (CapturedString (js ''first'')), OnCapture (CapturedString (js ''second''))]))) =
     Some (Inr (js ''second''))"
  using second_capture_wins [of "detect_effect \<lparr>fetch = \<lambda>_. Rejected [], json = \<lambda>_. None :: unit option,
        origin = None, userAgent = None\<rparr> initial_page"
      "\<lparr>fetch = \<lambda>_. Rejected [], json = \<lambda>_. None :: unit option, origin = None, userAgent = None\<rparr>"
      "CapturedString (js ''first'')" "CapturedString (js ''second'')"]
  by (simp add: detect_effect_def initial_page_def detect_eq registry_ok_def empty_registry_def
      preview_of_def)

lemma page_step_mode_kept:
  "e \<noteq> DetectEffect \<Longrightarrow> isMobileDevice (page_step env s e) = isMobileDevice s"
  by (cases e) (simp_all add: page_step_def handleMobileFile_eq split: list.splits)

lemma detect_effect_decided: "isMobileDevice (detect_effect env s) \<noteq> None"
  by (simp add: detect_effect_def detect_eq)

declare page_wf_step [capture_inv] page_wf_detect_effect [capture_inv]
  page_wf_handleCapture [capture_inv]

end
