(* ===== verification/Normalize_Spec.thy ===== *)
theory Normalize_Spec
  imports Upload_Client
begin

text \<open>
  The image normalizer as the design document states it, and how the code
  relates to it. The design's normalizer maps a captured image, a tagged
  variant of three shapes, to a payload of bytes, type and file name, or fails
  with \<open>MalformedDataUri\<close>; for a data URI it splits at the first comma, requires
  the prefix \<^verbatim>\<open>data:<mime>;base64\<close> and decodes the rest. \<open>normalize_spec\<close> is that
  function, with the decoding read strictly (the rest is the RFC 4648 encoding
  of the bytes). The code has no such function: what it normalises to is the
  file field that \<open>build_form\<close> puts into the form, read off by \<open>normalize\<close>.

  Shown: \<^verbatim>\<open>base64ToBlob\<close> refines the design on data URIs; files agree exactly;
  and two places where the code does something else than the design.
\<close>

section \<open>The design's normalizer\<close>

datatype captured_image = DataUri jsstring | BinaryObject js_blob | FileRef js_file

record payload =
  bytes :: "byte list"
  mimeType :: jsstring
  suggestedFilename :: jsstring

definition first_comma :: "jsstring \<Rightarrow> (jsstring \<times> jsstring) option" where
  "first_comma u =
     (if chr_comma \<in> set u
      then Some (takeWhile (\<lambda>c. c \<noteq> chr_comma) u, tl (dropWhile (\<lambda>c. c \<noteq> chr_comma) u))
      else None)"

definition prefix_mime :: "jsstring \<Rightarrow> jsstring option" where
  "prefix_mime pre =
     (let mime = drop 5 (take (length pre - 7) pre)
      in if pre = js ''data:'' @ mime @ js '';base64'' \<and> chr_semicolon \<notin> set mime
         then Some mime else None)"

definition strict_base64_decode :: "jsstring \<Rightarrow> byte list option" where
  "strict_base64_decode p =
     (case forgiving_base64_decode p of
        None \<Rightarrow> None
      | Some bs \<Rightarrow> if base64_encode bs = p then Some bs else None)"

definition normalize_spec :: "captured_image \<Rightarrow> failure + payload" where
  "normalize_spec c =
     (case c of
        DataUri u \<Rightarrow>
          (case first_comma u of
             None \<Rightarrow> Inl MalformedDataUri
           | Some (pre, rest) \<Rightarrow>
               (case prefix_mime pre of
                  None \<Rightarrow> Inl MalformedDataUri
                | Some mime \<Rightarrow>
                    (case strict_base64_decode rest of
                       None \<Rightarrow> Inl MalformedDataUri
                     | Some bs \<Rightarrow>
                         Inr \<lparr>bytes = bs, mimeType = mime, suggestedFilename = js ''captured.jpg''\<rparr>)))
      | BinaryObject b \<Rightarrow>
          Inr \<lparr>bytes = blob_bytes b, mimeType = blob_type b, suggestedFilename = js ''captured.jpg''\<rparr>
      | FileRef f \<Rightarrow>
          Inr \<lparr>bytes = blob_bytes f, mimeType = blob_type f, suggestedFilename = file_name f\<rparr>)"

section \<open>What the code normalises to\<close>

definition tagged :: "capture_data \<Rightarrow> captured_image option" where
  "tagged img =
     (case img of
        CapturedString str \<Rightarrow> if startsWith str (js ''data:'') then Some (DataUri str) else None
      | CapturedBlob (PlainBlob b) \<Rightarrow> Some (BinaryObject b)
      | CapturedBlob (FileBlob f) \<Rightarrow> Some (FileRef f))"

definition payload_of :: "form_data \<Rightarrow> payload option" where
  "payload_of fd =
     (case fd of
        [(name, FormFile f)] \<Rightarrow>
          if name = js ''image''
          then Some \<lparr>bytes = blob_bytes f, mimeType = blob_type f, suggestedFilename = file_name f\<rparr>
          else None
      | _ \<Rightarrow> None)"

definition normalize :: "capture_data \<Rightarrow> (js_error + payload) option" where
  "normalize img =
     (case build_form img of
        Inl e \<Rightarrow> Some (Inl e)
      | Inr fd \<Rightarrow> map_option Inr (payload_of fd))"

definition free_of_terminators :: "jsstring \<Rightarrow> bool" where
  "free_of_terminators s = list_all (\<lambda>c. \<not> is_line_terminator c) s"

section \<open>The design on data URIs\<close>

lemma first_comma_Some:
  "first_comma u = Some (pre, rest) \<longleftrightarrow> u = pre @ chr_comma # rest \<and> chr_comma \<notin> set pre"
proof
  assume "first_comma u = Some (pre, rest)"
  then have c: "chr_comma \<in> set u" and p: "pre = takeWhile (\<lambda>c. c \<noteq> chr_comma) u"
    and r: "rest = tl (dropWhile (\<lambda>c. c \<noteq> chr_comma) u)"
    by (auto simp: first_comma_def split: if_splits)
  from takeWhile_neq_hit [OF c] p r have "u = pre @ chr_comma # rest" by simp
  moreover from p have "chr_comma \<notin> set pre"
    by (auto dest: set_takeWhileD)
  ultimately show "u = pre @ chr_comma # rest \<and> chr_comma \<notin> set pre" by simp
next
  assume "u = pre @ chr_comma # rest \<and> chr_comma \<notin> set pre"
  then show "first_comma u = Some (pre, rest)"
    by (simp add: first_comma_def takeWhile_neq_append dropWhile_neq_append)
qed

lemma prefix_mime_Some:
  "prefix_mime pre = Some mime \<longleftrightarrow>
     pre = js ''data:'' @ mime @ js '';base64'' \<and> chr_semicolon \<notin> set mime"
  by (auto simp: prefix_mime_def Let_def)

lemma strict_base64_decode_Some:
  "strict_base64_decode p = Some bs \<longleftrightarrow> p = base64_encode bs"
  by (auto simp: strict_base64_decode_def forgiving_decode_encode split: option.splits)

lemma normalize_spec_DataUri:
  "normalize_spec (DataUri u) = Inr p \<longleftrightarrow>
     u = toDataURL (mimeType p) (bytes p) \<and> chr_comma \<notin> set (mimeType p) \<and>
     chr_semicolon \<notin> set (mimeType p) \<and> suggestedFilename p = js ''captured.jpg''"
proof
  assume "normalize_spec (DataUri u) = Inr p"
  then obtain pre rest mime bs where c: "first_comma u = Some (pre, rest)"
      and m: "prefix_mime pre = Some mime" and d: "strict_base64_decode rest = Some bs"
      and p: "p = \<lparr>bytes = bs, mimeType = mime, suggestedFilename = js ''captured.jpg''\<rparr>"
    by (auto simp: normalize_spec_def split: option.splits prod.splits)
  from c m d have "u = toDataURL mime bs" "chr_comma \<notin> set mime" "chr_semicolon \<notin> set mime"
    by (auto simp: first_comma_Some prefix_mime_Some strict_base64_decode_Some toDataURL_def
        js_simps)
  with p show "u = toDataURL (mimeType p) (bytes p) \<and> chr_comma \<notin> set (mimeType p) \<and>
     chr_semicolon \<notin> set (mimeType p) \<and> suggestedFilename p = js ''captured.jpg''"
    by simp
next
  assume a: "u = toDataURL (mimeType p) (bytes p) \<and> chr_comma \<notin> set (mimeType p) \<and>
     chr_semicolon \<notin> set (mimeType p) \<and> suggestedFilename p = js ''captured.jpg''"
  let ?pre = "js ''data:'' @ mimeType p @ js '';base64''"
  from a have "u = ?pre @ chr_comma # base64_encode (bytes p)" "chr_comma \<notin> set ?pre"
    by (simp_all add: toDataURL_def js_simps)
  then have "first_comma u = Some (?pre, base64_encode (bytes p))"
    by (simp only: first_comma_Some) simp
  moreover from a have "prefix_mime ?pre = Some (mimeType p)"
    by (simp only: prefix_mime_Some) simp
  moreover have "strict_base64_decode (base64_encode (bytes p)) = Some (bytes p)"
    by (simp add: strict_base64_decode_Some)
  ultimately show "normalize_spec (DataUri u) = Inr p"
    using a by (simp add: normalize_spec_def)
qed

text \<open>
  (C12) \<^verbatim>\<open>base64ToBlob\<close> implements the normalizer of the design for data URIs:
  whenever the design's normalizer accepts a data URI, with a type free of line
  terminators, \<^verbatim>\<open>base64ToBlob\<close> returns a blob with exactly the payload's bytes and
  with the payload's type as the \<^verbatim>\<open>Blob\<close> constructor normalises it. So where the
  code raises on such an input the design fails as well: the code accepts at
  least what the design accepts.
\<close>

theorem base64ToBlob_refines_normalize:
  assumes "normalize_spec (DataUri u) = Inr p" "free_of_terminators (mimeType p)"
  shows "base64ToBlob u = Inr (new_Blob (bytes p) (mimeType p))"
proof -
  from assms(1) have u: "u = toDataURL (mimeType p) (bytes p)"
    and m: "chr_comma \<notin> set (mimeType p)" "chr_semicolon \<notin> set (mimeType p)"
    by (simp_all add: normalize_spec_DataUri)
  from assms(2) have "\<forall>c \<in> set (mimeType p). \<not> is_line_terminator c"
    by (simp add: free_of_terminators_def list_all_iff)
  with m show ?thesis
    unfolding u by (rule base64ToBlob_data_uri)
qed

theorem base64ToBlob_refines_normalize_witness:
  "normalize_spec (DataUri (js ''data:image/PNG;base64,QUJD'')) =
     Inr \<lparr>bytes = [0x41, 0x42, 0x43], mimeType = js ''image/PNG'',
          suggestedFilename = js ''captured.jpg''\<rparr> \<and>
   free_of_terminators (js ''image/PNG'') \<and>
   base64ToBlob (js ''data:image/PNG;base64,QUJD'') =
     Inr \<lparr>blob_bytes = [0x41, 0x42, 0x43], blob_type = js ''image/png''\<rparr>"
proof -
  let ?p = "\<lparr>bytes = [0x41, 0x42, 0x43], mimeType = js ''image/PNG'',
             suggestedFilename = js ''captured.jpg''\<rparr>"
  have e: "js ''data:image/PNG;base64,QUJD'' = toDataURL (js ''image/PNG'') [0x41, 0x42, 0x43]"
    by (simp add: toDataURL_def base64_encode_def b64_char_def b64_alphabet_def js_simps)
  have n: "normalize_spec (DataUri (js ''data:image/PNG;base64,QUJD'')) = Inr ?p"
    unfolding normalize_spec_DataUri using e by (simp add: js_simps)
  have f: "free_of_terminators (mimeType ?p)"
    by (simp add: free_of_terminators_def is_line_terminator_def js_simps)
  have t: "normalize_type (js ''image/PNG'') = js ''image/png''"
    by (simp add: normalize_type_def printable_ascii_def ascii_lowercase_def js_simps)
  from n f base64ToBlob_refines_normalize [OF n f] t show ?thesis
    by (simp add: new_Blob_def)
qed

section \<open>Files and blobs\<close>

lemma normalize_file:
  "normalize (CapturedBlob (FileBlob f)) =
     Some (Inr \<lparr>bytes = blob_bytes f, mimeType = blob_type f, suggestedFilename = file_name f\<rparr>)"
  by (simp add: normalize_def payload_of_def form_file_def)

text \<open>
  A picked file is normalised as the design says: the code and the design give
  the same payload, with the file's own bytes, type and name.
\<close>

lemma normalize_file_agrees:
  "map_option (map_sum (\<lambda>_. MalformedDataUri) id) (normalize (CapturedBlob (FileBlob f))) =
     map_option normalize_spec (tagged (CapturedBlob (FileBlob f)))"
  by (simp add: normalize_file normalize_spec_def tagged_def)

section \<open>Where the code departs from the design\<close>

text \<open>
  A plain blob is sent under the name \<^verbatim>\<open>blob\<close>, where the design says
  \<^verbatim>\<open>captured.jpg\<close>.
\<close>

lemma normalize_plain_blob:
  "normalize (CapturedBlob (PlainBlob b)) =
     Some (Inr \<lparr>bytes = blob_bytes b, mimeType = blob_type b, suggestedFilename = js ''blob''\<rparr>)"
  "normalize_spec (BinaryObject b) =
     Inr \<lparr>bytes = blob_bytes b, mimeType = blob_type b, suggestedFilename = js ''captured.jpg''\<rparr>"
  by (simp_all add: normalize_def payload_of_def form_file_def normalize_spec_def)

text \<open>
  The marker \<^verbatim>\<open>;base64\<close> is not checked: a data URI whose payload is not declared
  as base64 is decoded as base64 all the same, where the design fails.
\<close>

lemma base64ToBlob_ignores_marker:
  "base64ToBlob (js ''data:text/plain;charset=utf-8,QUJD'') =
     Inr \<lparr>blob_bytes = [0x41, 0x42, 0x43], blob_type = js ''text/plain''\<rparr>"
  "normalize_spec (DataUri (js ''data:text/plain;charset=utf-8,QUJD'')) = Inl MalformedDataUri"
proof -
  have s: "js ''data:text/plain;charset=utf-8,QUJD'' =
      js ''data:text/plain;charset=utf-8'' @ chr_comma # js ''QUJD''"
    by (simp add: js_simps)
  have c: "chr_comma \<notin> set (js ''data:text/plain;charset=utf-8'')" "chr_comma \<notin> set (js ''QUJD'')"
    by (simp_all add: js_simps)
  have "split_js chr_comma (js ''data:text/plain;charset=utf-8'' @ chr_comma # js ''QUJD'') =
      [js ''data:text/plain;charset=utf-8'', js ''QUJD'']"
    by (simp add: split_js_append [OF c(1)] split_js_no_sep [OF c(2)])
  moreover have "match_mime (js ''data'' @ chr_colon # js ''text/plain'' @ chr_semicolon # js ''charset=utf-8'') =
      Some (js ''text/plain'')"
    by (rule match_mime_first_colon) (simp_all add: js_simps is_line_terminator_def)
  then have "match_mime (js ''data:text/plain;charset=utf-8'') = Some (js ''text/plain'')"
    by (simp add: js_simps)
  moreover have "normalize_type (js ''text/plain'') = js ''text/plain''"
    by (simp add: normalize_type_def printable_ascii_def ascii_lowercase_def js_simps)
  moreover have "map ucast (js ''ABC'') = [0x41, 0x42, 0x43 :: byte]"
    by (simp add: js_simps)
  ultimately show "base64ToBlob (js ''data:text/plain;charset=utf-8,QUJD'') =
     Inr \<lparr>blob_bytes = [0x41, 0x42, 0x43], blob_type = js ''text/plain''\<rparr>"
    unfolding s by (simp add: base64ToBlob_parts atob_example new_Blob_def)
  have "first_comma (js ''data:text/plain;charset=utf-8'' @ chr_comma # js ''QUJD'') =
      Some (js ''data:text/plain;charset=utf-8'', js ''QUJD'')"
    unfolding first_comma_Some using c(1) by simp
  moreover have "prefix_mime (js ''data:text/plain;charset=utf-8'') = None"
    by (simp add: prefix_mime_def js_simps)
  ultimately show "normalize_spec (DataUri (js ''data:text/plain;charset=utf-8,QUJD'')) =
      Inl MalformedDataUri"
    unfolding s by (simp add: normalize_spec_def)
qed

end
