(* ===== verification/Upload_Timing.thy ===== *)
theory Upload_Timing
  imports Analyse_Page
begin

text \<open>
  The page with its uploads in flight. \<^verbatim>\<open>handleCapture\<close> calls \<^verbatim>\<open>handleImageUpload\<close>
  without waiting for it, so a second capture can happen while the request of
  the first is on its way, and the answers can arrive in any order.

  \<open>timed\<close> pairs the state of the page with the phase of each upload made so far.
  A page event starts the uploads that \<open>started\<close> names, in the phase
  \<open>start_upload\<close> leaves them in; the event \<open>FetchSettled k\<close> is the answer of the
  network to upload \<open>k\<close>. The network is the function \<open>fetch\<close> of the environment:
  what it answers to a request is fixed, when it answers is not.

  \<open>Analyse_Page\<close> records each upload whole at the moment of the capture. The
  theorems here justify that: the recorded run is what the upload will have done
  once settled (\<open>consistent\<close>), whatever happens in between.
\<close>

section \<open>State and steps\<close>

record 'j timed =
  page :: "'j analyse"
  phases :: "'j upload_phase list"

datatype timed_event = PageEvent page_event | FetchSettled nat

definition initial_timed :: "'j timed" where
  "initial_timed = \<lparr>page = initial_page, phases = []\<rparr>"

definition started :: "'j browser \<Rightarrow> 'j analyse \<Rightarrow> page_event \<Rightarrow> 'j upload_phase list" where
  "started env s e =
     (if page_enabled s e
      then (case e of
              DetectEffect \<Rightarrow> []
            | OnCapture data \<Rightarrow> [start_upload (origin env) data]
            | MobileFileChange files \<Rightarrow>
                (case files of
                   [] \<Rightarrow> []
                 | file # _ \<Rightarrow> [start_upload (origin env) (CapturedBlob (FileBlob file))]))
      else [])"

definition settle_at :: "'j browser \<Rightarrow> nat \<Rightarrow> 'j upload_phase list \<Rightarrow> 'j upload_phase list" where
  "settle_at env k phs =
     (if k < length phs then phs[k := settle_upload (json env) (fetch env) (phs ! k)] else phs)"

fun timed_step :: "'j browser \<Rightarrow> 'j timed \<Rightarrow> timed_event \<Rightarrow> 'j timed" where
  "timed_step env t (PageEvent e) =
     \<lparr>page = page_step env (page t) e, phases = phases t @ started env (page t) e\<rparr>"
| "timed_step env t (FetchSettled k) = t\<lparr>phases := settle_at env k (phases t)\<rparr>"

fun timed_run :: "'j browser \<Rightarrow> 'j timed \<Rightarrow> timed_event list \<Rightarrow> 'j timed" where
  "timed_run env t [] = t"
| "timed_run env t (e # es) = timed_run env (timed_step env t e) es"

definition eventual :: "'j browser \<Rightarrow> 'j upload_phase \<Rightarrow> 'j upload_run" where
  "eventual env ph = run_so_far (settle_upload (json env) (fetch env) ph)"

definition consistent :: "'j browser \<Rightarrow> 'j timed \<Rightarrow> bool" where
  "consistent env t \<longleftrightarrow> map (eventual env) (phases t) = uploads (page t)"

fun page_events :: "timed_event list \<Rightarrow> page_event list" where
  "page_events [] = []"
| "page_events (PageEvent e # es) = e # page_events es"
| "page_events (FetchSettled k # es) = page_events es"

definition quiet :: "'j timed \<Rightarrow> bool" where
  "quiet t = list_all (\<lambda>ph. \<not> in_flight ph) (phases t)"

definition answers :: "nat list \<Rightarrow> timed_event list" where
  "answers ks = map FetchSettled ks"

section \<open>The recorded run is the eventual run\<close>

lemma eventual_start [simp]: "eventual env (start_upload (origin env) data) = upload env data"
  by (simp add: eventual_def upload_def handleImageUpload_split)

lemma eventual_settle [simp]:
  "eventual env (settle_upload (json env) (fetch env) ph) = eventual env ph"
  by (simp add: eventual_def)

lemma uploads_page_step:
  "uploads (page_step env s e) = uploads s @ map (eventual env) (started env s e)"
  by (cases e)
    (simp_all add: page_step_def started_def detect_effect_def handleMobileFile_eq
      split: list.splits)

lemma map_eventual_settle_at [simp]:
  "map (eventual env) (settle_at env k phs) = map (eventual env) phs"
  by (simp add: settle_at_def map_update list_update_same_conv)

lemma consistent_step: "consistent env t \<Longrightarrow> consistent env (timed_step env t e)"
  by (cases e) (simp_all add: consistent_def uploads_page_step)

lemma page_timed_step:
  "page (timed_step env t e) = page_run env (page t) (page_events [e])"
  by (cases e) simp_all

lemma page_events_Cons: "page_events (e # es) = page_events [e] @ page_events es"
  by (cases e) simp_all

lemma page_timed_run: "page (timed_run env t es) = page_run env (page t) (page_events es)"
proof (induction es arbitrary: t)
  case Nil
  then show ?case by simp
next
  case (Cons e es)
  then show ?case
    by (subst page_events_Cons) (simp add: page_timed_step)
qed

lemma consistent_run: "consistent env t \<Longrightarrow> consistent env (timed_run env t es)"
  by (induction es arbitrary: t) (simp_all add: consistent_step)

text \<open>
  The page with uploads in flight refines the page that records each upload
  whole: after any sequence of page events and network answers, in any order,
  the state of the page is the one the page events alone lead to, and each
  upload, once settled, will have done exactly what is recorded for it there.
\<close>

lemma timed_refines_page:
  "page (timed_run env initial_timed es) = page_run env initial_page (page_events es) \<and>
   map (eventual env) (phases (timed_run env initial_timed es)) =
     uploads (page_run env initial_page (page_events es))"
proof -
  have "consistent env (timed_run env initial_timed es)"
    by (rule consistent_run) (simp add: consistent_def initial_timed_def initial_page_def)
  then show ?thesis
    by (simp add: consistent_def page_timed_run initial_timed_def)
qed


lemma length_settle_at [simp]: "length (settle_at env k phs) = length phs"
  by (simp add: settle_at_def)

lemma nth_settle_at:
  "i < length phs \<Longrightarrow>
   settle_at env k phs ! i =
     (if i = k then settle_upload (json env) (fetch env) (phs ! i) else phs ! i)"
  by (simp add: settle_at_def nth_list_update)

lemma answers_run:
  "page (timed_run env t (answers ks)) = page t \<and>
   length (phases (timed_run env t (answers ks))) = length (phases t) \<and>
   (\<forall>i < length (phases t).
      phases (timed_run env t (answers ks)) ! i =
        (if i \<in> set ks then settle_upload (json env) (fetch env) (phases t ! i) else phases t ! i))"
proof (induction ks arbitrary: t)
  case Nil
  then show ?case by (simp add: answers_def)
next
  case (Cons k ks)
  let ?t = "t\<lparr>phases := settle_at env k (phases t)\<rparr>"
  from Cons [of ?t] show ?case
    by (auto simp: answers_def nth_settle_at)
qed

text \<open>
  Every upload settles, whatever the order of the answers: once the network
  has answered every request, no upload is in flight, each has done exactly
  what the page recorded for it, and the answers have changed nothing else of
  the page, the preview included.
\<close>

lemma every_upload_settles:
  assumes "consistent env t" "\<forall>i < length (phases t). i \<in> set ks"
  shows "quiet (timed_run env t (answers ks)) \<and>
         map run_so_far (phases (timed_run env t (answers ks))) = uploads (page t) \<and>
         page (timed_run env t (answers ks)) = page t"
proof -
  note r = answers_run [of env t ks]
  let ?t = "timed_run env t (answers ks)"
  from r assms(2) have n: "\<forall>i < length (phases t).
      phases ?t ! i = settle_upload (json env) (fetch env) (phases t ! i)"
    by simp
  with r have "quiet ?t"
    by (simp add: quiet_def list_all_length)
  moreover from r n have "map run_so_far (phases ?t) = map (eventual env) (phases t)"
    by (intro nth_equalityI) (simp_all add: eventual_def)
  ultimately show ?thesis
    using assms(1) r by (simp add: consistent_def)
qed

lemma every_upload_settles_witness:
  "consistent \<lparr>fetch = \<lambda>_. Responded \<lparr>status = 500, body = BodyText (js ''server error'')\<rparr>,
        json = \<lambda>_. None :: unit option, origin = None, userAgent = None\<rparr>
     (timed_run \<lparr>fetch = \<lambda>_. Responded \<lparr>status = 500, body = BodyText (js ''server error'')\<rparr>,
        json = \<lambda>_. None :: unit option, origin = None, userAgent = None\<rparr> initial_timed
        [PageEvent DetectEffect, PageEvent (OnCapture (CapturedString (js ''first''))),
         PageEvent (OnCapture (CapturedString (js ''second'')))]) \<and>
   quiet (timed_run \<lparr>fetch = \<lambda>_. Responded \<lparr>status = 500, body = BodyText (js ''server error'')\<rparr>,
        json = \<lambda>_. None :: unit option, origin = None, userAgent = None\<rparr>
     (timed_run \<lparr>fetch = \<lambda>_. Responded \<lparr>status = 500, body = BodyText (js ''server error'')\<rparr>,
        json = \<lambda>_. None :: unit option, origin = None, userAgent = None\<rparr> initial_timed
        [PageEvent DetectEffect, PageEvent (OnCapture (CapturedString (js ''first''))),
         PageEvent (OnCapture (CapturedString (js ''second'')))])
     (answers [1, 0]))"
proof -
  let ?env = "\<lparr>fetch = \<lambda>_. Responded \<lparr>status = 500, body = BodyText (js ''server error'')\<rparr>,
        json = \<lambda>_. None :: unit option, origin = None, userAgent = None\<rparr>"
  let ?t = "timed_run ?env initial_timed
        [PageEvent DetectEffect, PageEvent (OnCapture (CapturedString (js ''first''))),
         PageEvent (OnCapture (CapturedString (js ''second'')))]"
  have c: "consistent ?env ?t"
    by (rule consistent_run) (simp add: consistent_def initial_timed_def initial_page_def)
  have "length (phases ?t) = 2"
    by (simp add: initial_timed_def started_def page_defs detect_eq)
  then have k: "\<forall>i < length (phases ?t). i \<in> set [1, 0]"
    by (simp add: less_Suc_eq numeral_2_eq_2)
  from c every_upload_settles [OF c k] show ?thesis
    by simp
qed

end
