(* ===== verification/Spec2Isabelle.thy ===== *)
theory Spec2Isabelle
  imports Mobile_Camera Desktop_Camera Analyse_Page Normalize_Spec Upload_Timing
begin

text \<open>
  \<^bold>\<open>A verification development for the fridge-photo capture page\<close>

  The program is one React client component, \<^verbatim>\<open>src/frontend/app/analyse/page.tsx\<close>.
  It decides from the user agent whether the device is a phone, shows a camera
  for that kind of device together with a file input, and for every captured
  image shows a preview and posts the image to \<^verbatim>\<open>/api/upload\<close>. It has four parts:
  the function \<^verbatim>\<open>base64ToBlob\<close> and the components \<^verbatim>\<open>MobileCamera\<close>, \<^verbatim>\<open>DesktopCamera\<close>
  and \<^verbatim>\<open>Analyse\<close>. The children hand a capture to the page through the callback
  \<^verbatim>\<open>onCapture\<close>, which is \<^verbatim>\<open>handleCapture\<close>; \<^verbatim>\<open>handleCapture\<close> sets the preview and
  calls \<^verbatim>\<open>handleImageUpload\<close>, which calls \<^verbatim>\<open>base64ToBlob\<close> for data URIs.

  \<^bold>\<open>Theories and what they model\<close>

  \<^descr>[\<open>Capture_Prelude\<close>] JavaScript strings as lists of 16-bit code units, bytes
    as 8-bit words, exceptions as the left summand of \<open>js_error + 'a\<close>, string
    literals \<open>js ''...''\<close>, and the shared facts on words and lists.
  \<^descr>[\<open>JS_Strings\<close>] The string operations the source calls, from ECMAScript:
    \<open>split_js\<close> (\<^verbatim>\<open>split(",")\<close>), \<open>index_js\<close> and \<open>to_DOMString\<close> (\<^verbatim>\<open>parts[1]\<close> passed to
    a platform function), \<open>startsWith\<close>, and the two regular expressions of the
    source as matchers: \<open>match_mime\<close> for \<^verbatim>\<open>/:(.*?);/\<close> and \<open>mobile_regex_test\<close> for
    \<^verbatim>\<open>/iPhone|iPad|iPod|Android/i\<close>.
  \<^descr>[\<open>Base64\<close>] \<open>atob\<close> as the forgiving base64 decoder of the HTML standard, the
    encoder of RFC 4648, and the round trip between them.
  \<^descr>[\<open>Web_Platform\<close>] \<^verbatim>\<open>Blob\<close>, \<^verbatim>\<open>File\<close>, \<^verbatim>\<open>FormData\<close>, the object-URL registry,
    \<^verbatim>\<open>canvas.toDataURL\<close> and the request and response of \<^verbatim>\<open>fetch\<close>.
  \<^descr>[\<open>Normalizer\<close>] \<open>base64ToBlob\<close> (lines 12 to 23), with the copy loop as the
    recursive function \<open>fill_bytes\<close> on an explicit buffer and as the while loop
    \<open>copy_loop\<close> with its counter. Shown: the loop is \<open>map ucast\<close>; the while
    loop terminates with the same buffer; the round trip with \<open>toDataURL\<close>; the
    two exceptions it can raise and when.
  \<^descr>[\<open>Normalize_Spec\<close>] The normalizer of the design document, \<open>normalize_spec\<close>
    from a \<open>captured_image\<close> to a \<open>payload\<close> or a failure, written from the
    document and not from the code. Shown: \<open>base64ToBlob\<close> refines it on data
    URIs, files are normalised as the document says, and where the code is
    more lenient or names a file differently.
  \<^descr>[\<open>Mobile_Camera\<close>] \<^verbatim>\<open>MobileCamera\<close> (lines 28 to 105) as a state machine over
    the runs of its effect: \<open>startCamera\<close>, the continuations \<open>resume_granted\<close>
    and \<open>resume_denied\<close> of the awaited \<^verbatim>\<open>getUserMedia\<close>, \<open>cleanup\<close>,
    \<open>toggleCamera\<close>, \<open>mount\<close>, \<open>unmount\<close> and \<open>capturePhoto\<close>, and the video
    element with its source, its \<^verbatim>\<open>onloadedmetadata\<close> handler (\<open>loadedmetadata\<close>,
    \<open>play\<close>) and what it plays. Shown: the invariants \<open>camera_inv\<close> and
    \<open>video_inv\<close> of reachable states; at most one running stream, and none
    after unmounting, in runs that wait for the camera; such a run can always
    be brought to an end with nothing left (\<open>release\<close>); the latest request
    asks for the camera \<^verbatim>\<open>facingMode\<close> names (\<open>current_request\<close>); a stream
    granted after the cleanup of its run is never stopped; switching while a
    request is pending gives two running streams, and the wrong one on screen
    when the grants arrive in the other order.
  \<^descr>[\<open>Desktop_Camera\<close>] \<^verbatim>\<open>DesktopCamera\<close> (lines 110 to 164): \<open>setShowWebcam\<close>,
    \<open>desktop_capturePhoto\<close>, \<open>onChange\<close> of the file input and \<open>desktop_render\<close>,
    over a model of the \<^verbatim>\<open>react-webcam\<close> child taken from its documentation.
    Shown: closed means no stream; what a capture and a file change emit.
  \<^descr>[\<open>Device_Detector\<close>] The detection effect of \<^verbatim>\<open>Analyse\<close> (lines 173 to 176) as
    \<open>detect\<close>. Shown: it decides, and decides mobile exactly for user agents
    that contain one of the four names in any case, stated once through the
    case folding of the matcher and once letter by letter.
  \<^descr>[\<open>Upload_Client\<close>] \<^verbatim>\<open>handleImageUpload\<close> (lines 178 to 208): \<open>build_form\<close>,
    \<open>apiEndpoint\<close>, \<open>after_fetch\<close> with its \<^verbatim>\<open>catch\<close> block \<open>caught\<close>, and
    \<open>handleImageUpload\<close>, for an arbitrary network and JSON parser. A response
    carries its status and what reading its body gives, the text or a
    rejection. Shown: at most one request; the body for a camera frame and for
    a file; each outcome of the request, a body that cannot be read included;
    refinement of the outcome \<open>upload_spec\<close> the design promises. The \<^verbatim>\<open>await\<close> of
    \<^verbatim>\<open>fetch\<close> splits the handler into \<open>start_upload\<close> and \<open>settle_upload\<close>, which
    together are the handler.
  \<^descr>[\<open>Analyse_Page\<close>] \<^verbatim>\<open>Analyse\<close> (lines 169 to 287): \<open>handleCapture\<close>,
    \<open>handleMobileFile\<close>, \<open>render\<close> and the step function \<open>page_step\<close> over the
    page's events. Shown: every state reached is well formed (\<open>page_wf\<close>); the
    mode never reverts; a capture always shows and the last one wins; one
    upload per capture; object URLs are never released.
  \<^descr>[\<open>Upload_Timing\<close>] The page with its uploads in flight: \<open>timed_step\<close> takes
    a page event, which starts uploads, or the answer of the network to one of
    them, in any order. Shown: it refines the page of \<open>Analyse_Page\<close>, which
    records every upload whole at the moment of the capture; once every
    request is answered no upload is in flight.
  \<^descr>[\<open>Spec2Isabelle\<close>] The wiring of the children to the page (\<open>mobile_capture\<close>,
    \<open>desktop_capture\<close>, \<open>desktop_file\<close>) with the properties of a capture from the
    click to the request, and the page together with its children: \<open>app_step\<close>
    over the state \<open>app\<close> of the page, \<^verbatim>\<open>MobileCamera\<close> and \<^verbatim>\<open>DesktopCamera\<close>, where
    detection mounts the child of the branch and leaving unmounts it. Shown:
    the invariant \<open>app_inv\<close> of every run, and that leaving while the
    permission prompt is open leaves the camera on.

  \<^bold>\<open>Correspondence\<close>

  State variables of a component are the fields of its record, under the names
  of the source. A handler is a function from the state (and the arguments of
  the call) to the new state; what a handler passes to a callback is part of
  its result. An \<^verbatim>\<open>await\<close> on the environment ends a step: the code after
  \<^verbatim>\<open>await getUserMedia\<close> and after \<^verbatim>\<open>await fetch\<close> is a step of its own, taken when
  the environment delivers the result, so that other handlers can run in
  between as they can in the browser. The two further awaits of
  \<^verbatim>\<open>handleImageUpload\<close>, on \<^verbatim>\<open>response.text()\<close> and \<^verbatim>\<open>response.json()\<close>, are taken
  together with the answer of \<^verbatim>\<open>fetch\<close>: the answer carries what reading the
  body will give, and the handler touches nothing of the page in between.
  Fields of a record that are not variables of the source (the runs of the
  effect with their flags, the streams with running tracks, the calls of
  \<^verbatim>\<open>handleImageUpload\<close> made so far) are ghost state that the theorems are
  stated over. React's part (running an effect
  after the render that changed its dependencies, and the cleanup of the
  previous run before it) is built into the steps that change those
  dependencies.

  The environment is explicit and arbitrary: the network is a function from
  requests to outcomes, the JSON parser a partial function, the JPEG encoder a
  function from the canvas to bytes, the order of the browser's answers a list
  of events. No theorem assumes anything about them beyond what it states. A
  network that is a function answers equal requests equally; no theorem
  compares the answers to two uploads.

  \<^bold>\<open>Bounds\<close>

  Nothing is bounded and no fuel is used. The only loop of the source, the copy
  loop of \<^verbatim>\<open>base64ToBlob\<close>, is the function \<open>fill_bytes\<close> with a termination proof
  by the measure \<open>length byteString - i\<close>, and again the while loop \<open>copy_loop\<close>,
  whose result \<open>Some\<close> is its termination. Code units and bytes keep their
  widths (\<open>16 word\<close>, \<open>8 word\<close>); lengths and stream numbers are natural numbers.
  Runs are lists of events of any length; what can always happen (the camera
  released, every upload settled) is shown by giving the events that do it.

  \<^bold>\<open>Not modelled\<close>

  The pixels of a frame and the JPEG encoder (a parameter); layout, styling and
  animation of the rendered elements (\<open>render\<close> keeps which widgets are shown,
  not how); the internals of \<^verbatim>\<open>react-webcam\<close> beyond its documented behaviour;
  the server behind \<^verbatim>\<open>/api/upload\<close>; the structure of the JSON the server
  answers with (the parser is a parameter, and the code only logs its result);
  whether \<^verbatim>\<open>play()\<close> succeeds (its promise is dropped by the code), and the
  attribute \<^verbatim>\<open>autoPlay\<close> of the video element, with which the browser starts
  playback where the handler of line 48 does; time itself:
  runs order events and say nothing of durations, so fairness of the browser
  (that an answer does arrive) is outside the model.
\<close>

section \<open>Wiring of the children to the page\<close>

text \<open>
  \<^verbatim>\<open><MobileCamera onCapture={handleCapture} />\<close> with its capture button (lines 100
  and 257), and \<^verbatim>\<open><DesktopCamera onCapture={handleCapture} />\<close> with its capture
  button and its file input (lines 131, 151 to 157 and 272): a click runs the
  handler of the child, and what the child passes to \<^verbatim>\<open>onCapture\<close> is handled by
  \<open>handleCapture\<close>.
\<close>

definition on_capture :: "'j browser \<Rightarrow> capture_data option \<Rightarrow> 'j analyse \<Rightarrow> 'j analyse" where
  "on_capture env emitted s = (case emitted of None \<Rightarrow> s | Some data \<Rightarrow> handleCapture env data s)"

definition mobile_capture ::
  "'j browser \<Rightarrow> (canvas \<Rightarrow> byte list) \<Rightarrow> bool \<Rightarrow> video_element option \<Rightarrow> 'j analyse \<Rightarrow> 'j analyse" where
  "mobile_capture env encode has_ctx videoRef s =
     on_capture env (map_option CapturedString (capturePhoto encode has_ctx videoRef)) s"

definition desktop_capture ::
  "'j browser \<Rightarrow> byte list \<Rightarrow> desktop_camera \<Rightarrow> 'j analyse \<Rightarrow> 'j analyse" where
  "desktop_capture env frame d s = on_capture env (desktop_capturePhoto frame d) s"

definition desktop_file :: "'j browser \<Rightarrow> js_file list \<Rightarrow> 'j analyse \<Rightarrow> 'j analyse" where
  "desktop_file env files s = on_capture env (onChange files) s"

definition frame_request :: "'j browser \<Rightarrow> byte list \<Rightarrow> request" where
  "frame_request env bs =
     \<lparr>req_url = apiEndpoint (origin env), req_method = js ''POST'',
      req_body = [(js ''image'',
        FormFile \<lparr>blob_bytes = bs, blob_type = js ''image/jpeg'', file_name = js ''captured.jpg''\<rparr>)]\<rparr>"

section \<open>The page with its children\<close>

text \<open>
  What \<^verbatim>\<open>Analyse\<close> renders decides which child exists (lines 231 to 274): none
  while \<^verbatim>\<open>isMobileDevice\<close> is \<^verbatim>\<open>null\<close>, \<^verbatim>\<open>MobileCamera\<close> and the file input on a
  mobile device, \<^verbatim>\<open>DesktopCamera\<close> otherwise. \<open>app\<close> is the state of the page and of
  both children (a child that is not rendered is in its initial state), and
  \<open>left\<close> says that the user has left the page. \<open>app_event\<close> is what can happen
  to the whole: the detection effect, an event of the mobile camera, a tap on
  its shutter, a file chosen on the mobile input, an event of the desktop
  child, and leaving the page.

  \<open>detected\<close> runs the effect of lines 173 to 176 and, on a mobile device, the
  mount of \<^verbatim>\<open>MobileCamera\<close> that the next render brings. The answers of the
  browser to \<^verbatim>\<open>getUserMedia\<close> reach the continuation whether the component is
  still there or not, so \<open>deliverable\<close> lets them through always and the
  events of the user only while the page is shown; mounting and unmounting
  happen through \<open>detected\<close> and \<open>leave\<close> alone. \<open>leave\<close> unmounts both
  children: the cleanup of the effect of \<^verbatim>\<open>MobileCamera\<close> (lines 60 to 64), and
  the webcam of \<^verbatim>\<open>DesktopCamera\<close>, which stops its own stream. What a child
  passes to \<^verbatim>\<open>onCapture\<close> goes to \<open>handleCapture\<close> as in \<open>on_capture\<close>.

  \<open>branch_ok\<close> says that the children follow the render: the camera of the
  mobile branch is mounted exactly on a mobile device that has not left, the
  webcam is shown only on a desktop that has not left, and the child of the
  other branch has never been touched. \<open>app_inv\<close> adds the invariants of the
  three components. \<open>phone\<close> is the browser of an iPhone whose network is down,
  used in the examples.
\<close>

record 'j app =
  app_page :: "'j analyse"
  app_camera :: mobile_camera
  app_desktop :: desktop_camera
  left :: bool

datatype app_event =
    Detected
  | Camera camera_event
  | MobileShutter bool video_element
  | MobileFile "js_file list"
  | Desktop desktop_event
  | Leave

definition initial_app :: "'j app" where
  "initial_app =
     \<lparr>app_page = initial_page, app_camera = initial_camera, app_desktop = initial_desktop,
      left = False\<rparr>"

definition detected :: "'j browser \<Rightarrow> 'j app \<Rightarrow> 'j app" where
  "detected env a =
     (if isMobileDevice (app_page a) = None \<and> \<not> left a
      then (let p = detect_effect env (app_page a)
            in a\<lparr>app_page := p,
                 app_camera := (if isMobileDevice p = Some True
                                then camera_step (app_camera a) Mount else app_camera a)\<rparr>)
      else a)"

fun deliverable :: "'j app \<Rightarrow> camera_event \<Rightarrow> bool" where
  "deliverable a (Granted k) = True"
| "deliverable a (Denied k) = True"
| "deliverable a LoadedMetadata = (\<not> left a)"
| "deliverable a ToggleCamera = (\<not> left a)"
| "deliverable a Mount = False"
| "deliverable a Unmount = False"

definition leave :: "'j app \<Rightarrow> 'j app" where
  "leave a =
     (if left a then a
      else a\<lparr>left := True, app_camera := camera_step (app_camera a) Unmount,
             app_desktop := setShowWebcam False (app_desktop a)\<rparr>)"

definition desktop_event_step :: "'j browser \<Rightarrow> desktop_event \<Rightarrow> 'j app \<Rightarrow> 'j app" where
  "desktop_event_step env e a =
     (if isMobileDevice (app_page a) = Some False \<and> \<not> left a
      then (let (d, emitted) = desktop_step (app_desktop a) e
            in a\<lparr>app_desktop := d, app_page := on_capture env emitted (app_page a)\<rparr>)
      else a)"

fun app_step :: "'j browser \<Rightarrow> (canvas \<Rightarrow> byte list) \<Rightarrow> 'j app \<Rightarrow> app_event \<Rightarrow> 'j app" where
  "app_step env encode a Detected = detected env a"
| "app_step env encode a (Camera e) =
     (if deliverable a e then a\<lparr>app_camera := camera_step (app_camera a) e\<rparr> else a)"
| "app_step env encode a (MobileShutter has_ctx video) =
     (if mounted (app_camera a)
      then a\<lparr>app_page := mobile_capture env encode has_ctx (Some video) (app_page a)\<rparr>
      else a)"
| "app_step env encode a (MobileFile files) =
     (if left a then a else a\<lparr>app_page := page_step env (app_page a) (MobileFileChange files)\<rparr>)"
| "app_step env encode a (Desktop e) = desktop_event_step env e a"
| "app_step env encode a Leave = leave a"

fun app_run :: "'j browser \<Rightarrow> (canvas \<Rightarrow> byte list) \<Rightarrow> 'j app \<Rightarrow> app_event list \<Rightarrow> 'j app" where
  "app_run env encode a [] = a"
| "app_run env encode a (e # es) = app_run env encode (app_step env encode a e) es"

definition branch_ok :: "'j app \<Rightarrow> bool" where
  "branch_ok a \<longleftrightarrow>
     mounted (app_camera a) = (isMobileDevice (app_page a) = Some True \<and> \<not> left a) \<and>
     (showWebcam (app_desktop a) \<longrightarrow> isMobileDevice (app_page a) = Some False \<and> \<not> left a) \<and>
     (isMobileDevice (app_page a) \<noteq> Some True \<longrightarrow> app_camera a = initial_camera) \<and>
     (isMobileDevice (app_page a) \<noteq> Some False \<longrightarrow> app_desktop a = initial_desktop)"

definition app_inv :: "'j app \<Rightarrow> bool" where
  "app_inv a \<longleftrightarrow>
     branch_ok a \<and> camera_inv (app_camera a) \<and> video_inv (app_camera a) \<and>
     desktop_inv (app_desktop a) \<and> page_wf (app_page a)"

text \<open>
  \<open>gestures\<close> counts what the user does to capture an image: a tap on a
  shutter, a file chosen in a picker.
\<close>

definition gestures :: "app_event \<Rightarrow> nat" where
  "gestures e =
     (case e of
        MobileShutter _ _ \<Rightarrow> 1
      | MobileFile files \<Rightarrow> captures (MobileFileChange files)
      | Desktop (CapturePhoto _) \<Rightarrow> 1
      | Desktop (FileChange files) \<Rightarrow> (if files = [] then 0 else 1)
      | _ \<Rightarrow> 0)"

abbreviation phone :: "unit browser" where
  "phone \<equiv> \<lparr>fetch = \<lambda>_. Rejected [], json = \<lambda>_. None, origin = None,
     userAgent = Some (js ''iPhone'')\<rparr>"

section \<open>From the click to the request\<close>

lemma upload_frame:
  "requests (upload env (CapturedString (toDataURL (js ''image/jpeg'') bs))) = [frame_request env bs]"
  "rejected (upload env (CapturedString (toDataURL (js ''image/jpeg'') bs))) = None"
  by (simp_all add: upload_def frame_request_def handleImageUpload_Inr [OF build_form_frame])

lemma on_capture_frame:
  "on_capture env (Some (CapturedString (toDataURL (js ''image/jpeg'') bs))) s =
     s\<lparr>screenshot := Some (SrcString (toDataURL (js ''image/jpeg'') bs)),
       uploads := uploads s @ [upload env (CapturedString (toDataURL (js ''image/jpeg'') bs))]\<rparr>"
  by (simp add: on_capture_def handleCapture_def)

text \<open>
  (C5) A photo taken with the mobile camera, from the click to the request: with a
  video element and a drawing context, the page shows the data URI of the frame
  and starts one upload, which does not reject and sends exactly one request,
  a \<^verbatim>\<open>POST\<close> whose only field is the file \<^verbatim>\<open>captured.jpg\<close> of type \<^verbatim>\<open>image/jpeg\<close> holding
  exactly the bytes the encoder produced for the canvas.
\<close>

theorem mobile_capture_uploads_frame:
  "mobile_capture env encode True (Some video) s =
     s\<lparr>screenshot := Some (SrcString (toDataURL (js ''image/jpeg'') (encode (new_canvas video)))),
       uploads := uploads s @
         [upload env (CapturedString (toDataURL (js ''image/jpeg'') (encode (new_canvas video))))]\<rparr> \<and>
   requests (last (uploads (mobile_capture env encode True (Some video) s))) =
     [frame_request env (encode (new_canvas video))] \<and>
   rejected (last (uploads (mobile_capture env encode True (Some video) s))) = None"
  by (simp add: mobile_capture_def capturePhoto_def on_capture_frame upload_frame)

text \<open>
  Without a video element or without a drawing context the click on the
  capture button of the mobile camera changes nothing: no preview, no upload.
\<close>

lemma mobile_capture_nothing:
  "videoRef = None \<or> \<not> has_ctx \<Longrightarrow> mobile_capture env encode has_ctx videoRef s = s"
  by (auto simp: mobile_capture_def on_capture_def capturePhoto_def split: option.splits)

lemma mobile_capture_nothing_witness:
  "mobile_capture \<lparr>fetch = \<lambda>_. Rejected [], json = \<lambda>_. None :: unit option, origin = None,
       userAgent = None\<rparr> (\<lambda>_. []) False (Some \<lparr>videoWidth = 640, videoHeight = 480\<rparr>) initial_page =
     initial_page"
  by (rule mobile_capture_nothing) simp

text \<open>
  (C30) A photo taken with the desktop webcam while it has a stream: the page shows
  the data URI of the frame and starts one upload, which sends one request
  with the file \<^verbatim>\<open>captured.jpg\<close> holding exactly the bytes of the frame; while the
  webcam has no stream the click changes nothing.
\<close>

theorem desktop_capture_uploads_frame:
  assumes "desktop_inv d"
  shows "desktop_capture env frame d s =
           (if streaming d
            then s\<lparr>screenshot := Some (SrcString (toDataURL (js ''image/jpeg'') frame)),
                   uploads := uploads s @
                     [upload env (CapturedString (toDataURL (js ''image/jpeg'') frame))]\<rparr>
            else s) \<and>
         (streaming d \<longrightarrow>
            requests (last (uploads (desktop_capture env frame d s))) = [frame_request env frame])"
proof -
  from assms have "desktop_capturePhoto frame d =
      (if streaming d then Some (CapturedString (toDataURL (js ''image/jpeg'') frame)) else None)"
    by (auto simp: desktop_capturePhoto_def getScreenshot_def truthy_def streaming_def
        desktop_inv_def Let_def split: option.splits)
  then show ?thesis
    by (simp add: desktop_capture_def on_capture_frame upload_frame) (simp add: on_capture_def)
qed

theorem desktop_capture_uploads_frame_witness:
  "desktop_inv (fst (desktop_run initial_desktop [OpenWebcam, UserMedia])) \<and>
   streaming (fst (desktop_run initial_desktop [OpenWebcam, UserMedia])) \<and>
   requests (last (uploads (desktop_capture
       \<lparr>fetch = \<lambda>_. Rejected [], json = \<lambda>_. None :: unit option, origin = None, userAgent = None\<rparr>
       [0xFF, 0xD8] (fst (desktop_run initial_desktop [OpenWebcam, UserMedia])) initial_page))) =
     [frame_request
       \<lparr>fetch = \<lambda>_. Rejected [], json = \<lambda>_. None :: unit option, origin = None, userAgent = None\<rparr>
       [0xFF, 0xD8]]"
proof -
  let ?d = "fst (desktop_run initial_desktop [OpenWebcam, UserMedia])"
  let ?env = "\<lparr>fetch = \<lambda>_. Rejected [], json = \<lambda>_. None :: unit option, origin = None,
      userAgent = None\<rparr>"
  have i: "desktop_inv ?d" and st: "streaming ?d"
    by (simp_all add: desktop_defs desktop_inv_def Let_def)
  have "streaming ?d \<longrightarrow>
      requests (last (uploads (desktop_capture ?env [0xFF, 0xD8] ?d initial_page))) =
        [frame_request ?env [0xFF, 0xD8]]"
    using desktop_capture_uploads_frame [OF i, of ?env "[0xFF, 0xD8]" initial_page]
    by (rule conjunct2)
  then have r: "requests (last (uploads (desktop_capture ?env [0xFF, 0xD8] ?d initial_page))) =
      [frame_request ?env [0xFF, 0xD8]]"
    using st by (rule mp)
  show ?thesis
    by (rule conjI [OF i conjI [OF st r]])
qed

text \<open>
  (C31) A file chosen in the file input of the desktop component: the page shows an
  object URL that resolves to that file and sends the file itself, under its
  own name; a cancelled dialog changes nothing.
\<close>

theorem desktop_file_uploaded:
  assumes "registry_ok (registry s)"
  shows "desktop_file env [] s = s \<and>
         Option.bind (screenshot (desktop_file env (f # fs) s))
           (resolve_src (registry (desktop_file env (f # fs) s))) = Some (Inl (FileBlob f)) \<and>
         requests (last (uploads (desktop_file env (f # fs) s))) =
           [\<lparr>req_url = apiEndpoint (origin env), req_method = js ''POST'',
             req_body = [(js ''image'', FormFile f)]\<rparr>]"
proof -
  have "registry_ok (registry s) \<Longrightarrow>
      Option.bind (screenshot (handleCapture env (CapturedBlob (FileBlob f)) s))
        (resolve_src (registry (handleCapture env (CapturedBlob (FileBlob f)) s))) =
      Some (Inl (FileBlob f))"
    by (simp add: resolve_src_def resolve_url_def map_add_Some_iff registry_ok_fresh)
  with assms show ?thesis
    by (simp add: desktop_file_def on_capture_def onChange_def upload_def handleImageUpload_def
        form_file_def Let_def)
qed

theorem desktop_file_uploaded_witness:
  "registry_ok (registry (initial_page :: unit analyse)) \<and>
   requests (last (uploads (desktop_file
       \<lparr>fetch = \<lambda>_. Rejected [], json = \<lambda>_. None :: unit option, origin = Some (js ''https://x.test''),
         userAgent = None\<rparr>
       [\<lparr>blob_bytes = [1, 2], blob_type = js ''image/png'', file_name = js ''fridge.png''\<rparr>]
       initial_page))) =
     [\<lparr>req_url = js ''https://x.test'' @ js ''/api/upload'', req_method = js ''POST'',
       req_body = [(js ''image'',
         FormFile \<lparr>blob_bytes = [1, 2], blob_type = js ''image/png'', file_name = js ''fridge.png''\<rparr>)]\<rparr>]"
  using desktop_file_uploaded [of "initial_page :: unit analyse"
      "\<lparr>fetch = \<lambda>_. Rejected [], json = \<lambda>_. None :: unit option, origin = Some (js ''https://x.test''),
         userAgent = None\<rparr>"
      "\<lparr>blob_bytes = [1, 2], blob_type = js ''image/png'', file_name = js ''fridge.png''\<rparr>" "[]"]
  by (simp add: registry_ok_def initial_page_def empty_registry_def apiEndpoint_def)

text \<open>
  A malformed data URI handed to the page: the preview is set to the string,
  the upload sends no request, and its promise rejects with the error of
  \<^verbatim>\<open>base64ToBlob\<close>, which \<^verbatim>\<open>handleCapture\<close> does not catch.
\<close>

lemma malformed_capture:
  assumes "startsWith str (js ''data:'')" "base64ToBlob str = Inl e"
  shows "handleCapture env (CapturedString str) s =
     s\<lparr>screenshot := Some (SrcString str),
       uploads := uploads s @ [\<lparr>requests = [], console = [], rejected = Some e\<rparr>]\<rparr>"
proof -
  from assms have "build_form (CapturedString str) = Inl e"
    by (simp add: build_form_def)
  then show ?thesis
    by (simp add: handleCapture_def upload_def handleImageUpload_Inl)
qed

section \<open>The page with its children: invariant and leak\<close>

lemma page_wf_on_capture: "page_wf s \<Longrightarrow> page_wf (on_capture env emitted s)"
  by (cases emitted) (simp_all add: on_capture_def page_wf_handleCapture)

lemma on_capture_mode [simp]: "isMobileDevice (on_capture env emitted s) = isMobileDevice s"
  by (cases emitted) (simp_all add: on_capture_def)

lemma app_inv_initial: "app_inv initial_app"
  by (simp add: app_inv_def branch_ok_def initial_app_def camera_inv_initial video_inv_initial
      desktop_inv_initial page_wf_initial)
    (simp add: initial_page_def)

lemma app_inv_detected:
  assumes "app_inv a"
  shows "app_inv (detected env a)"
proof (cases "isMobileDevice (app_page a) = None \<and> \<not> left a")
  case True
  define p where "p = detect_effect env (app_page a)"
  from assms have wf: "page_wf p" by (simp add: p_def app_inv_def capture_inv)
  have m: "isMobileDevice p \<noteq> None" by (simp add: p_def detect_effect_decided)
  have "detected env a =
      a\<lparr>app_page := p,
        app_camera := (if isMobileDevice p = Some True
                       then camera_step (app_camera a) Mount else app_camera a)\<rparr>"
    using True by (simp add: detected_def p_def Let_def)
  with assms True wf m show ?thesis
    by (auto simp: app_inv_def branch_ok_def capture_inv
        camera_step_mounted camera_step_initial)
next
  case False
  then have "detected env a = a" by (auto simp: detected_def)
  with assms show ?thesis by simp
qed

lemma app_inv_camera:
  "app_inv a \<Longrightarrow> deliverable a e \<Longrightarrow> app_inv (a\<lparr>app_camera := camera_step (app_camera a) e\<rparr>)"
  by (cases e)
    (auto simp: app_inv_def branch_ok_def capture_inv camera_step_mounted
      camera_step_initial)

lemma app_inv_leave:
  assumes "app_inv a"
  shows "app_inv (leave a)"
proof (cases "left a")
  case True
  with assms show ?thesis by (simp add: leave_def)
next
  case False
  let ?c = "camera_step (app_camera a) Unmount"
  from assms have c: "camera_inv ?c" "video_inv ?c" "\<not> mounted ?c"
    by (simp_all add: app_inv_def capture_inv camera_step_mounted)
  from assms have i: "isMobileDevice (app_page a) \<noteq> Some True \<longrightarrow> ?c = initial_camera"
    by (simp add: app_inv_def branch_ok_def camera_step_initial)
  from assms have d: "desktop_inv (setShowWebcam False (app_desktop a))"
    using desktop_inv_fire [of "app_desktop a" CloseWebcam] by (simp add: app_inv_def)
  from assms have "isMobileDevice (app_page a) \<noteq> Some False \<longrightarrow>
      setShowWebcam False (app_desktop a) = initial_desktop"
    by (auto simp: app_inv_def branch_ok_def)
  with assms False c i d show ?thesis
    by (simp add: app_inv_def branch_ok_def leave_def setShowWebcam_def)
qed

lemma app_inv_desktop: "app_inv a \<Longrightarrow> app_inv (desktop_event_step env e a)"
proof -
  assume a: "app_inv a"
  obtain d emitted where s: "desktop_step (app_desktop a) e = (d, emitted)"
    by (cases "desktop_step (app_desktop a) e")
  from a have "desktop_inv (fst (desktop_step (app_desktop a) e))"
    by (simp add: app_inv_def capture_inv)
  with s have "desktop_inv d" by simp
  with a s show ?thesis
    by (auto simp: app_inv_def branch_ok_def desktop_event_step_def page_wf_on_capture)
qed

lemma app_inv_step: "app_inv a \<Longrightarrow> app_inv (app_step env encode a e)"
proof (cases e)
  case Detected
  assume "app_inv a"
  with Detected show ?thesis by (simp add: app_inv_detected)
next
  case (Camera ce)
  assume "app_inv a"
  with Camera show ?thesis by (simp add: app_inv_camera)
next
  case (MobileShutter has_ctx video)
  assume "app_inv a"
  with MobileShutter show ?thesis
    by (auto simp: app_inv_def branch_ok_def mobile_capture_def page_wf_on_capture)
next
  case (MobileFile files)
  assume "app_inv a"
  with MobileFile show ?thesis
    by (auto simp: app_inv_def branch_ok_def page_wf_step page_step_mode_kept)
next
  case (Desktop de)
  assume "app_inv a"
  with Desktop show ?thesis by (simp add: app_inv_desktop)
next
  case Leave
  assume "app_inv a"
  with Leave show ?thesis by (simp add: app_inv_leave)
qed

lemma app_inv_run: "app_inv a \<Longrightarrow> app_inv (app_run env encode a es)"
  by (induction es arbitrary: a) (simp_all add: app_inv_step)

lemma orphaned_app_step:
  assumes "app_inv a" "orphaned (app_camera a) i"
  shows "orphaned (app_camera (app_step env encode a e)) i"
proof -
  from assms(1) have inv: "camera_inv (app_camera a)" by (simp add: app_inv_def)
  note o = orphaned_step [OF inv assms(2)]
  show ?thesis
    by (cases e) (simp_all add: assms(2) o detected_def leave_def desktop_event_step_def Let_def
        split: prod.splits)
qed

lemma orphaned_app_run:
  "app_inv a \<Longrightarrow> orphaned (app_camera a) i \<Longrightarrow> orphaned (app_camera (app_run env encode a es)) i"
  by (induction es arbitrary: a) (simp_all add: app_inv_step orphaned_app_step)

lemma leave_camera:
  assumes "app_inv a"
  shows "\<not> mounted (app_camera (leave a))" "granted (app_camera (leave a)) = granted (app_camera a)"
    "pending (app_camera (leave a)) k = pending (app_camera a) k"
  using assms
  by (auto simp: leave_def app_inv_def branch_ok_def camera_step_def)

text \<open>
  The camera inside the page is a camera of \<open>Mobile_Camera\<close>: every state it
  takes in a run of the page is reachable there, so what is shown of reachable
  states holds of it. And no upload starts without the user: a run starts at
  most as many uploads as it has gestures.
\<close>

lemma app_camera_step:
  "app_camera (app_step env encode a e) = app_camera a \<or>
   (\<exists>ce. app_camera (app_step env encode a e) = camera_step (app_camera a) ce)"
  by (cases e) (auto simp: detected_def leave_def desktop_event_step_def Let_def split: prod.splits)

lemma app_camera_reachable_step:
  "reachable (app_camera a) \<Longrightarrow> reachable (app_camera (app_step env encode a e))"
  using app_camera_step [of env encode a e] by (auto simp: reachable_step)

lemma app_camera_reachable: "reachable (app_camera (app_run env encode initial_app es))"
proof -
  have "reachable (app_camera a) \<Longrightarrow> reachable (app_camera (app_run env encode a es))" for a :: "'a app"
    by (induction es arbitrary: a) (simp_all add: app_camera_reachable_step)
  then show ?thesis by (simp add: initial_app_def reachable.start)
qed

lemma on_capture_uploads:
  "length (uploads (on_capture env emitted s)) =
     length (uploads s) + (case emitted of None \<Rightarrow> 0 | Some _ \<Rightarrow> 1)"
  by (cases emitted) (simp_all add: on_capture_def handleCapture_def split: capture_data.splits prod.splits)

lemma desktop_step_emits:
  "snd (desktop_step d e) \<noteq> None \<Longrightarrow> gestures (Desktop e) = 1"
  by (cases e) (auto simp: desktop_step_def gestures_def onChange_def split: if_splits list.splits)

lemma app_uploads_step:
  "length (uploads (app_page (app_step env encode a e))) \<le>
     length (uploads (app_page a)) + gestures e"
proof (cases e)
  case (MobileFile files)
  with page_step_uploads [of env "app_page a" "MobileFileChange files"] show ?thesis
    by (simp add: gestures_def)
next
  case (Desktop de)
  obtain d emitted where s: "desktop_step (app_desktop a) de = (d, emitted)"
    by (cases "desktop_step (app_desktop a) de")
  with desktop_step_emits [of "app_desktop a" de] have "emitted \<noteq> None \<Longrightarrow> gestures (Desktop de) = 1"
    by simp
  with Desktop s show ?thesis
    by (cases emitted) (simp_all add: desktop_event_step_def on_capture_uploads)
next
  case (MobileShutter has_ctx video)
  then show ?thesis
    by (simp add: mobile_capture_def on_capture_uploads gestures_def split: option.splits)
qed (simp_all add: detected_def leave_def detect_effect_def Let_def)

lemma app_uploads_run:
  "length (uploads (app_page (app_run env encode a es))) \<le>
     length (uploads (app_page a)) + sum_list (map gestures es)"
proof (induction es arbitrary: a)
  case Nil
  show ?case by simp
next
  case (Cons e es)
  from Cons.IH [of "app_step env encode a e"] app_uploads_step [of env encode a e]
  show ?case by simp
qed

text \<open>
  (C10) Whatever happens to the page (detection, answers of the browser, taps,
  chosen files, leaving), the children follow the render and every component
  keeps its invariant: the camera of the mobile branch is mounted exactly on a
  mobile device that has not been left, the webcam is shown only on a desktop
  that has not been left, the child of the other branch is never touched, and
  the invariants of \<^verbatim>\<open>MobileCamera\<close>, of its video element, of \<^verbatim>\<open>DesktopCamera\<close>
  and of the page hold.
\<close>

theorem app_run_inv: "app_inv (app_run env encode initial_app es)"
  by (rule app_inv_run) (rule app_inv_initial)

theorem app_run_inv_witness: "app_inv (app_run phone (\<lambda>_. []) initial_app [Detected, Leave, Camera (Granted 0)])"
  by (rule app_run_inv)

text \<open>
  (C11) Leaving the page while a request for the camera is pending leaks the
  camera: if the answer to that request is a stream, this stream is still live
  after every further sequence of events of the page, because the cleanup of
  lines 60 to 64 ran before the stream existed and nothing else stops tracks.
\<close>

theorem grant_after_leave_leaks:
  assumes "app_inv a" "pending (app_camera a) k"
  shows "granted (app_camera a) \<in>
     set (live (app_camera (app_run env encode a (Leave # Camera (Granted k) # es))))"
proof -
  let ?b = "leave a"
  let ?c = "?b\<lparr>app_camera := resume_granted k (app_camera ?b)\<rparr>"
  from assms(1) have b: "app_inv ?b" by (rule app_inv_leave)
  then have inv: "camera_inv (app_camera ?b)" by (simp add: app_inv_def)
  from assms have p: "pending (app_camera ?b) k" by (simp add: leave_camera)
  then have "cleaned (effects (app_camera ?b) ! k)"
    using unmounted_cleaned [OF inv leave_camera(1) [OF assms(1)]] by (simp add: pending_def)
  with p have "orphaned (resume_granted k (app_camera ?b)) (granted (app_camera ?b))"
    by (rule late_grant_orphaned)
  then have o: "orphaned (app_camera ?c) (granted (app_camera a))"
    using assms(1) by (simp add: leave_camera)
  have cs: "camera_step (app_camera ?b) (Granted k) = resume_granted k (app_camera ?b)"
    using p by (simp add: camera_step_def)
  from app_inv_step [OF b, of env encode "Camera (Granted k)"] have "app_inv ?c"
    by (simp add: cs)
  from orphaned_app_run [OF this o, of env encode es] show ?thesis
    by (simp add: cs orphaned_def)
qed

theorem grant_after_leave_leaks_witness:
  "app_inv (app_run phone (\<lambda>_. []) initial_app [Detected]) \<and>
   pending (app_camera (app_run phone (\<lambda>_. []) initial_app [Detected])) 0 \<and>
   0 \<in> set (live (app_camera (app_run phone (\<lambda>_. []) initial_app
     [Detected, Leave, Camera (Granted 0), Camera ToggleCamera, Leave])))"
proof -
  let ?a = "app_run phone (\<lambda>_. []) initial_app [Detected]"
  have m: "isMobileDevice (detect_effect phone initial_page) = Some True"
    by (simp add: detect_effect_def detect_eq mobile_regex_test_def or_empty_def js_simps)
  have c: "app_camera ?a = camera_step initial_camera Mount"
    using m by (simp add: detected_def initial_app_def initial_page_def Let_def)
  have i: "app_inv ?a" by (rule app_inv_run) (rule app_inv_initial)
  have p: "pending (app_camera ?a) 0" and g: "granted (app_camera ?a) = 0"
    unfolding c by (simp_all add: camera_defs pending_def Let_def)
  from grant_after_leave_leaks [OF i p, of phone "\<lambda>_. []" "[Camera ToggleCamera, Leave]"] i p g
  show ?thesis by simp
qed

end
